(* ===== verification/Prelude.thy ===== *)
theory Prelude
  imports Main "HOL-Library.Sublist"
begin

text \<open>
  Shared material of the development: the fact collections the component theories
  fill and use, the model of virtual time, the JavaScript built-ins the service calls
  (array indexing, \<^verbatim>\<open>Array.prototype.find\<close>, \<^verbatim>\<open>String.prototype.startsWith\<close>),
  and the list lemmas the stream proofs share (time-sorted lists, \<open>takeWhile\<close>,
  \<open>find\<close>).
\<close>

section \<open>Fact collections\<close>

named_theorems rx_defs "unfoldings of the stream operators"
named_theorems rd_defs "unfoldings of the remote-data predicates"
named_theorems svc_defs "unfoldings of the service operations"
named_theorems wf_intros "well-formedness is preserved by the stream operators"

section \<open>Virtual time\<close>

text \<open>
  Time is a frame counter, as in marble diagrams: an event carries the frame in which
  it is delivered.
\<close>

type_synonym time = nat

section \<open>JavaScript built-ins\<close>

text \<open>
  \<^verbatim>\<open>undefined\<close> and \<^verbatim>\<open>null\<close> are the value \<open>None\<close> of an option type.
  Reading an array out of range yields \<^verbatim>\<open>undefined\<close>; it does not raise.
\<close>

definition array_at :: "'a list \<Rightarrow> nat \<Rightarrow> 'a option" where
  "array_at xs i = (if i < length xs then Some (xs ! i) else None)"

text \<open>
  \<^verbatim>\<open>xs.find(p)\<close> is the first element that satisfies \<open>p\<close>, or \<^verbatim>\<open>undefined\<close>: the
  library's \<^const>\<open>List.find\<close>. \<^verbatim>\<open>s.startsWith(t)\<close> compares code units from the start
  of \<open>s\<close>: \<open>t\<close> is a prefix of \<open>s\<close>.
\<close>

definition startsWith :: "string \<Rightarrow> string \<Rightarrow> bool" where
  "startsWith s searchString = prefix searchString s"

text \<open>\<^verbatim>\<open>Number.MAX_SAFE_INTEGER\<close>, the largest \<open>n\<close> such that \<open>n\<close> and \<open>n + 1\<close> are both doubles.\<close>

definition MAX_SAFE_INTEGER :: int where
  "MAX_SAFE_INTEGER = 2 ^ 53 - 1"

section \<open>Lemmas on the built-ins\<close>

lemma array_at_Nil [simp]: "array_at [] i = None"
  by (simp add: array_at_def)

lemma array_at_Cons_0 [simp]: "array_at (x # xs) 0 = Some x"
  by (simp add: array_at_def)

lemma array_at_Cons_Suc [simp]: "array_at (x # xs) (Suc i) = array_at xs i"
  by (simp add: array_at_def)

lemma array_at_0_conv_hd: "array_at xs 0 = (case xs of [] \<Rightarrow> None | x # _ \<Rightarrow> Some x)"
  by (cases xs) simp_all

lemma array_at_eq_None [simp]: "array_at xs i = None \<longleftrightarrow> length xs \<le> i"
  by (auto simp: array_at_def)

lemma array_at_eq_Some: "array_at xs i = Some x \<longleftrightarrow> i < length xs \<and> xs ! i = x"
  by (auto simp: array_at_def)

lemma array_at_in_set: "array_at xs i = Some x \<Longrightarrow> x \<in> set xs"
  by (auto simp: array_at_eq_Some)

lemma startsWith_Nil [simp]: "startsWith s []"
  by (simp add: startsWith_def)

lemma startsWith_refl [simp]: "startsWith s s"
  by (simp add: startsWith_def)

lemma startsWith_append [simp]: "startsWith (t @ s) t"
  by (simp add: startsWith_def)

lemma startsWith_trans: "startsWith s t \<Longrightarrow> startsWith t u \<Longrightarrow> startsWith s u"
  unfolding startsWith_def by (rule prefix_order.trans)

lemma startsWith_length: "startsWith s t \<Longrightarrow> length t \<le> length s"
  by (simp add: startsWith_def prefix_length_le)

lemma startsWith_take: "startsWith s t \<longleftrightarrow> take (length t) s = t"
  unfolding startsWith_def by (metis append_eq_conv_conj prefix_def append_take_drop_id)

lemma MAX_SAFE_INTEGER_value: "MAX_SAFE_INTEGER = 9007199254740991"
  by (simp add: MAX_SAFE_INTEGER_def)

lemma take_MAX_SAFE_INTEGER [simp]:
  "length xs \<le> 9007199254740991 \<Longrightarrow> take (nat MAX_SAFE_INTEGER) xs = xs"
  by (simp add: MAX_SAFE_INTEGER_def)

section \<open>The first match in a list\<close>

lemma find_SomeD: "find P xs = Some x \<Longrightarrow> x \<in> set xs \<and> P x"
  by (induction xs) (auto split: if_splits)

lemma find_Some_split:
  "find P xs = Some x \<longleftrightarrow> (\<exists>ys zs. xs = ys @ x # zs \<and> P x \<and> (\<forall>y \<in> set ys. \<not> P y))"
proof (induction xs)
  case Nil
  then show ?case by simp
next
  case (Cons a xs)
  show ?case
  proof (cases "P a")
    case True
    have "(\<exists>ys zs. a # xs = ys @ x # zs \<and> P x \<and> (\<forall>y \<in> set ys. \<not> P y)) \<longleftrightarrow> a = x"
      using True by (auto simp: Cons_eq_append_conv)
    with True show ?thesis by auto
  next
    case False
    have "(\<exists>ys zs. a # xs = ys @ x # zs \<and> P x \<and> (\<forall>y \<in> set ys. \<not> P y))
      \<longleftrightarrow> (\<exists>ys zs. xs = ys @ x # zs \<and> P x \<and> (\<forall>y \<in> set ys. \<not> P y))"
      using False by (auto simp: Cons_eq_append_conv) (metis set_ConsD)+
    with False Cons.IH show ?thesis by simp
  qed
qed

lemma find_conv_filter: "find P xs = array_at (filter P xs) 0"
  by (induction xs) simp_all

lemma find_True: "xs \<noteq> [] \<Longrightarrow> find (\<lambda>_. True) xs = Some (hd xs)"
  by (cases xs) simp_all

section \<open>Time-sorted lists of events\<close>

lemma sorted_fst_append:
  "sorted (map fst (xs @ ys)) \<longleftrightarrow>
     sorted (map fst xs) \<and> sorted (map fst ys) \<and> (\<forall>x \<in> set xs. \<forall>y \<in> set ys. fst x \<le> fst y)"
  by (auto simp: sorted_append)

lemma sorted_map_const [simp]: "sorted (map (\<lambda>_. c) xs)"
  by (induction xs) auto

lemma sorted_fst_takeWhile: "sorted (map fst xs) \<Longrightarrow> sorted (map fst (takeWhile P xs))"
  by (induction xs) (auto dest: set_takeWhileD)

lemma takeWhile_all [simp]: "\<forall>x \<in> set xs. P x \<Longrightarrow> takeWhile P xs = xs"
  by (induction xs) auto

lemma takeWhile_prefix: "prefix (takeWhile P xs) xs"
  by (metis prefixI takeWhile_dropWhile_id)

lemma map_snd_takeWhile_prefix: "prefix (map snd (takeWhile P xs)) (map snd xs)"
  by (rule map_mono_prefix) (rule takeWhile_prefix)

text \<open>A page is a prefix of the collection: what a search or an index sees of it.\<close>

lemma array_at_take: "array_at (take n xs) i = (if i < n then array_at xs i else None)"
  by (simp add: array_at_def)

lemma find_take_all: "length xs \<le> n \<Longrightarrow> find P (take n xs) = find P xs"
  by simp

lemma find_take_Some: "find P (take n xs) = Some x \<Longrightarrow> find P xs = Some x"
proof (induction xs arbitrary: n)
  case Nil
  then show ?case by simp
next
  case (Cons a xs)
  then show ?case by (cases n) (auto split: if_splits)
qed

lemma take_MAX_SAFE_INTEGER_iff:
  "take (nat MAX_SAFE_INTEGER) xs = xs \<longleftrightarrow> length xs \<le> 9007199254740991"
  by (simp add: take_all_iff MAX_SAFE_INTEGER_def)

text \<open>
  The largest safe integer needs 53 bits: it fits a signed 64-bit integer, and read as
  a signed 32-bit integer it is \<open>-1\<close>.
\<close>

lemma MAX_SAFE_INTEGER_width:
  "take_bit 53 MAX_SAFE_INTEGER = MAX_SAFE_INTEGER"
  "take_bit 52 MAX_SAFE_INTEGER \<noteq> MAX_SAFE_INTEGER"
  "signed_take_bit 63 MAX_SAFE_INTEGER = MAX_SAFE_INTEGER"
  "signed_take_bit 31 MAX_SAFE_INTEGER = - 1"
  by (simp_all add: MAX_SAFE_INTEGER_def take_bit_eq_mod signed_take_bit_eq_take_bit_shift)

end
