(* ===== verification/Empty_Util.thy ===== *)
theory Empty_Util
  imports Prelude
begin

text \<open>
  The emptiness tests the service imports from \<^verbatim>\<open>shared/empty.util\<close>
  (\<^verbatim>\<open>hasValue\<close>, \<^verbatim>\<open>isNotEmpty\<close>) and their companions. An optional JavaScript value is
  an option; \<^verbatim>\<open>undefined\<close> and \<^verbatim>\<open>null\<close> are both \<open>None\<close>. Emptiness looks at the
  numeric \<^verbatim>\<open>length\<close> or \<^verbatim>\<open>size\<close> of a value that has one: the first argument of
  \<open>isEmpty\<close> reads it (\<open>array_length\<close> for arrays and strings, \<open>no_length\<close> for
  a class instance such as a bundle, which has neither property).
\<close>

section \<open>Definitions\<close>

definition hasValue :: "'a option \<Rightarrow> bool" where
  "hasValue obj = (case obj of None \<Rightarrow> False | Some _ \<Rightarrow> True)"

definition isEmpty :: "('a \<Rightarrow> nat option) \<Rightarrow> 'a option \<Rightarrow> bool" where
  "isEmpty len obj =
     (case obj of
        None \<Rightarrow> True
      | Some v \<Rightarrow> (case len v of None \<Rightarrow> False | Some n \<Rightarrow> n = 0))"

definition isNotEmpty :: "('a \<Rightarrow> nat option) \<Rightarrow> 'a option \<Rightarrow> bool" where
  "isNotEmpty len obj = (\<not> isEmpty len obj)"

definition no_length :: "'a \<Rightarrow> nat option" where
  "no_length v = None"

definition array_length :: "'a list \<Rightarrow> nat option" where
  "array_length xs = Some (length xs)"

section \<open>Lemmas\<close>

lemma hasValue_simps [simp]: "hasValue None = False" "hasValue (Some x) = True"
  by (simp_all add: hasValue_def)

lemma hasValue_iff: "hasValue obj \<longleftrightarrow> obj \<noteq> None"
  by (cases obj) simp_all

lemma hasValue_obtain: "hasValue obj \<Longrightarrow> \<exists>v. obj = Some v"
  by (cases obj) simp_all

lemma hasValue_map_option [simp]: "hasValue (map_option f obj) = hasValue obj"
  by (cases obj) simp_all

lemma hasValue_bind:
  "hasValue (Option.bind obj f) \<longleftrightarrow> (\<exists>v. obj = Some v \<and> hasValue (f v))"
  by (cases obj) simp_all

lemma isEmpty_None [simp]: "isEmpty len None"
  by (simp add: isEmpty_def)

lemma isNotEmpty_None [simp]: "\<not> isNotEmpty len None"
  by (simp add: isNotEmpty_def)

lemma isNotEmpty_imp_hasValue: "isNotEmpty len obj \<Longrightarrow> hasValue obj"
  by (cases obj) simp_all

lemma isNotEmpty_no_length [simp]: "isNotEmpty no_length obj = hasValue obj"
  by (cases obj) (simp_all add: isNotEmpty_def isEmpty_def no_length_def)

lemma isEmpty_no_length [simp]: "isEmpty no_length obj = (\<not> hasValue obj)"
  by (cases obj) (simp_all add: isEmpty_def no_length_def)

lemma isNotEmpty_array [simp]: "isNotEmpty array_length (Some xs) \<longleftrightarrow> xs \<noteq> []"
  by (simp add: isNotEmpty_def isEmpty_def array_length_def)

lemma hasValue_empty_array: "hasValue (Some []) \<and> \<not> isNotEmpty array_length (Some [])"
  by simp

end
