(* ===== verification/Remote_Data.thy ===== *)
theory Remote_Data
  imports Empty_Util
begin

text \<open>
  The asynchronous envelope every fetch is wrapped in (\<^verbatim>\<open>RemoteData\<close>), its error
  value (\<^verbatim>\<open>RemoteDataError\<close>) and the page of a collection (\<^verbatim>\<open>PaginatedList\<close>). The
  records carry the fields in the order of the constructors the service calls:
  \<^verbatim>\<open>new RemoteData(requestPending, responsePending, isSuccessful, error, payload)\<close> and
  \<^verbatim>\<open>new RemoteDataError(statusCode, statusText, message)\<close>. The four flags are
  independent fields, as in the source; \<open>wf_RemoteData\<close> is the three-state reading
  (pending, succeeded, failed: exactly one) that consumers rely on, \<open>state\<close>
  classifies a wrapper, and \<open>settles\<close> says of the snapshots of one request that
  the last of them is not pending.
\<close>

section \<open>Data\<close>

record RemoteDataError =
  statusCode :: int
  statusText :: string
  message :: string

record 'a RemoteData =
  isRequestPending :: bool
  isResponsePending :: bool
  hasSucceeded :: bool
  error :: "RemoteDataError option"
  payload :: "'a option"

record PageInfo =
  elementsPerPage :: int
  totalElements :: int
  currentPage :: int

record 'a PaginatedList =
  pageInfo :: PageInfo
  page :: "'a list option"

datatype RemoteDataState = RequestPending | ResponsePending | Success | Failed

section \<open>Operations\<close>

text \<open>A cast of the payload that leaves the request state alone.\<close>

definition map_payload :: "('a \<Rightarrow> 'b) \<Rightarrow> 'a RemoteData \<Rightarrow> 'b RemoteData" where
  "map_payload f rd =
     \<lparr>isRequestPending = isRequestPending rd, isResponsePending = isResponsePending rd,
      hasSucceeded = hasSucceeded rd, error = error rd, payload = map_option f (payload rd)\<rparr>"

definition isLoading :: "'a RemoteData \<Rightarrow> bool" where
  "isLoading rd \<longleftrightarrow> isRequestPending rd \<or> isResponsePending rd"

definition hasFailed :: "'a RemoteData \<Rightarrow> bool" where
  "hasFailed rd \<longleftrightarrow> hasValue (error rd)"

definition state :: "'a RemoteData \<Rightarrow> RemoteDataState" where
  "state rd =
     (if isRequestPending rd then RequestPending
      else if isResponsePending rd then ResponsePending
      else if hasSucceeded rd then Success
      else Failed)"

text \<open>Exactly one of pending, succeeded and failed holds.\<close>

definition wf_RemoteData :: "'a RemoteData \<Rightarrow> bool" where
  "wf_RemoteData rd \<longleftrightarrow>
     (isLoading rd \<and> \<not> hasSucceeded rd \<and> \<not> hasFailed rd) \<or>
     (\<not> isLoading rd \<and> hasSucceeded rd \<and> \<not> hasFailed rd) \<or>
     (\<not> isLoading rd \<and> \<not> hasSucceeded rd \<and> hasFailed rd)"

text \<open>
  A wrapper is strict when it carries a payload only once it has succeeded: no stale
  value rides on a pending or failed snapshot.
\<close>

definition strict :: "'a RemoteData \<Rightarrow> bool" where
  "strict rd \<longleftrightarrow> (hasValue (payload rd) \<longrightarrow> state rd = Success)"

definition isTerminal :: "RemoteDataState \<Rightarrow> bool" where
  "isTerminal s \<longleftrightarrow> s = Success \<or> s = Failed"

text \<open>
  The order of the snapshots of one fetch: pending snapshots, then at most one settled
  snapshot, and nothing after it.
\<close>

fun settles_once :: "'a RemoteData list \<Rightarrow> bool" where
  "settles_once [] = True"
| "settles_once (rd # rds) = (if isLoading rd then settles_once rds else rds = [])"

text \<open>The snapshots of a fetch that comes to an end: there is a last one, and it is settled.\<close>

definition settles :: "'a RemoteData list \<Rightarrow> bool" where
  "settles rds \<longleftrightarrow> rds \<noteq> [] \<and> \<not> isLoading (last rds)"

section \<open>Lemmas\<close>

lemmas rd_unfold [rd_defs] =
  isLoading_def hasFailed_def state_def wf_RemoteData_def strict_def isTerminal_def

lemma map_payload_sel [simp]:
  "isRequestPending (map_payload f rd) = isRequestPending rd"
  "isResponsePending (map_payload f rd) = isResponsePending rd"
  "hasSucceeded (map_payload f rd) = hasSucceeded rd"
  "error (map_payload f rd) = error rd"
  "payload (map_payload f rd) = map_option f (payload rd)"
  by (simp_all add: map_payload_def)

lemma map_payload_id [simp]: "map_payload (\<lambda>x. x) rd = rd"
  by (simp add: map_payload_def option.map_ident)

lemma map_payload_comp: "map_payload f (map_payload g rd) = map_payload (f \<circ> g) rd"
  by (simp add: map_payload_def option.map_comp)

lemma map_payload_state [simp]:
  "state (map_payload f rd) = state rd"
  "isLoading (map_payload f rd) = isLoading rd"
  "hasFailed (map_payload f rd) = hasFailed rd"
  by (simp_all add: rd_defs)

lemma map_payload_wf [simp]: "wf_RemoteData (map_payload f rd) = wf_RemoteData rd"
  by (simp add: wf_RemoteData_def)

lemma map_payload_strict [simp]: "strict (map_payload f rd) = strict rd"
  by (simp add: strict_def)

lemma wf_state_Success: "wf_RemoteData rd \<Longrightarrow> state rd = Success \<longleftrightarrow> hasSucceeded rd"
  by (auto simp: rd_defs)

lemma wf_state_Failed: "wf_RemoteData rd \<Longrightarrow> state rd = Failed \<longleftrightarrow> hasValue (error rd)"
  by (auto simp: rd_defs)

lemma wf_state_pending:
  "wf_RemoteData rd \<Longrightarrow> \<not> isTerminal (state rd) \<longleftrightarrow> isLoading rd"
  by (auto simp: rd_defs)

lemma wf_succeeded_no_error: "wf_RemoteData rd \<Longrightarrow> hasSucceeded rd \<Longrightarrow> error rd = None"
  by (auto simp: rd_defs hasValue_iff)

lemma wf_settled_failure:
  "wf_RemoteData rd \<Longrightarrow> \<not> isLoading rd \<Longrightarrow> \<not> hasSucceeded rd \<Longrightarrow> error rd \<noteq> None"
  by (auto simp: rd_defs hasValue_iff)

lemma state_cases:
  "state rd = RequestPending \<or> state rd = ResponsePending \<or> state rd = Success \<or> state rd = Failed"
  by (cases "state rd") simp_all

lemma isLoading_state: "isLoading rd \<longleftrightarrow> \<not> isTerminal (state rd)"
  by (auto simp: rd_defs)

lemma strict_loading_no_payload: "strict rd \<Longrightarrow> isLoading rd \<Longrightarrow> payload rd = None"
  by (cases "payload rd") (auto simp: rd_defs split: if_splits)

lemma strict_payload_settled: "strict rd \<Longrightarrow> payload rd = Some x \<Longrightarrow> \<not> isLoading rd"
  by (auto dest: strict_loading_no_payload)

lemma settles_once_single [simp]: "settles_once [rd]"
  by simp

lemma settles_once_Cons_loading: "isLoading rd \<Longrightarrow> settles_once (rd # rds) = settles_once rds"
  by simp

lemma settles_once_append_loading:
  "\<forall>rd \<in> set pre. isLoading rd \<Longrightarrow> settles_once (pre @ rds) = settles_once rds"
  by (induction pre) simp_all

lemma settles_once_iff:
  "settles_once rds \<longleftrightarrow> (\<forall>i. Suc i < length rds \<longrightarrow> isLoading (rds ! i))"
proof (induction rds)
  case Nil
  then show ?case by simp
next
  case (Cons rd rds)
  show ?case
  proof (cases "isLoading rd")
    case True
    have "(\<forall>i. Suc i < length (rd # rds) \<longrightarrow> isLoading ((rd # rds) ! i)) \<longleftrightarrow>
        (\<forall>i. Suc i < length rds \<longrightarrow> isLoading (rds ! i))"
      using True by (auto simp: nth_Cons split: nat.split)
    with True Cons.IH show ?thesis by simp
  next
    case False
    then have "(\<forall>i. Suc i < length (rd # rds) \<longrightarrow> isLoading ((rd # rds) ! i)) \<longleftrightarrow> rds = []"
      by (cases rds) (auto simp: nth_Cons split: nat.split)
    with False show ?thesis by simp
  qed
qed

lemma settles_once_map:
  "(\<And>rd. rd \<in> set rds \<Longrightarrow> isLoading (f rd) = isLoading rd) \<Longrightarrow>
   settles_once (map f rds) = settles_once rds"
  by (induction rds) simp_all

lemma settles_once_one_settled:
  "settles_once rds \<Longrightarrow> length (filter (\<lambda>rd. \<not> isLoading rd) rds) \<le> 1"
  by (induction rds) (auto split: if_splits)

lemma settlesE:
  assumes "settles (map snd es)"
  obtains pre s rd where "es = pre @ [(s, rd)]" and "\<not> isLoading rd"
proof -
  from assms have "es \<noteq> []" and "\<not> isLoading (snd (last es))"
    by (auto simp: settles_def last_map)
  then have "es = butlast es @ [(fst (last es), snd (last es))]" by simp
  from that [OF this \<open>\<not> isLoading (snd (last es))\<close>] show thesis .
qed

lemma settles_snoc [simp]: "settles (rds @ [rd]) \<longleftrightarrow> \<not> isLoading rd"
  by (simp add: settles_def)

lemma settles_append: "settles rds \<Longrightarrow> settles (pre @ rds)"
  by (simp add: settles_def)

lemma settles_map:
  "(\<And>rd. \<not> isLoading rd \<Longrightarrow> \<not> isLoading (f rd)) \<Longrightarrow> settles rds \<Longrightarrow> settles (map f rds)"
  by (simp add: settles_def last_map)

end
