(* ===== verification/Shared_Models.thy ===== *)
theory Shared_Models
  imports Remote_Data
begin

text \<open>
  The resource classes the service handles and the options of a list request, with the
  fields the service reads: the \<^verbatim>\<open>bitstreams\<close> link of a bundle
  (\<^verbatim>\<open>bundle._links.bitstreams.href\<close>), the name of a bitstream, the page size of a
  request. An item is never inspected by the service, so it is a type parameter of the
  service. \<open>Payload\<close> is the sum of the classes a wrapper handed out by the service
  can hold at run time: the source casts wrappers with \<^verbatim>\<open>as any\<close>, which leaves the
  object as it is, and the constructor of \<open>Payload\<close> records its class. \<open>typed\<close> is
  the way back: it reads a handed-out wrapper at the type a signature declares, and
  has no value when the payload is of another class. \<open>onList\<close> lifts a projection of
  list wrappers to handed-out wrappers: it is applied where the wrapper holds a list.
\<close>

section \<open>Resources\<close>

record HALLink =
  href :: string

record BundleLinks =
  self :: HALLink
  bitstreams :: HALLink

record Bundle =
  uuid :: string
  links :: BundleLinks

record Bitstream =
  name :: string
  sizeBytes :: int

section \<open>Request options\<close>

datatype SortDirection = ASC | DESC

record SortOptions =
  field :: string
  direction :: SortDirection

record FindListOptions =
  elementsPerPage :: "int option"
  currentPage :: "int option"
  sort_opt :: "SortOptions option"
  filters :: "(string \<times> string) list"

datatype FollowLinkConfig = FollowLinkConfig (relationName: string) (linksToFollow: "FollowLinkConfig list")

section \<open>Run-time classes of a payload\<close>

datatype Payload =
    BitstreamPayload Bitstream
  | ListPayload "Bitstream PaginatedList"
  | BundlePayload Bundle

definition as_any :: "('a \<Rightarrow> Payload) \<Rightarrow> 'a RemoteData \<Rightarrow> Payload RemoteData" where
  "as_any cls rd = map_payload cls rd"

fun isBitstream :: "Payload \<Rightarrow> bool" where
  "isBitstream (BitstreamPayload b) = True"
| "isBitstream p = False"

fun isList :: "Payload \<Rightarrow> bool" where
  "isList (ListPayload l) = True"
| "isList p = False"

section \<open>Reading a wrapper at its declared type\<close>

text \<open>
  The operations declare \<^verbatim>\<open>Observable<RemoteData<Bitstream>>\<close> or
  \<^verbatim>\<open>Observable<RemoteData<PaginatedList<Bitstream>>>\<close> as their result and cast what
  they return with \<^verbatim>\<open>as any\<close>, so the compiler does not check it. A consumer reads the
  payload at the declared type: \<open>typed view rd\<close> is the wrapper it then has in hand, and
  \<open>None\<close> when the payload is of another class than the declared one. A wrapper
  without payload reads at every type.
\<close>

fun theBitstream :: "Payload \<Rightarrow> Bitstream option" where
  "theBitstream (BitstreamPayload b) = Some b"
| "theBitstream p = None"

fun theList :: "Payload \<Rightarrow> Bitstream PaginatedList option" where
  "theList (ListPayload l) = Some l"
| "theList p = None"

fun theBundle :: "Payload \<Rightarrow> Bundle option" where
  "theBundle (BundlePayload b) = Some b"
| "theBundle p = None"

definition retype :: "'a RemoteData \<Rightarrow> 'b option \<Rightarrow> 'b RemoteData" where
  "retype rd x =
     \<lparr>isRequestPending = isRequestPending rd, isResponsePending = isResponsePending rd,
      hasSucceeded = hasSucceeded rd, error = error rd, payload = x\<rparr>"

definition typed :: "(Payload \<Rightarrow> 'a option) \<Rightarrow> Payload RemoteData \<Rightarrow> 'a RemoteData option" where
  "typed view rd =
     (case payload rd of
        None \<Rightarrow> Some (retype rd None)
      | Some p \<Rightarrow> map_option (\<lambda>x. retype rd (Some x)) (view p))"

text \<open>
  A projection of list wrappers, applied to a wrapper that was handed out as a list
  wrapper: the wrapper is read back as one and projected; a wrapper that does not read
  as a list wrapper is left as it is.
\<close>

definition onList ::
  "(Bitstream PaginatedList RemoteData \<Rightarrow> Payload RemoteData) \<Rightarrow> Payload RemoteData
     \<Rightarrow> Payload RemoteData" where
  "onList f out = (case typed theList out of Some rd \<Rightarrow> f rd | None \<Rightarrow> out)"

section \<open>Lemmas\<close>

lemma as_any_sel [simp]:
  "isRequestPending (as_any cls rd) = isRequestPending rd"
  "isResponsePending (as_any cls rd) = isResponsePending rd"
  "hasSucceeded (as_any cls rd) = hasSucceeded rd"
  "error (as_any cls rd) = error rd"
  "payload (as_any cls rd) = map_option cls (payload rd)"
  by (simp_all add: as_any_def)

lemma as_any_state [simp]:
  "state (as_any cls rd) = state rd"
  "isLoading (as_any cls rd) = isLoading rd"
  "hasFailed (as_any cls rd) = hasFailed rd"
  "wf_RemoteData (as_any cls rd) = wf_RemoteData rd"
  "strict (as_any cls rd) = strict rd"
  by (simp_all add: as_any_def)

lemma as_any_inj: "inj cls \<Longrightarrow> as_any cls rd = as_any cls rd' \<Longrightarrow> rd = rd'"
  by (cases rd, cases rd') (auto simp: as_any_def map_payload_def dest: injD [OF option.inj_map])

lemma isBitstream_iff: "isBitstream p \<longleftrightarrow> theBitstream p \<noteq> None"
  by (cases p) simp_all

lemma isList_iff: "isList p \<longleftrightarrow> theList p \<noteq> None"
  by (cases p) simp_all

lemma retype_sel [simp]:
  "isRequestPending (retype rd x) = isRequestPending rd"
  "isResponsePending (retype rd x) = isResponsePending rd"
  "hasSucceeded (retype rd x) = hasSucceeded rd"
  "error (retype rd x) = error rd"
  "payload (retype rd x) = x"
  by (simp_all add: retype_def)

lemma retype_state [simp]:
  "state (retype rd x) = state rd" "isLoading (retype rd x) = isLoading rd"
  by (simp_all add: rd_defs)

lemma retype_self [simp]: "retype rd (payload rd) = rd"
  by (simp add: retype_def)

lemma retype_as_any [simp]: "retype (as_any cls rd) x = retype rd x"
  by (simp add: retype_def)

text \<open>A cast read back at the class it was made from gives the wrapper back.\<close>

lemma typed_as_any:
  assumes "\<And>x. view (cls x) = Some x"
  shows "typed view (as_any cls rd) = Some rd"
proof (cases "payload rd")
  case None
  then have "retype rd None = rd" using retype_self [of rd] by simp
  with None show ?thesis by (simp add: typed_def)
next
  case (Some x)
  then have "retype rd (Some x) = rd" using retype_self [of rd] by simp
  with Some assms show ?thesis by (simp add: typed_def)
qed

text \<open>Read at another class, a cast has a view only when it carries no payload.\<close>

lemma typed_as_any_other:
  assumes "\<And>x. view (cls x) = None"
  shows "typed view (as_any cls rd) = (if payload rd = None then Some (retype rd None) else None)"
  using assms by (cases "payload rd") (simp_all add: typed_def)

lemmas typed_casts [simp] =
  typed_as_any [of theList ListPayload, simplified]
  typed_as_any [of theBundle BundlePayload, simplified]
  typed_as_any [of theBitstream BitstreamPayload, simplified]
  typed_as_any_other [of theBitstream ListPayload, simplified]
  typed_as_any_other [of theBitstream BundlePayload, simplified]
  typed_as_any_other [of theList BundlePayload, simplified]
  typed_as_any_other [of theList BitstreamPayload, simplified]

lemma typed_state: "typed view rd = Some rd' \<Longrightarrow> state rd' = state rd \<and> error rd' = error rd"
  by (auto simp: typed_def split: option.splits)

lemma typed_None_iff:
  "typed view rd = None \<longleftrightarrow> (\<exists>p. payload rd = Some p \<and> view p = None)"
  by (cases "payload rd") (simp_all add: typed_def)

lemma typed_Some_iff:
  "typed view rd \<noteq> None \<longleftrightarrow> (case payload rd of None \<Rightarrow> True | Some p \<Rightarrow> view p \<noteq> None)"
  by (simp add: typed_None_iff split: option.split)

lemma as_any_no_payload: "payload rd = None \<Longrightarrow> as_any cls (retype rd None) = as_any cls' rd"
  by (simp add: as_any_def map_payload_def retype_def)

lemma onList_as_any_List [simp]: "onList f (as_any ListPayload rd) = f rd"
  by (simp add: onList_def)

lemma onList_as_any_Bundle:
  "payload rd = None \<Longrightarrow> onList f (as_any BundlePayload rd) = f (retype rd None)"
  by (simp add: onList_def)

lemma onList_as_any_id [simp]: "onList (as_any ListPayload) (as_any ListPayload rd) = as_any ListPayload rd"
  by simp

end
