(* ===== verification/Rx_Observable.thy ===== *)
theory Rx_Observable
  imports Prelude
begin

text \<open>
  The reactive streams the service composes, in the marble-diagram reading of the
  stream library: an observable is cold, and subscribing to it in frame \<open>t\<close> yields a
  trace, the list of its emissions with the frame of each, in delivery order. The
  trace may depend on \<open>t\<close>, so that a collaborator whose answer depends on the state of
  the cache at subscription is covered. Only next-notifications are modelled: no
  operator used by the service changes a value on completion, and failures travel
  inside the emitted wrappers.

  The operators are the three the service uses: \<open>from_array\<close> (an array returned where
  an observable is expected: its elements, delivered in the frame of subscription),
  \<open>map_rx\<close> and \<open>switchMap\<close>. \<open>switchMap\<close> subscribes to the projected observable of
  each source emission and drops the previous one: of an inner observable subscribed
  in frame \<open>t\<close>, the emissions delivered synchronously (in frame \<open>t\<close>) and those
  before the frame of the next source emission get through (\<open>until_switch\<close>).
  What the operators do to the frames of a trace (cutting it at a frame, moving it in
  time, its length) is in \<open>Rx_Time\<close>.
\<close>

section \<open>Traces and observables\<close>

type_synonym 'a trace = "(time \<times> 'a) list"

type_synonym 'a Observable = "time \<Rightarrow> 'a trace"

definition wf_trace :: "time \<Rightarrow> 'a trace \<Rightarrow> bool" where
  "wf_trace t es \<longleftrightarrow> sorted (map fst es) \<and> (\<forall>e \<in> set es. t \<le> fst e)"

definition wf_Observable :: "'a Observable \<Rightarrow> bool" where
  "wf_Observable source \<longleftrightarrow> (\<forall>t. wf_trace t (source t))"

definition emitted :: "'a Observable \<Rightarrow> time \<Rightarrow> 'a list" where
  "emitted source t = map snd (source t)"

section \<open>Operators\<close>

definition pipe :: "'a \<Rightarrow> ('a \<Rightarrow> 'b) \<Rightarrow> 'b" where
  "pipe source operator = operator source"

definition from_array :: "'a list \<Rightarrow> 'a Observable" where
  "from_array xs = (\<lambda>t. map (Pair t) xs)"

definition map_rx :: "('a \<Rightarrow> 'b) \<Rightarrow> 'a Observable \<Rightarrow> 'b Observable" where
  "map_rx project source = (\<lambda>t. map (apsnd project) (source t))"

definition delivered :: "time \<Rightarrow> time \<Rightarrow> time \<times> 'b \<Rightarrow> bool" where
  "delivered t t' e \<longleftrightarrow> fst e = t \<or> fst e < t'"

definition until_switch :: "time \<Rightarrow> 'a trace \<Rightarrow> 'b trace \<Rightarrow> 'b trace" where
  "until_switch t rest inner =
     (case rest of [] \<Rightarrow> inner | e' # _ \<Rightarrow> takeWhile (delivered t (fst e')) inner)"

fun switch_trace :: "('a \<Rightarrow> 'b Observable) \<Rightarrow> 'a trace \<Rightarrow> 'b trace" where
  "switch_trace project [] = []"
| "switch_trace project ((t, x) # es) = until_switch t es (project x t) @ switch_trace project es"

definition switchMap :: "('a \<Rightarrow> 'b Observable) \<Rightarrow> 'a Observable \<Rightarrow> 'b Observable" where
  "switchMap project source = (\<lambda>t. switch_trace project (source t))"

section \<open>Unfoldings\<close>

lemmas rx_unfold [rx_defs] = pipe_def from_array_def map_rx_def switchMap_def emitted_def

lemma pipe_apply [simp]: "pipe source operator = operator source"
  by (simp add: pipe_def)

lemma from_array_apply [simp]: "from_array xs t = map (Pair t) xs"
  by (simp add: from_array_def)

lemma map_rx_apply [simp]: "map_rx project source t = map (apsnd project) (source t)"
  by (simp add: map_rx_def)

lemma switchMap_apply [simp]: "switchMap project source t = switch_trace project (source t)"
  by (simp add: switchMap_def)

lemma until_switch_Nil [simp]: "until_switch t [] inner = inner"
  by (simp add: until_switch_def)

lemma until_switch_Cons [simp]: "until_switch t (e' # es) inner = takeWhile (delivered t (fst e')) inner"
  by (simp add: until_switch_def)

lemma delivered_simps [simp]: "delivered t t' (u, y) \<longleftrightarrow> u = t \<or> u < t'"
  by (simp add: delivered_def)

section \<open>Well-formed traces\<close>

lemma wf_trace_Nil [simp]: "wf_trace t []"
  by (simp add: wf_trace_def)

lemma wf_trace_Cons:
  "wf_trace t ((s, x) # es) \<longleftrightarrow> t \<le> s \<and> wf_trace s es"
  by (auto simp: wf_trace_def)

lemma wf_trace_mono: "wf_trace s es \<Longrightarrow> t \<le> s \<Longrightarrow> wf_trace t es"
  by (auto simp: wf_trace_def)

lemma wf_trace_ge: "wf_trace t es \<Longrightarrow> e \<in> set es \<Longrightarrow> t \<le> fst e"
  by (simp add: wf_trace_def)

lemma wf_trace_append:
  "wf_trace t (xs @ ys) \<longleftrightarrow>
     wf_trace t xs \<and> wf_trace t ys \<and> (\<forall>x \<in> set xs. \<forall>y \<in> set ys. fst x \<le> fst y)"
  by (auto simp: wf_trace_def sorted_append)

lemma wf_trace_takeWhile: "wf_trace t es \<Longrightarrow> wf_trace t (takeWhile P es)"
  by (auto simp: wf_trace_def sorted_fst_takeWhile dest: set_takeWhileD)

lemma wf_trace_until_switch: "wf_trace t inner \<Longrightarrow> wf_trace t (until_switch s rest inner)"
  by (cases rest) (simp_all add: wf_trace_takeWhile)

lemma wf_trace_map_apsnd [simp]: "wf_trace t (map (apsnd f) es) = wf_trace t es"
  by (simp add: wf_trace_def comp_def)

lemma wf_ObservableD: "wf_Observable source \<Longrightarrow> wf_trace t (source t)"
  by (simp add: wf_Observable_def)

lemma wf_ObservableI: "(\<And>t. wf_trace t (source t)) \<Longrightarrow> wf_Observable source"
  by (simp add: wf_Observable_def)

text \<open>
  On a well-formed inner trace the emissions that get through are exactly those that
  satisfy \<open>delivered\<close>: cutting at the switch loses nothing that came before it.
\<close>

lemma takeWhile_delivered_filter:
  assumes "wf_trace t inner"
  shows "takeWhile (delivered t t') inner = filter (delivered t t') inner"
  using assms
proof (induction inner)
  case Nil
  then show ?case by simp
next
  case (Cons e inner)
  obtain u y where e: "e = (u, y)" by (cases e)
  from Cons.prems e have tu: "t \<le> u" and wf: "wf_trace u inner"
    by (simp_all add: wf_trace_Cons)
  show ?case
  proof (cases "delivered t t' e")
    case True
    from wf tu have "wf_trace t inner" by (rule wf_trace_mono)
    with True Cons.IH show ?thesis by simp
  next
    case False
    with e tu have "t < u" and "t' \<le> u" by auto
    with wf have "\<forall>e' \<in> set inner. \<not> delivered t t' e'"
      by (auto simp: delivered_def dest!: wf_trace_ge)
    with False show ?thesis by (simp add: filter_empty_conv)
  qed
qed

lemma set_until_switch:
  "wf_trace t inner \<Longrightarrow>
   set (until_switch t rest inner) = {e \<in> set inner. rest = [] \<or> delivered t (fst (hd rest)) e}"
  by (cases rest) (auto simp: takeWhile_delivered_filter)

lemma set_until_switch_subset: "set (until_switch t rest inner) \<subseteq> set inner"
  by (cases rest) (auto dest: set_takeWhileD)

lemma until_switch_delivered:
  "e \<in> set (until_switch t rest inner) \<Longrightarrow> rest = [] \<or> delivered t (fst (hd rest)) e"
  by (cases rest) (auto dest: set_takeWhileD)

section \<open>The operators preserve well-formedness\<close>

lemma wf_from_array [wf_intros, simp]: "wf_Observable (from_array xs)"
  by (simp add: wf_Observable_def wf_trace_def comp_def sorted_map_const)

lemma wf_map_rx [wf_intros]: "wf_Observable source \<Longrightarrow> wf_Observable (map_rx project source)"
  by (simp add: wf_Observable_def)

lemma switch_trace_ge:
  assumes "\<And>x s. wf_trace s (project x s)"
  shows "wf_trace t es \<Longrightarrow> e \<in> set (switch_trace project es) \<Longrightarrow> t \<le> fst e"
proof (induction es arbitrary: t)
  case Nil
  then show ?case by simp
next
  case (Cons a es)
  obtain s x where a: "a = (s, x)" by (cases a)
  from Cons.prems(1) a have ts: "t \<le> s" and wf: "wf_trace s es"
    by (simp_all add: wf_trace_Cons)
  from Cons.prems(2) a consider "e \<in> set (until_switch s es (project x s))" | "e \<in> set (switch_trace project es)"
    by auto
  then show ?case
  proof cases
    case 1
    then have "e \<in> set (project x s)" using set_until_switch_subset by blast
    with assms have "s \<le> fst e" by (rule wf_trace_ge)
    with ts show ?thesis by simp
  next
    case 2
    with wf have "s \<le> fst e" by (rule Cons.IH)
    with ts show ?thesis by simp
  qed
qed

lemma until_switch_le_switch_trace:
  assumes inner: "\<And>x s. wf_trace s (project x s)" and rest: "wf_trace s es"
    and e: "e \<in> set (until_switch s es inner_trace)"
    and e': "e' \<in> set (switch_trace project es)"
  shows "fst e \<le> fst e'"
proof (cases es)
  case Nil
  with e' show ?thesis by simp
next
  case next_emission: (Cons b es')
  obtain s' x' where es: "es = (s', x') # es'"
    using next_emission by (cases b) simp
  from rest have ss': "s \<le> s'" and "wf_trace s' es'"
    unfolding es by (simp_all add: wf_trace_Cons)
  then have "wf_trace s' es"
    unfolding es by (simp add: wf_trace_Cons)
  with inner have "s' \<le> fst e'"
    using e' by (rule switch_trace_ge)
  moreover from e have "fst e = s \<or> fst e < s'"
    unfolding es by (auto simp: delivered_def dest: set_takeWhileD)
  ultimately show ?thesis using ss' by auto
qed

lemma wf_switch_trace:
  assumes inner: "\<And>x s. wf_trace s (project x s)"
  shows "wf_trace t es \<Longrightarrow> wf_trace t (switch_trace project es)"
proof (induction es arbitrary: t)
  case Nil
  then show ?case by simp
next
  case (Cons a es)
  obtain s x where a: "a = (s, x)" by (cases a)
  from Cons.prems a have ts: "t \<le> s" and rest: "wf_trace s es"
    by (simp_all add: wf_trace_Cons)
  have head: "wf_trace s (until_switch s es (project x s))"
    by (rule wf_trace_until_switch) (rule inner)
  have tail: "wf_trace s (switch_trace project es)"
    using rest by (rule Cons.IH)
  have cross: "fst e \<le> fst e'"
    if "e \<in> set (until_switch s es (project x s))" "e' \<in> set (switch_trace project es)"
    for e e'
    using inner rest that by (rule until_switch_le_switch_trace)
  have "wf_trace s (until_switch s es (project x s) @ switch_trace project es)"
    unfolding wf_trace_append using head tail cross by blast
  then have "wf_trace s (switch_trace project (a # es))"
    by (simp add: a)
  then show ?case using ts by (rule wf_trace_mono)
qed

lemma wf_switchMap [wf_intros]:
  "wf_Observable source \<Longrightarrow> (\<And>x. wf_Observable (project x)) \<Longrightarrow>
   wf_Observable (switchMap project source)"
  by (simp add: wf_Observable_def wf_switch_trace)

section \<open>What switchMap delivers\<close>

text \<open>
  An emission of the result is an emission of the inner observable of some source
  emission that got through the until_switch at the next source emission, and conversely.
\<close>

lemma set_switch_trace:
  "e \<in> set (switch_trace project es) \<longleftrightarrow>
     (\<exists>pre s x post. es = pre @ (s, x) # post \<and> e \<in> set (until_switch s post (project x s)))"
proof (induction es)
  case Nil
  then show ?case by simp
next
  case (Cons a es)
  obtain s x where a: "a = (s, x)" by (cases a)
  have "(\<exists>pre s' x' post. a # es = pre @ (s', x') # post \<and> e \<in> set (until_switch s' post (project x' s')))
    \<longleftrightarrow> e \<in> set (until_switch s es (project x s)) \<or>
        (\<exists>pre s' x' post. es = pre @ (s', x') # post \<and> e \<in> set (until_switch s' post (project x' s')))"
    unfolding a by (auto simp: Cons_eq_append_conv) blast+
  with Cons.IH show ?case by (simp add: a)
qed

lemma switch_trace_origin:
  assumes "e \<in> set (switch_trace project es)"
  obtains pre s x post where
    "es = pre @ (s, x) # post" and "e \<in> set (project x s)" and
    "post = [] \<or> fst e = s \<or> fst e < fst (hd post)"
proof -
  from assms obtain pre s x post where
    es: "es = pre @ (s, x) # post" and e: "e \<in> set (until_switch s post (project x s))"
    unfolding set_switch_trace by blast
  from e have "e \<in> set (project x s)"
    using set_until_switch_subset by blast
  moreover from e have "post = [] \<or> fst e = s \<or> fst e < fst (hd post)"
    by (auto simp: delivered_def dest!: until_switch_delivered)
  ultimately show thesis using es that by blast
qed

lemma switch_trace_single [simp]: "switch_trace project [(s, x)] = project x s"
  by simp

lemma switch_trace_last:
  "set (project x s) \<subseteq> set (switch_trace project (es @ [(s, x)]))"
proof
  fix e
  assume "e \<in> set (project x s)"
  then have "es @ [(s, x)] = es @ (s, x) # [] \<and> e \<in> set (until_switch s [] (project x s))"
    by simp
  then show "e \<in> set (switch_trace project (es @ [(s, x)]))"
    unfolding set_switch_trace by blast
qed

lemma switch_trace_snoc:
  "\<exists>out. switch_trace project (es @ [(s, x)]) = out @ project x s"
proof (induction es)
  case Nil
  then show ?case by simp
next
  case (Cons a es)
  then obtain out where "switch_trace project (es @ [(s, x)]) = out @ project x s"
    by blast
  then show ?case by (cases a) simp
qed

lemma in_set_map_rx:
  "(u, y) \<in> set (map_rx f source t) \<longleftrightarrow> (\<exists>x. (u, x) \<in> set (source t) \<and> y = f x)"
  by force

lemma in_set_map_apsnd:
  "e \<in> set (map (apsnd f) es) \<longleftrightarrow> (\<exists>x. (fst e, x) \<in> set es \<and> snd e = f x)"
  by (cases e) force

text \<open>
  When every inner observable delivers one value in the frame of subscription, the
  result mirrors the source, frame by frame.
\<close>

lemma switch_trace_mirror:
  "(\<And>s x. (s, x) \<in> set es \<Longrightarrow> project x s = [(s, g x)]) \<Longrightarrow>
   switch_trace project es = map (apsnd g) es"
proof (induction es)
  case Nil
  then show ?case by simp
next
  case (Cons a es)
  obtain s x where a: "a = (s, x)" by (cases a)
  from Cons.prems a have "project x s = [(s, g x)]" by simp
  then have "until_switch s es (project x s) = [(s, g x)]" by (cases es) simp_all
  moreover from Cons have "switch_trace project es = map (apsnd g) es" by simp
  ultimately show ?case by (simp add: a)
qed

text \<open>Mapping the result is mapping every inner observable: the switch looks at frames only.\<close>

lemma switch_trace_sync_Cons:
  "project x s = [(s, y)] \<Longrightarrow>
   switch_trace project ((s, x) # es) = (s, y) # switch_trace project es"
  by (cases es) simp_all

lemma takeWhile_delivered_apsnd:
  "takeWhile (delivered t t') (map (apsnd f) es) = map (apsnd f) (takeWhile (delivered t t') es)"
  by (induction es) (auto simp: delivered_def)

lemma until_switch_map_apsnd: "until_switch t rest (map (apsnd f) inner) = map (apsnd f) (until_switch t rest inner)"
  by (cases rest) (simp_all add: takeWhile_delivered_apsnd)

lemma switch_trace_map:
  "map (apsnd f) (switch_trace project es) = switch_trace (\<lambda>x. map_rx f (project x)) es"
  by (induction es) (auto simp: until_switch_map_apsnd)

lemma map_rx_switchMap:
  "map_rx f (switchMap project source) = switchMap (\<lambda>x. map_rx f (project x)) source"
  by (rule ext) (simp add: switch_trace_map)

lemma map_rx_map_rx: "map_rx f (map_rx g source) = map_rx (f \<circ> g) source"
  by (rule ext) (simp add: comp_def apsnd_def map_prod_def split_def)

lemma map_rx_from_array: "map_rx f (from_array xs) = from_array (map f xs)"
  by (rule ext) simp

lemma switchMap_from_array_single: "switchMap project (from_array [x]) = project x"
  by (rule ext) simp

section \<open>The untimed view\<close>

text \<open>
  Forgetting the frames, the values delivered are, source emission by source emission,
  a prefix of the values of its inner observable, and all of them for the last one.
\<close>

lemma emitted_switch_trace:
  "\<exists>segs. map snd (switch_trace project es) = concat segs \<and>
     list_all2 (\<lambda>seg (s, x). prefix seg (map snd (project x s))) segs es \<and>
     (es \<noteq> [] \<longrightarrow> last segs = map snd (project (snd (last es)) (fst (last es))))"
proof (induction es)
  case Nil
  then show ?case by simp
next
  case (Cons a es)
  obtain s x where a: "a = (s, x)" by (cases a)
  from Cons.IH obtain segs where
    segs: "map snd (switch_trace project es) = concat segs"
      "list_all2 (\<lambda>seg (s, x). prefix seg (map snd (project x s))) segs es"
      "es \<noteq> [] \<longrightarrow> last segs = map snd (project (snd (last es)) (fst (last es)))"
    by blast
  let ?seg = "map snd (until_switch s es (project x s))"
  have "prefix ?seg (map snd (project x s))"
    by (cases es) (simp_all add: map_snd_takeWhile_prefix)
  moreover have "es = [] \<Longrightarrow> ?seg = map snd (project x s)"
    by simp
  moreover from segs(2) have "es \<noteq> [] \<Longrightarrow> segs \<noteq> []"
    by (auto simp: list_all2_Nil)
  ultimately show ?case
    using segs by (intro exI [of _ "?seg # segs"]) (auto simp: a)
qed

end
