(* ===== verification/Rx_Time.thy ===== *)
theory Rx_Time
  imports Rx_Observable
begin

text \<open>
  Streams in time: the part of a trace before a frame (\<open>earlier\<close>), a trace moved in
  time (\<open>shift\<close>), and the value a stream ends with (\<open>final\<close>). Switching is causal:
  what it delivers before a frame depends on what the source and the inner observables
  deliver before that frame only (\<open>earlier_switch_trace\<close>, \<open>switch_trace_causal\<close>). It
  keeps time invariance (\<open>switch_trace_shift\<close>), and it delivers no more than the
  inner observables do (\<open>length_switch_trace\<close>).
\<close>

section \<open>Cutting and moving a trace\<close>

text \<open>The part of a trace before frame \<open>T\<close>: what a subscriber has seen when \<open>T\<close> begins.\<close>

definition earlier :: "time \<Rightarrow> 'a trace \<Rightarrow> 'a trace" where
  "earlier T es = takeWhile (\<lambda>e. fst e < T) es"

text \<open>
  A trace moved \<open>d\<close> frames on, and an observable that does not care when it is
  subscribed to: later by \<open>d\<close>, it delivers the same values, later by \<open>d\<close>.
\<close>

definition shift :: "time \<Rightarrow> 'a trace \<Rightarrow> 'a trace" where
  "shift d es = map (apfst ((+) d)) es"

definition time_invariant :: "'a Observable \<Rightarrow> bool" where
  "time_invariant source \<longleftrightarrow> (\<forall>d t. source (d + t) = shift d (source t))"

text \<open>
  What a stream ends with, if it delivers anything: the value a caller gets who waits
  for the last notification.
\<close>

definition final :: "'a trace \<Rightarrow> (time \<times> 'a) option" where
  "final es = (if es = [] then None else Some (last es))"

section \<open>Causality\<close>

text \<open>
  On well-formed traces the part before \<open>T\<close> is a filter, so it distributes over what
  \<open>switchMap\<close> is made of.
\<close>

lemma earlier_Nil [simp]: "earlier T [] = []"
  by (simp add: earlier_def)

lemma earlier_Cons [simp]: "earlier T (e # es) = (if fst e < T then e # earlier T es else [])"
  by (simp add: earlier_def)

lemma earlier_prefix: "prefix (earlier T es) es"
  unfolding earlier_def by (rule takeWhile_prefix)

lemma set_earlier_subset: "set (earlier T es) \<subseteq> set es"
  unfolding earlier_def by (auto dest: set_takeWhileD)

lemma earlier_map_apsnd [simp]: "earlier T (map (apsnd f) es) = map (apsnd f) (earlier T es)"
  by (induction es) auto

lemma earlier_late: "wf_trace t es \<Longrightarrow> T \<le> t \<Longrightarrow> earlier T es = []"
  by (cases es) (auto simp: wf_trace_def)

lemma earlier_filter: "wf_trace t es \<Longrightarrow> earlier T es = filter (\<lambda>e. fst e < T) es"
proof (induction es arbitrary: t)
  case Nil
  then show ?case by simp
next
  case (Cons e es)
  obtain s x where e: "e = (s, x)" by (cases e)
  from Cons.prems e have wf: "wf_trace s es" by (simp add: wf_trace_Cons)
  show ?case
  proof (cases "s < T")
    case True
    with Cons.IH [OF wf] e show ?thesis by simp
  next
    case False
    with wf have "\<forall>e' \<in> set es. \<not> fst e' < T"
      by (auto dest!: wf_trace_ge)
    with False e show ?thesis by (simp add: filter_empty_conv)
  qed
qed

lemma wf_trace_earlier: "wf_trace t es \<Longrightarrow> wf_trace t (earlier T es)"
  unfolding earlier_def by (rule wf_trace_takeWhile)

lemma earlier_all: "\<forall>e \<in> set es. fst e < T \<Longrightarrow> earlier T es = es"
  by (simp add: earlier_def)

lemma earlier_idem [simp]: "earlier T (earlier T es) = earlier T es"
  by (simp add: earlier_def)

text \<open>Of a well-formed inner trace cut at a switch, the part before \<open>T\<close>.\<close>

lemma earlier_takeWhile_delivered:
  assumes "wf_trace s inner"
  shows "earlier T (takeWhile (delivered s s') inner) =
    (if s' < T then takeWhile (delivered s s') (earlier T inner) else earlier T inner)"
proof -
  let ?B = "\<lambda>e :: time \<times> 'a. fst e < T"
  from assms have "wf_trace s (takeWhile (delivered s s') inner)"
    by (rule wf_trace_takeWhile)
  then have "earlier T (takeWhile (delivered s s') inner) = filter ?B (takeWhile (delivered s s') inner)"
    by (rule earlier_filter)
  also from assms have "\<dots> = filter ?B (filter (delivered s s') inner)"
    by (simp only: takeWhile_delivered_filter)
  finally have lhs: "earlier T (takeWhile (delivered s s') inner) =
      filter (\<lambda>e. delivered s s' e \<and> fst e < T) inner"
    by simp
  show ?thesis
  proof (cases "s' < T")
    case True
    from assms have "wf_trace s (earlier T inner)" by (rule wf_trace_earlier)
    then have "takeWhile (delivered s s') (earlier T inner) = filter (delivered s s') (earlier T inner)"
      by (rule takeWhile_delivered_filter)
    also from assms have "\<dots> = filter (delivered s s') (filter ?B inner)"
      by (simp only: earlier_filter)
    finally have "takeWhile (delivered s s') (earlier T inner) =
        filter (\<lambda>e. fst e < T \<and> delivered s s' e) inner"
      by simp
    with lhs True show ?thesis by (simp add: conj_commute)
  next
    case False
    then have "filter (\<lambda>e. delivered s s' e \<and> fst e < T) inner = filter ?B inner"
      by (intro filter_cong) (auto simp: delivered_def)
    with lhs False earlier_filter [OF assms, of T] show ?thesis by simp
  qed
qed

lemma earlier_until_switch:
  assumes "wf_trace s inner" and "wf_trace s rest"
  shows "earlier T (until_switch s rest inner) = until_switch s (earlier T rest) (earlier T inner)"
proof (cases rest)
  case Nil
  then show ?thesis by simp
next
  case (Cons e rest')
  obtain s' x' where "e = (s', x')" by (cases e)
  with Cons assms(1) show ?thesis
    by (simp add: earlier_takeWhile_delivered)
qed

lemma earlier_append:
  assumes "wf_trace t (xs @ ys)"
  shows "earlier T (xs @ ys) = earlier T xs @ earlier T ys"
proof -
  from assms have "wf_trace t xs" and "wf_trace t ys" by (simp_all add: wf_trace_append)
  then have "earlier T xs = filter (\<lambda>e. fst e < T) xs" and "earlier T ys = filter (\<lambda>e. fst e < T) ys"
    by (simp_all only: earlier_filter)
  with earlier_filter [OF assms, of T] show ?thesis by simp
qed

text \<open>
  Cutting commutes with switching: what a switched stream delivers before \<open>T\<close> is
  what switching delivers of the source before \<open>T\<close> and the inner observables before
  \<open>T\<close>.
\<close>

lemma earlier_switch_trace:
  assumes inner: "\<And>x s. wf_trace s (project x s)"
  shows "wf_trace t es \<Longrightarrow>
    earlier T (switch_trace project es) = switch_trace (\<lambda>x s. earlier T (project x s)) (earlier T es)"
proof (induction es arbitrary: t)
  case Nil
  then show ?case by simp
next
  case (Cons a es)
  obtain s x where a: "a = (s, x)" by (cases a)
  from Cons.prems a have wf: "wf_trace s es" by (simp add: wf_trace_Cons)
  from Cons.prems a have all: "wf_trace s (a # es)" by (simp add: wf_trace_Cons)
  show ?case
  proof (cases "s < T")
    case True
    from inner all have "wf_trace s (switch_trace project (a # es))"
      by (rule wf_switch_trace)
    then have "earlier T (switch_trace project (a # es)) =
        earlier T (until_switch s es (project x s)) @ earlier T (switch_trace project es)"
      unfolding a by (simp add: earlier_append)
    with True Cons.IH [OF wf] inner wf show ?thesis
      by (simp add: a earlier_until_switch)
  next
    case False
    from inner all have "wf_trace s (switch_trace project (a # es))"
      by (rule wf_switch_trace)
    moreover from False have "T \<le> s" by simp
    ultimately have "earlier T (switch_trace project (a # es)) = []"
      by (rule earlier_late)
    with False show ?thesis by (simp add: a)
  qed
qed

lemma switch_trace_cong:
  "(\<And>s x. (s, x) \<in> set es \<Longrightarrow> project x s = project' x s) \<Longrightarrow>
   switch_trace project es = switch_trace project' es"
  by (induction es) auto

text \<open>
  A switched stream is causal: what it delivers before \<open>T\<close> depends on what the source
  and the inner observables deliver before \<open>T\<close> only.
\<close>

lemma switch_trace_causal:
  assumes "\<And>x s. wf_trace s (project x s)" and "\<And>x s. wf_trace s (project' x s)"
    and "wf_trace t es" and "wf_trace t es'"
    and "earlier T es = earlier T es'"
    and "\<And>s x. (s, x) \<in> set (earlier T es) \<Longrightarrow> earlier T (project x s) = earlier T (project' x s)"
  shows "earlier T (switch_trace project es) = earlier T (switch_trace project' es')"
proof -
  have "switch_trace (\<lambda>x s. earlier T (project x s)) (earlier T es) =
      switch_trace (\<lambda>x s. earlier T (project' x s)) (earlier T es)"
    by (rule switch_trace_cong) (rule assms(6))
  with assms(1-5) show ?thesis by (simp add: earlier_switch_trace)
qed

section \<open>Time invariance\<close>

text \<open>The operators refer to no clock: on time-invariant observables they are time-invariant.\<close>

lemma shift_Nil [simp]: "shift d [] = []"
  by (simp add: shift_def)

lemma shift_Cons [simp]: "shift d ((s, x) # es) = (d + s, x) # shift d es"
  by (simp add: shift_def)

lemma shift_append [simp]: "shift d (xs @ ys) = shift d xs @ shift d ys"
  by (simp add: shift_def)

lemma shift_map_apsnd: "shift d (map (apsnd f) es) = map (apsnd f) (shift d es)"
  by (induction es) auto

lemma takeWhile_delivered_shift:
  "takeWhile (delivered (d + s) (d + s')) (shift d inner) = shift d (takeWhile (delivered s s') inner)"
  by (induction inner) (auto simp: delivered_def)

lemma until_switch_shift:
  "until_switch (d + s) (shift d rest) (shift d inner) = shift d (until_switch s rest inner)"
  by (cases rest) (auto simp: takeWhile_delivered_shift)

lemma time_invariantD: "time_invariant source \<Longrightarrow> source (d + t) = shift d (source t)"
  by (simp add: time_invariant_def)

lemma switch_trace_shift:
  assumes "\<And>x. time_invariant (project x)"
  shows "switch_trace project (shift d es) = shift d (switch_trace project es)"
proof (induction es)
  case Nil
  then show ?case by simp
next
  case (Cons a es)
  obtain s x where "a = (s, x)" by (cases a)
  with Cons assms show ?case
    by (simp add: time_invariantD until_switch_shift)
qed

lemma time_invariant_from_array [simp]: "time_invariant (from_array xs)"
  by (simp add: time_invariant_def shift_def comp_def)

lemma time_invariant_map_rx: "time_invariant source \<Longrightarrow> time_invariant (map_rx f source)"
  by (simp add: time_invariant_def shift_map_apsnd)

lemma time_invariant_switchMap:
  "time_invariant source \<Longrightarrow> (\<And>x. time_invariant (project x)) \<Longrightarrow>
   time_invariant (switchMap project source)"
  by (simp add: time_invariant_def switch_trace_shift)

section \<open>The length of a switched stream\<close>

text \<open>A switched stream is no longer than what its inner observables deliver together.\<close>

lemma length_until_switch: "length (until_switch s rest inner) \<le> length inner"
  by (cases rest) (simp_all add: length_takeWhile_le)

lemma length_switch_trace:
  "length (switch_trace project es) \<le> (\<Sum>e \<leftarrow> es. length (project (snd e) (fst e)))"
proof (induction es)
  case Nil
  then show ?case by simp
next
  case (Cons a es)
  obtain s x where "a = (s, x)" by (cases a)
  with Cons length_until_switch [of s es "project x s"] show ?case by simp
qed

section \<open>The end of a stream\<close>

text \<open>A switched stream ends as the inner observable of the last source emission does.\<close>

lemma final_Nil [simp]: "final [] = None"
  by (simp add: final_def)

lemma final_Cons [simp]: "final (e # es) = (if es = [] then Some e else final es)"
  by (simp add: final_def)

lemma final_snoc [simp]: "final (es @ [e]) = Some e"
  by (simp add: final_def)

lemma final_eq_Some_iff: "final es = Some e \<longleftrightarrow> (\<exists>pre. es = pre @ [e])"
  by (cases es rule: rev_cases) simp_all

lemma final_eq_None_iff [simp]: "final es = None \<longleftrightarrow> es = []"
  by (simp add: final_def)

lemma final_append: "final ys = Some e \<Longrightarrow> final (xs @ ys) = Some e"
  by (auto simp: final_eq_Some_iff simp flip: append_assoc)

lemma final_map_apsnd [simp]: "final (map (apsnd f) es) = map_option (apsnd f) (final es)"
  by (cases es rule: rev_cases) simp_all

lemma final_from_array [simp]: "final (from_array [x] t) = Some (t, x)"
  by (simp add: final_def)

lemma switch_trace_final:
  assumes "final es = Some (s, x)" and "final (project x s) = Some r"
  shows "final (switch_trace project es) = Some r"
proof -
  from assms(1) obtain pre where "es = pre @ [(s, x)]"
    by (auto simp: final_eq_Some_iff)
  moreover obtain out where "switch_trace project (pre @ [(s, x)]) = out @ project x s"
    using switch_trace_snoc [of project pre s x] by blast
  ultimately show ?thesis using assms(2) by (simp add: final_append)
qed

end
