(* ===== verification/Service_Base.thy ===== *)
theory Service_Base
  imports Shared_Models Rx_Time
begin

text \<open>
  What the three composed operations of the bitstream data service share: the service
  and its collaborators as records of functions, \<open>findAllByBundle\<close>, the wrapper and
  the options literals the operations build, and the assumptions on the collaborators
  that properties name, the pagination contract of a list request among them
  (\<open>paged_by\<close>), and what relates two services or two frames of subscription
  (\<open>agree_earlier\<close>, \<open>time_invariant_service\<close>). The operations all have the shape
  \<^verbatim>\<open>bundles.pipe(switchMap(bundleRD => payload ? inner(payload) : [bundleRD as any]))\<close>;
  the lemmas of the last section are stated for any callback of that shape
  (\<open>via_bundle\<close>), and each operation discharges them for its own.
\<close>

section \<open>The service and its collaborators\<close>

record 'item BundleDataService =
  findByItemAndName :: "'item \<Rightarrow> string \<Rightarrow> Bundle RemoteData Observable"

record 'item BitstreamDataService =
  bundleService :: "'item BundleDataService"
  findAllByHref ::
    "string \<Rightarrow> FindListOptions option \<Rightarrow> FollowLinkConfig list
       \<Rightarrow> Bitstream PaginatedList RemoteData Observable"

definition linkPath :: string where
  "linkPath = ''bitstreams''"

section \<open>Shared operations\<close>

definition findAllByBundle ::
  "'item BitstreamDataService \<Rightarrow> Bundle \<Rightarrow> FindListOptions option \<Rightarrow> FollowLinkConfig list
     \<Rightarrow> Bitstream PaginatedList RemoteData Observable" where
  "findAllByBundle this bundle options links_to_follow =
     findAllByHref this (href (bitstreams (links bundle))) options links_to_follow"

text \<open>An options literal that sets the page size only: \<^verbatim>\<open>{ elementsPerPage: n }\<close>.\<close>

definition pageSizeOnly :: "int \<Rightarrow> FindListOptions" where
  "pageSizeOnly n = \<lparr>elementsPerPage = Some n, currentPage = None, sort_opt = None, filters = []\<rparr>"

text \<open>\<^verbatim>\<open>new RemoteData(false, false, true, undefined, x)\<close>\<close>

definition succeededWith :: "Bitstream option \<Rightarrow> Payload RemoteData" where
  "succeededWith x =
     \<lparr>isRequestPending = False, isResponsePending = False, hasSucceeded = True,
      error = None, payload = map_option BitstreamPayload x\<rparr>"

text \<open>\<^verbatim>\<open>bitstreamRD.payload.page\<close>, read once the payload is known to be there.\<close>

definition pageOf :: "'a PaginatedList RemoteData \<Rightarrow> 'a list option" where
  "pageOf rd = Option.bind (payload rd) page"

section \<open>Assumptions on the collaborators\<close>

text \<open>
  The collaborators deliver well-formed traces (\<open>wf_service\<close>). Where a property needs
  more, it names it: every wrapper they deliver is well-formed (\<open>wf_wrappers\<close>), or
  strict (\<open>strict_wrappers\<close>), or every list they deliver has a page
  (\<open>paged_lists\<close>), or the wrappers of each request come in the order of one fetch,
  pending ones and then at most one settled one (\<open>settling\<close>).
\<close>

definition wf_service :: "'item BitstreamDataService \<Rightarrow> bool" where
  "wf_service this \<longleftrightarrow>
     (\<forall>item bundleName. wf_Observable (findByItemAndName (bundleService this) item bundleName)) \<and>
     (\<forall>h options ls. wf_Observable (findAllByHref this h options ls))"

definition every_wrapper ::
  "(Bundle RemoteData \<Rightarrow> bool) \<Rightarrow> (Bitstream PaginatedList RemoteData \<Rightarrow> bool)
     \<Rightarrow> 'item BitstreamDataService \<Rightarrow> bool" where
  "every_wrapper P Q this \<longleftrightarrow>
     (\<forall>item bundleName t. \<forall>e \<in> set (findByItemAndName (bundleService this) item bundleName t).
        P (snd e)) \<and>
     (\<forall>h options ls t. \<forall>e \<in> set (findAllByHref this h options ls t). Q (snd e))"

definition wf_wrappers :: "'item BitstreamDataService \<Rightarrow> bool" where
  "wf_wrappers this = every_wrapper wf_RemoteData wf_RemoteData this"

definition strict_wrappers :: "'item BitstreamDataService \<Rightarrow> bool" where
  "strict_wrappers this = every_wrapper strict strict this"

definition settling :: "'item BitstreamDataService \<Rightarrow> bool" where
  "settling this \<longleftrightarrow>
     (\<forall>item bundleName t.
        settles_once (emitted (findByItemAndName (bundleService this) item bundleName) t)) \<and>
     (\<forall>h options ls t. settles_once (emitted (findAllByHref this h options ls) t))"

definition paged_lists :: "'item BitstreamDataService \<Rightarrow> bool" where
  "paged_lists this =
     every_wrapper (\<lambda>_. True) (\<lambda>rd. hasValue (payload rd) \<longrightarrow> hasValue (pageOf rd)) this"

text \<open>Every request to a collaborator is answered in the end: its fetch settles.\<close>

definition answering :: "'item BitstreamDataService \<Rightarrow> bool" where
  "answering this \<longleftrightarrow>
     (\<forall>item bundleName t.
        settles (emitted (findByItemAndName (bundleService this) item bundleName) t)) \<and>
     (\<forall>h options ls t. settles (emitted (findAllByHref this h options ls) t))"

text \<open>
  The collaborator paginates: behind every link there is a collection, \<open>contents h\<close>,
  in the order of the server, and a succeeded answer to a request for \<open>n\<close> elements per
  page (and nothing else) carries its first \<open>n\<close> elements.
\<close>

definition paged_by :: "'item BitstreamDataService \<Rightarrow> (string \<Rightarrow> Bitstream list) \<Rightarrow> bool" where
  "paged_by this contents \<longleftrightarrow>
     (\<forall>h n ls t. \<forall>e \<in> set (findAllByHref this h (Some (pageSizeOnly n)) ls t).
        state (snd e) = Success \<longrightarrow> pageOf (snd e) = Some (take (nat n) (contents h)))"

text \<open>The collaborators answer a request made later as they answer it now, later.\<close>

definition time_invariant_service :: "'item BitstreamDataService \<Rightarrow> bool" where
  "time_invariant_service this \<longleftrightarrow>
     (\<forall>item bundleName. time_invariant (findByItemAndName (bundleService this) item bundleName)) \<and>
     (\<forall>h options ls. time_invariant (findAllByHref this h options ls))"

text \<open>
  Two services agree before frame \<open>T\<close> on a request for the bitstreams of a bundle of
  an item, made in frame \<open>t\<close>: their lookups deliver the same wrappers before \<open>T\<close>,
  and for each bundle among these, the list requests made when it arrived are answered
  alike before \<open>T\<close>. What the two do from \<open>T\<close> on is left open.
\<close>

definition agree_earlier ::
  "time \<Rightarrow> 'item BitstreamDataService \<Rightarrow> 'item BitstreamDataService \<Rightarrow> 'item \<Rightarrow> string
     \<Rightarrow> FindListOptions option \<Rightarrow> FollowLinkConfig list \<Rightarrow> time \<Rightarrow> bool" where
  "agree_earlier T this that item bundleName options ls t \<longleftrightarrow>
     earlier T (findByItemAndName (bundleService this) item bundleName t)
       = earlier T (findByItemAndName (bundleService that) item bundleName t) \<and>
     list_all (\<lambda>(s, rd). case payload rd of
          None \<Rightarrow> True
        | Some b \<Rightarrow>
            earlier T (findAllByHref this (href (bitstreams (links b))) options ls s)
              = earlier T (findAllByHref that (href (bitstreams (links b))) options ls s))
       (earlier T (findByItemAndName (bundleService this) item bundleName t))"

section \<open>The shape of the three callbacks\<close>

definition via_bundle ::
  "(Bundle \<Rightarrow> Payload RemoteData Observable)
     \<Rightarrow> (Bundle RemoteData \<Rightarrow> Payload RemoteData Observable) \<Rightarrow> bool" where
  "via_bundle inner project \<longleftrightarrow>
     (\<forall>rd. project rd =
        (case payload rd of
           Some bundle \<Rightarrow> inner bundle
         | None \<Rightarrow> from_array [as_any BundlePayload rd]))"

section \<open>Lemmas on the shared operations\<close>

lemma succeededWith_sel [simp]:
  "isRequestPending (succeededWith x) = False"
  "isResponsePending (succeededWith x) = False"
  "hasSucceeded (succeededWith x) = True"
  "error (succeededWith x) = None"
  "payload (succeededWith x) = map_option BitstreamPayload x"
  by (simp_all add: succeededWith_def)

lemma succeededWith_state [simp]:
  "state (succeededWith x) = Success" "\<not> isLoading (succeededWith x)"
  by (simp_all add: state_def isLoading_def)

lemma succeededWith_wf [simp]: "wf_RemoteData (succeededWith x)"
  by (simp add: rd_defs)

lemma succeededWith_strict [simp]: "strict (succeededWith x)"
  by (simp add: strict_def)

lemma succeededWith_inject [simp]: "succeededWith x = succeededWith y \<longleftrightarrow> x = y"
  by (cases x; cases y) (simp_all add: succeededWith_def)

lemma pageOf_Some_iff:
  "pageOf rd = Some elements \<longleftrightarrow> (\<exists>l. payload rd = Some l \<and> page l = Some elements)"
  by (cases "payload rd") (simp_all add: pageOf_def)

lemma pageOf_None_iff:
  "pageOf rd = None \<longleftrightarrow> (\<forall>l. payload rd = Some l \<longrightarrow> page l = None)"
  by (cases "payload rd") (simp_all add: pageOf_def)

lemma pageOf_Some_hasValue [simp]: "pageOf rd = Some elements \<Longrightarrow> hasValue (payload rd)"
  by (cases "payload rd") (simp_all add: pageOf_def)

lemma strict_page_settled:
  "strict rd \<Longrightarrow> pageOf rd = Some elements \<Longrightarrow> state rd = Success \<and> \<not> isLoading rd"
  by (auto simp: pageOf_Some_iff strict_def isLoading_state isTerminal_def)

lemma pageOf_no_payload [simp]: "payload rd = None \<Longrightarrow> pageOf rd = None"
  by (simp add: pageOf_def)

lemma wf_serviceD:
  "wf_service this \<Longrightarrow> wf_Observable (findByItemAndName (bundleService this) item bundleName)"
  "wf_service this \<Longrightarrow> wf_Observable (findAllByHref this h options ls)"
  by (simp_all add: wf_service_def)

lemma wf_findAllByBundle [wf_intros]:
  "wf_service this \<Longrightarrow> wf_Observable (findAllByBundle this bundle options ls)"
  by (simp add: findAllByBundle_def wf_serviceD)

lemma every_wrapperD:
  "every_wrapper P Q this \<Longrightarrow> e \<in> set (findByItemAndName (bundleService this) item n t) \<Longrightarrow> P (snd e)"
  "every_wrapper P Q this \<Longrightarrow> e' \<in> set (findAllByHref this h options ls t) \<Longrightarrow> Q (snd e')"
  by (auto simp: every_wrapper_def)

lemma every_wrapper_True [simp]: "every_wrapper (\<lambda>_. True) (\<lambda>_. True) this"
  by (simp add: every_wrapper_def)

lemma every_wrapper_findAllByBundle:
  "every_wrapper P Q this \<Longrightarrow> e \<in> set (findAllByBundle this bundle options ls t) \<Longrightarrow> Q (snd e)"
  by (simp add: findAllByBundle_def every_wrapperD)

section \<open>Lemmas for callbacks that go via the bundle\<close>

lemma via_bundleI:
  "(\<And>rd bundle. payload rd = Some bundle \<Longrightarrow> project rd = inner bundle) \<Longrightarrow>
   (\<And>rd. payload rd = None \<Longrightarrow> project rd = from_array [as_any BundlePayload rd]) \<Longrightarrow>
   via_bundle inner project"
  by (auto simp: via_bundle_def split: option.split)

lemma via_bundle_payload:
  "via_bundle inner project \<Longrightarrow> payload rd = Some bundle \<Longrightarrow> project rd = inner bundle"
  by (simp add: via_bundle_def)

lemma via_bundle_no_payload:
  "via_bundle inner project \<Longrightarrow> payload rd = None \<Longrightarrow>
   project rd = from_array [as_any BundlePayload rd]"
  by (simp add: via_bundle_def)

text \<open>
  Every emission of the result stems from the bundle wrapper that was the latest when
  it was delivered: it is that wrapper itself when it has no payload, and an emission
  of the inner observable of its bundle otherwise.
\<close>

lemma via_bundle_origin:
  assumes "via_bundle inner project" and "e \<in> set (switch_trace project es)"
  obtains pre s rd post where
    "es = pre @ (s, rd) # post" and
    "post = [] \<or> fst e = s \<or> fst e < fst (hd post)" and
    "case payload rd of
       Some bundle \<Rightarrow> e \<in> set (inner bundle s)
     | None \<Rightarrow> e = (s, as_any BundlePayload rd)"
proof -
  from assms(2) obtain pre s rd post where
    es: "es = pre @ (s, rd) # post" and e: "e \<in> set (project rd s)" and
    latest: "post = [] \<or> fst e = s \<or> fst e < fst (hd post)"
    by (rule switch_trace_origin)
  from assms(1) e have
    "case payload rd of
       Some bundle \<Rightarrow> e \<in> set (inner bundle s)
     | None \<Rightarrow> e = (s, as_any BundlePayload rd)"
    by (auto simp: via_bundle_def split: option.split)
  with es latest show thesis by (rule that)
qed

lemma via_bundle_mirror:
  assumes "via_bundle inner project" and "\<And>s rd. (s, rd) \<in> set es \<Longrightarrow> payload rd = None"
  shows "switch_trace project es = map (apsnd (as_any BundlePayload)) es"
proof (rule switch_trace_mirror)
  fix s rd
  assume "(s, rd) \<in> set es"
  then have "payload rd = None" by (rule assms(2))
  with assms(1) show "project rd s = [(s, as_any BundlePayload rd)]"
    by (simp add: via_bundle_no_payload)
qed

lemma via_bundle_wf:
  assumes "via_bundle inner project" and "\<And>bundle. wf_Observable (inner bundle)"
  shows "wf_Observable (project rd)"
  using assms by (cases "payload rd") (simp_all add: via_bundle_def)

text \<open>What comes after the last wrapper of the lookup is delivered in full.\<close>

lemma via_bundle_final:
  assumes "via_bundle inner project" and "payload rd = Some bundle"
  shows "\<exists>out. switch_trace project (pre @ [(s, rd)]) = out @ inner bundle s"
  using switch_trace_snoc [of project pre s rd] assms by (simp add: via_bundle_payload)

text \<open>
  When the lookup and every inner observable deliver the snapshots of one fetch in
  order, and the lookup wrappers are strict, so does the result: a pending lookup
  wrapper has no payload and is handed on, still pending, and only the last lookup
  wrapper can start an inner observable.
\<close>

lemma via_bundle_settles_once:
  assumes "via_bundle inner project"
    and "\<And>b s. settles_once (map snd (inner b s))"
  shows "settles_once (map snd es) \<Longrightarrow> (\<And>s rd. (s, rd) \<in> set es \<Longrightarrow> strict rd) \<Longrightarrow>
    settles_once (map snd (switch_trace project es))"
proof (induction es)
  case Nil
  then show ?case by simp
next
  case (Cons a es)
  obtain s rd where a: "a = (s, rd)" by (cases a)
  have strict_rd: "strict rd"
    using Cons.prems(2) [of s rd] a by simp
  show ?case
  proof (cases "isLoading rd")
    case True
    with strict_rd have "payload rd = None" by (rule strict_loading_no_payload)
    with assms(1) have "project rd s = [(s, as_any BundlePayload rd)]"
      by (simp add: via_bundle_no_payload)
    then have "switch_trace project (a # es) = (s, as_any BundlePayload rd) # switch_trace project es"
      unfolding a by (rule switch_trace_sync_Cons)
    moreover have "settles_once (map snd (switch_trace project es))"
    proof (rule Cons.IH)
      from Cons.prems(1) True a show "settles_once (map snd es)" by simp
      show "strict rd'" if "(s', rd') \<in> set es" for s' rd'
        using that Cons.prems(2) [of s' rd'] by simp
    qed
    ultimately show ?thesis using True by simp
  next
    case False
    with Cons.prems(1) a have "es = []" by simp
    with assms a show ?thesis
      by (cases "payload rd") (simp_all add: via_bundle_payload via_bundle_no_payload)
  qed
qed

text \<open>
  Conversely, an emission of the inner observable of a bundle is delivered when it
  comes while the wrapper that carried the bundle is the latest of the lookup.
\<close>

lemma via_bundle_delivers:
  assumes "via_bundle inner project" and "es = pre @ (s, rd) # post"
    and "payload rd = Some b" and "wf_trace s (inner b s)" and "e \<in> set (inner b s)"
    and "post = [] \<or> fst e = s \<or> fst e < fst (hd post)"
  shows "e \<in> set (switch_trace project es)"
proof -
  from assms(1,3) have "project rd s = inner b s"
    by (simp add: via_bundle_payload)
  with assms(4,5,6) have "e \<in> set (until_switch s post (project rd s))"
    by (auto simp: set_until_switch delivered_def)
  with assms(2) show ?thesis
    unfolding set_switch_trace by blast
qed

lemma strict_wrappersD:
  "strict_wrappers this \<Longrightarrow> (s, rd) \<in> set (findByItemAndName (bundleService this) item n t) \<Longrightarrow>
   strict rd"
  "strict_wrappers this \<Longrightarrow> (s, rd') \<in> set (findAllByHref this h options ls t) \<Longrightarrow> strict rd'"
  unfolding strict_wrappers_def by (auto dest: every_wrapperD)

lemma wf_wrappersD:
  "wf_wrappers this \<Longrightarrow> (s, rd) \<in> set (findByItemAndName (bundleService this) item n t) \<Longrightarrow>
   wf_RemoteData rd"
  "wf_wrappers this \<Longrightarrow> (s, rd') \<in> set (findAllByHref this h options ls t) \<Longrightarrow>
   wf_RemoteData rd'"
  unfolding wf_wrappers_def by (auto dest: every_wrapperD)

lemma paged_listsD:
  "paged_lists this \<Longrightarrow> (s, rd) \<in> set (findAllByHref this h options ls t) \<Longrightarrow>
   payload rd = Some l \<Longrightarrow> pageOf rd \<noteq> None"
  unfolding paged_lists_def by (auto simp: hasValue_iff dest: every_wrapperD)

lemma settlingD:
  "settling this \<Longrightarrow> settles_once (map snd (findByItemAndName (bundleService this) item n t))"
  "settling this \<Longrightarrow> settles_once (map snd (findAllByHref this h options ls t))"
  by (simp_all add: settling_def emitted_def)

lemma paged_by_member:
  "paged_by this contents \<Longrightarrow> (u, rd) \<in> set (findAllByHref this h (Some (pageSizeOnly n)) ls t) \<Longrightarrow>
   state rd = Success \<Longrightarrow> pageOf rd = Some (take (nat n) (contents h))"
  by (fastforce simp: paged_by_def)

lemma paged_byD:
  assumes "paged_by this contents"
    and "findAllByHref this h (Some (pageSizeOnly n)) ls t = pre @ (u, rd) # post"
    and "state rd = Success"
  shows "pageOf rd = Some (take (nat n) (contents h))"
proof -
  have "(u, rd) \<in> set (findAllByHref this h (Some (pageSizeOnly n)) ls t)"
    unfolding assms(2) by simp
  with assms(1) show ?thesis using assms(3) by (rule paged_by_member)
qed

lemma agree_earlierD:
  assumes "agree_earlier T this that item bundleName options ls t"
  shows "earlier T (findByItemAndName (bundleService this) item bundleName t)
      = earlier T (findByItemAndName (bundleService that) item bundleName t)"
    and "(s, rd) \<in> set (earlier T (findByItemAndName (bundleService this) item bundleName t)) \<Longrightarrow>
      payload rd = Some b \<Longrightarrow>
      earlier T (findAllByHref this (href (bitstreams (links b))) options ls s)
        = earlier T (findAllByHref that (href (bitstreams (links b))) options ls s)"
proof -
  from assms show "earlier T (findByItemAndName (bundleService this) item bundleName t)
      = earlier T (findByItemAndName (bundleService that) item bundleName t)"
    by (simp add: agree_earlier_def)
  assume "(s, rd) \<in> set (earlier T (findByItemAndName (bundleService this) item bundleName t))"
    and "payload rd = Some b"
  moreover from assms have
    "\<forall>e \<in> set (earlier T (findByItemAndName (bundleService this) item bundleName t)).
       case payload (snd e) of
         None \<Rightarrow> True
       | Some b \<Rightarrow>
           earlier T (findAllByHref this (href (bitstreams (links b))) options ls (fst e))
             = earlier T (findAllByHref that (href (bitstreams (links b))) options ls (fst e))"
    unfolding agree_earlier_def list_all_iff by (simp add: split_beta)
  ultimately show "earlier T (findAllByHref this (href (bitstreams (links b))) options ls s)
      = earlier T (findAllByHref that (href (bitstreams (links b))) options ls s)"
    by fastforce
qed

lemma agree_earlier_refl [simp]: "agree_earlier T this this item bundleName options ls t"
  by (auto simp: agree_earlier_def list_all_iff split: option.split)

lemma answeringD:
  "answering this \<Longrightarrow> settles (map snd (findByItemAndName (bundleService this) item n t))"
  "answering this \<Longrightarrow> settles (map snd (findAllByHref this h options ls t))"
  by (simp_all add: answering_def emitted_def)

lemma time_invariant_serviceD:
  "time_invariant_service this \<Longrightarrow>
   time_invariant (findByItemAndName (bundleService this) item bundleName)"
  "time_invariant_service this \<Longrightarrow> time_invariant (findAllByHref this h options ls)"
  by (simp_all add: time_invariant_service_def)

end
