(* ===== verification/Via_Request.thy ===== *)
theory Via_Request
  imports Service_Base "HOL-Library.Monad_Syntax"
begin

text \<open>
  The interface between the three composed operations and the stream lemmas. Each
  operation switches, for a lookup wrapper with a bundle, to a list request on the
  bitstreams link of the bundle, made with some options and links to follow, and
  projects its answers with some function \<open>f\<close>: \<open>firstOfPage\<close> with page size one for
  \<^verbatim>\<open>getThumbnailFor\<close>, \<open>matchingOfPage\<close> with the largest page size for
  \<^verbatim>\<open>getMatchingThumbnail\<close>, the cast alone with the caller's options for
  \<^verbatim>\<open>findAllByItemAndBundleName\<close>. \<open>via_request\<close> says that a callback has this shape.
  The lemmas of this theory are what the operations' properties are instances of: the
  operation theories show \<open>via_request\<close> for their callback and a fact or two on
  their projection. Two sections relate callbacks to each other: the same
  callback on two services that agree before a frame (\<open>via_request_causal\<close>), and a
  projecting callback to the plain one on the same service (\<open>via_request_factor\<close>).
  The last section relates the stream to \<open>resolve\<close>, the result a caller gets who
  waits for the end of each stream in turn.
\<close>

section \<open>The interface\<close>

definition via_request ::
  "'item BitstreamDataService \<Rightarrow> (Bitstream PaginatedList RemoteData \<Rightarrow> Payload RemoteData)
     \<Rightarrow> FindListOptions option \<Rightarrow> FollowLinkConfig list
     \<Rightarrow> (Bundle RemoteData \<Rightarrow> Payload RemoteData Observable) \<Rightarrow> bool" where
  "via_request this f options ls project \<longleftrightarrow>
     via_bundle
       (\<lambda>b. map_rx f (findAllByHref this (href (bitstreams (links b))) options ls)) project"

text \<open>
  The same operation for a caller who waits: for the last wrapper of the lookup, and,
  when it carries a bundle, for the last answer to the list request made in the frame
  in which that wrapper arrived, which is then projected. There is no result when a
  stream to wait for delivers nothing.
\<close>

definition resolve ::
  "'item BitstreamDataService \<Rightarrow> (Bitstream PaginatedList RemoteData \<Rightarrow> Payload RemoteData)
     \<Rightarrow> FindListOptions option \<Rightarrow> FollowLinkConfig list \<Rightarrow> 'item \<Rightarrow> string
     \<Rightarrow> time \<Rightarrow> (time \<times> Payload RemoteData) option" where
  "resolve this f options ls item bundleName t = do {
     (s, bundleRD) \<leftarrow> final (findByItemAndName (bundleService this) item bundleName t);
     case payload bundleRD of
       None \<Rightarrow> Some (s, as_any BundlePayload bundleRD)
     | Some b \<Rightarrow> do {
         (u, answer) \<leftarrow> final (findAllByBundle this b options ls s);
         Some (u, f answer)
       }
   }"

lemma via_requestI:
  assumes "via_bundle inner project"
    and "\<And>b. inner b = map_rx f (findAllByHref this (href (bitstreams (links b))) options ls)"
  shows "via_request this f options ls project"
proof -
  have "inner = (\<lambda>b. map_rx f (findAllByHref this (href (bitstreams (links b))) options ls))"
    by (rule ext) (rule assms(2))
  with assms(1) show ?thesis by (simp add: via_request_def)
qed

lemma via_requestD:
  "via_request this f options ls project \<Longrightarrow>
   via_bundle
     (\<lambda>b. map_rx f (findAllByHref this (href (bitstreams (links b))) options ls)) project"
  by (simp add: via_request_def)

lemma via_request_payload:
  "via_request this f options ls project \<Longrightarrow> payload rd = Some b \<Longrightarrow>
   project rd s = map (apsnd f) (findAllByHref this (href (bitstreams (links b))) options ls s)"
  by (simp add: via_bundle_payload [OF via_requestD])

lemma via_request_no_payload:
  "via_request this f options ls project \<Longrightarrow> payload rd = None \<Longrightarrow>
   project rd s = [(s, as_any BundlePayload rd)]"
  by (simp add: via_bundle_no_payload [OF via_requestD])

section \<open>Where a delivered wrapper stems from\<close>

lemma via_request_origin:
  assumes "via_request this f options ls project"
    and "(u, out) \<in> set (switch_trace project es)"
  shows "\<exists>pre s rd post.
    es = pre @ (s, rd) # post \<and>
    (post = [] \<or> u = s \<or> u < fst (hd post)) \<and>
    (case payload rd of
       Some b \<Rightarrow>
         \<exists>answer. (u, answer) \<in> set (findAllByHref this (href (bitstreams (links b))) options ls s) \<and>
              out = f answer
     | None \<Rightarrow> u = s \<and> out = as_any BundlePayload rd)"
proof -
  from via_requestD [OF assms(1)] assms(2) obtain pre s rd post where
    "es = pre @ (s, rd) # post"
    "post = [] \<or> fst (u, out) = s \<or> fst (u, out) < fst (hd post)"
    "case payload rd of
       Some b \<Rightarrow> (u, out) \<in> set (map_rx f
                     (findAllByHref this (href (bitstreams (links b))) options ls) s)
     | None \<Rightarrow> (u, out) = (s, as_any BundlePayload rd)"
    by (rule via_bundle_origin)
  then have
    "es = pre @ (s, rd) # post \<and>
     (post = [] \<or> u = s \<or> u < fst (hd post)) \<and>
     (case payload rd of
        Some b \<Rightarrow>
          \<exists>answer. (u, answer) \<in> set (findAllByHref this (href (bitstreams (links b))) options ls s) \<and>
               out = f answer
      | None \<Rightarrow> u = s \<and> out = as_any BundlePayload rd)"
    by (simp add: in_set_map_rx del: map_rx_apply split: option.split_asm option.split)
  then show ?thesis by blast
qed

text \<open>The error of a delivered wrapper: that of the cast wrapper, or of a projected answer.\<close>

lemma via_request_failure:
  assumes "via_request this f options ls project"
    and "(u, out) \<in> set (switch_trace project
           (findByItemAndName (bundleService this) item bundleName t))"
    and "error out = Some e"
  shows "\<exists>s rd.
    (s, rd) \<in> set (findByItemAndName (bundleService this) item bundleName t) \<and>
    (case payload rd of
       None \<Rightarrow> u = s \<and> error rd = Some e
     | Some b \<Rightarrow>
         \<exists>answer. (u, answer) \<in> set (findAllByHref this (href (bitstreams (links b))) options ls s) \<and>
           error (f answer) = Some e)"
proof -
  from via_request_origin [OF assms(1,2)] obtain pre s rd post where
    lookup: "findByItemAndName (bundleService this) item bundleName t = pre @ (s, rd) # post" and
    out: "case payload rd of
       Some b \<Rightarrow>
         \<exists>answer. (u, answer) \<in> set (findAllByHref this (href (bitstreams (links b))) options ls s) \<and>
              out = f answer
     | None \<Rightarrow> u = s \<and> out = as_any BundlePayload rd"
    by blast
  from out assms(3) have "case payload rd of
       None \<Rightarrow> u = s \<and> error rd = Some e
     | Some b \<Rightarrow>
         \<exists>answer. (u, answer) \<in> set (findAllByHref this (href (bitstreams (links b))) options ls s) \<and>
           error (f answer) = Some e"
    by (cases "payload rd") auto
  with lookup show ?thesis by force
qed

text \<open>
  A property of wrappers holds for all that are delivered when the projection
  establishes it from what holds for the answers, and the cast from what holds for the
  lookup wrappers without payload.
\<close>

lemma via_request_every:
  assumes "via_request this f options ls project" and "every_wrapper P Q this"
    and "(u, out) \<in> set (switch_trace project
           (findByItemAndName (bundleService this) item bundleName t))"
    and "\<And>rd. P rd \<Longrightarrow> payload rd = None \<Longrightarrow> R (as_any BundlePayload rd)"
    and "\<And>answer. Q answer \<Longrightarrow> R (f answer)"
  shows "R out"
proof -
  from via_request_origin [OF assms(1,3)] obtain pre s rd post where
    lookup: "findByItemAndName (bundleService this) item bundleName t = pre @ (s, rd) # post" and
    out: "case payload rd of
       Some b \<Rightarrow>
         \<exists>answer. (u, answer) \<in> set (findAllByHref this (href (bitstreams (links b))) options ls s) \<and>
              out = f answer
     | None \<Rightarrow> u = s \<and> out = as_any BundlePayload rd"
    by blast
  show ?thesis
  proof (cases "payload rd")
    case None
    from lookup have "(s, rd) \<in> set (findByItemAndName (bundleService this) item bundleName t)"
      by simp
    with assms(2) have "P (snd (s, rd))" by (rule every_wrapperD(1))
    with None out assms(4) show ?thesis by simp
  next
    case (Some b)
    with out obtain answer where
      answer: "(u, answer) \<in> set (findAllByHref this (href (bitstreams (links b))) options ls s)"
      and "out = f answer"
      by auto
    from assms(2) answer have "Q (snd (u, answer))" by (rule every_wrapperD(2))
    with \<open>out = f answer\<close> assms(5) show ?thesis by simp
  qed
qed

section \<open>What is delivered for sure\<close>

lemma via_request_delivers:
  assumes "via_request this f options ls project" and "wf_service this"
    and "es = pre @ (s, rd) # post" and "payload rd = Some b"
    and "(u, answer) \<in> set (findAllByHref this (href (bitstreams (links b))) options ls s)"
    and "post = [] \<or> u = s \<or> u < fst (hd post)"
  shows "(u, f answer) \<in> set (switch_trace project es)"
proof (rule via_bundle_delivers [OF via_requestD [OF assms(1)] assms(3,4)])
  from assms(2)
  show "wf_trace s (map_rx f (findAllByHref this (href (bitstreams (links b))) options ls) s)"
    by (simp add: wf_ObservableD wf_map_rx wf_serviceD)
  from assms(5)
  show "(u, f answer) \<in> set (map_rx f (findAllByHref this (href (bitstreams (links b))) options ls) s)"
    unfolding in_set_map_rx by blast
  from assms(6) show "post = [] \<or> fst (u, f answer) = s \<or> fst (u, f answer) < fst (hd post)"
    by simp
qed

lemma via_request_final:
  assumes "via_request this f options ls project" and "payload rd = Some b"
  shows "\<exists>before. switch_trace project (pre @ [(s, rd)]) =
    before @ map (apsnd f) (findAllByHref this (href (bitstreams (links b))) options ls s)"
  using via_bundle_final [OF via_requestD [OF assms(1)] assms(2), where pre = pre and s = s]
  by simp

text \<open>The outcome: the last wrapper delivered is the projection of the last answer.\<close>

lemma via_request_last:
  assumes "via_request this f options ls project" and "payload rd = Some b"
    and "findAllByHref this (href (bitstreams (links b))) options ls s = answers @ [(u, answer)]"
  shows "last (switch_trace project (pre @ [(s, rd)])) = (u, f answer)"
proof -
  from via_request_final [OF assms(1,2), where pre = pre and s = s] assms(3) obtain before where
    "switch_trace project (pre @ [(s, rd)]) = before @ map (apsnd f) (answers @ [(u, answer)])"
    by auto
  then show ?thesis by simp
qed

lemma via_request_single:
  assumes "via_request this f options ls project" and "payload rd = Some b"
  shows "switch_trace project [(s, rd)] =
    map (apsnd f) (findAllByHref this (href (bitstreams (links b))) options ls s)"
  using assms by (simp add: via_request_payload)

lemma via_request_mirror:
  assumes "via_request this f options ls project"
    and "list_all (\<lambda>e. payload (snd e) = None) es"
  shows "switch_trace project es = map (apsnd (as_any BundlePayload)) es"
  using assms(2) by (intro via_bundle_mirror [OF via_requestD [OF assms(1)]]) (auto simp: list_all_iff)

section \<open>Invariants of the delivered stream\<close>

lemma via_request_wf:
  assumes "via_request this f options ls project" and "wf_service this"
  shows "wf_Observable (project rd)"
  by (rule via_bundle_wf [OF via_requestD [OF assms(1)]]) (simp add: wf_map_rx wf_serviceD assms(2))

lemma via_request_sorted:
  assumes "via_request this f options ls project" and "wf_service this"
  shows "wf_trace t (switch_trace project (findByItemAndName (bundleService this) item bundleName t))"
  by (intro wf_switch_trace wf_ObservableD wf_serviceD via_request_wf [OF assms] assms(2))

lemma via_request_settles_once:
  assumes "via_request this f options ls project"
    and "strict_wrappers this" and "settling this"
    and "\<And>answer. strict answer \<Longrightarrow> isLoading (f answer) = isLoading answer"
  shows "settles_once (map snd (switch_trace project
    (findByItemAndName (bundleService this) item bundleName t)))"
proof (rule via_bundle_settles_once [OF via_requestD [OF assms(1)]])
  fix b s
  let ?answers = "findAllByHref this (href (bitstreams (links b))) options ls s"
  have "isLoading (f answer) = isLoading answer" if "answer \<in> set (map snd ?answers)" for answer
  proof (rule assms(4))
    from that assms(2) show "strict answer" by (auto dest: strict_wrappersD(2))
  qed
  then have "settles_once (map f (map snd ?answers)) = settles_once (map snd ?answers)"
    by (rule settles_once_map)
  with assms(3) show "settles_once (map snd (map_rx f
      (findAllByHref this (href (bitstreams (links b))) options ls) s))"
    by (simp add: comp_def settlingD)
next
  from assms(3)
  show "settles_once (map snd (findByItemAndName (bundleService this) item bundleName t))"
    by (rule settlingD(1))
  show "strict rd"
    if "(s, rd) \<in> set (findByItemAndName (bundleService this) item bundleName t)" for s rd
    using assms(2) that by (rule strict_wrappersD(1))
qed

lemma via_request_list_all:
  assumes "via_request this f options ls project" and "every_wrapper P Q this"
    and "\<And>rd. P rd \<Longrightarrow> payload rd = None \<Longrightarrow> R (as_any BundlePayload rd)"
    and "\<And>answer. Q answer \<Longrightarrow> R (f answer)"
  shows "list_all R (map snd (switch_trace project
    (findByItemAndName (bundleService this) item bundleName t)))"
  unfolding list_all_iff
proof
  fix out
  assume "out \<in> set (map snd (switch_trace project
    (findByItemAndName (bundleService this) item bundleName t)))"
  then obtain u where "(u, out) \<in> set (switch_trace project
      (findByItemAndName (bundleService this) item bundleName t))"
    by auto
  with assms(1,2) show "R out" by (rule via_request_every) (fact assms(3,4))+
qed

section \<open>Time and length\<close>

lemma via_request_time_invariant:
  assumes "via_request this f options ls project" and "time_invariant_service this"
  shows "time_invariant (project rd)"
proof (cases "payload rd")
  case None
  have "project rd = from_array [as_any BundlePayload rd]"
    by (rule ext) (simp add: via_request_no_payload [OF assms(1) None])
  then show ?thesis by simp
next
  case (Some b)
  have "project rd = map_rx f (findAllByHref this (href (bitstreams (links b))) options ls)"
    by (rule ext) (simp add: via_request_payload [OF assms(1) Some])
  with assms(2) show ?thesis
    by (simp add: time_invariant_map_rx time_invariant_serviceD)
qed

lemma via_request_shift:
  assumes "via_request this f options ls project" and "time_invariant_service this"
  shows "switch_trace project (findByItemAndName (bundleService this) item bundleName (d + t))
    = shift d (switch_trace project (findByItemAndName (bundleService this) item bundleName t))"
  using assms
  by (simp add: time_invariantD time_invariant_serviceD switch_trace_shift
      via_request_time_invariant [OF assms])

text \<open>
  One wrapper for a lookup wrapper without bundle, and at most the answers to the list
  request for a lookup wrapper with a bundle.
\<close>

lemma via_request_length:
  assumes "via_request this f options ls project"
  shows "length (switch_trace project es) \<le>
    (\<Sum>e \<leftarrow> es. case payload (snd e) of
        None \<Rightarrow> 1
      | Some b \<Rightarrow> length (findAllByHref this (href (bitstreams (links b))) options ls (fst e)))"
proof -
  have "length (project rd s) =
      (case payload rd of
         None \<Rightarrow> 1
       | Some b \<Rightarrow> length (findAllByHref this (href (bitstreams (links b))) options ls s))"
    for rd s
    by (cases "payload rd")
      (simp_all add: via_request_no_payload [OF assms] via_request_payload [OF assms])
  with length_switch_trace [of project es] show ?thesis by simp
qed

section \<open>The delivered stream settles\<close>

text \<open>
  When every request is answered in the end, so is the composed one: the last wrapper
  delivered stems from the last wrapper of the lookup, which is settled, and is that
  wrapper or the projection of the last answer to the list request for its bundle.
\<close>

lemma via_request_settles:
  assumes "via_request this f options ls project" and "answering this"
    and "\<And>answer. \<not> isLoading answer \<Longrightarrow> \<not> isLoading (f answer)"
  shows "settles (map snd (switch_trace project
    (findByItemAndName (bundleService this) item bundleName t)))"
proof -
  from answeringD(1) [OF assms(2)] obtain pre s rd where
    lookup: "findByItemAndName (bundleService this) item bundleName t = pre @ [(s, rd)]"
    and settled: "\<not> isLoading rd"
    by (rule settlesE)
  obtain out where out: "switch_trace project (pre @ [(s, rd)]) = out @ project rd s"
    using switch_trace_snoc [of project pre s rd] by blast
  have "settles (map snd (project rd s))"
  proof (cases "payload rd")
    case None
    with settled show ?thesis by (simp add: via_request_no_payload [OF assms(1)] settles_def)
  next
    case (Some b)
    from assms(3) answeringD(2) [OF assms(2)]
    have "settles (map f (map snd (findAllByHref this (href (bitstreams (links b))) options ls s)))"
      by (rule settles_map)
    with Some show ?thesis by (simp add: via_request_payload [OF assms(1)] comp_def)
  qed
  with lookup out show ?thesis by (simp add: settles_append)
qed

section \<open>Causality\<close>

text \<open>
  What is delivered before frame \<open>T\<close> depends on what the collaborators deliver before
  \<open>T\<close> only: on two services that agree before \<open>T\<close>, callbacks of the same shape
  deliver the same wrappers before \<open>T\<close>.
\<close>

lemma via_request_causal:
  assumes "via_request this f options ls project" and "via_request that f options ls project'"
    and "wf_service this" and "wf_service that"
    and "agree_earlier T this that item bundleName options ls t"
  shows "earlier T (switch_trace project (findByItemAndName (bundleService this) item bundleName t))
    = earlier T (switch_trace project' (findByItemAndName (bundleService that) item bundleName t))"
proof (rule switch_trace_causal)
  show "wf_trace s (project rd s)" for rd s
    by (rule wf_ObservableD) (rule via_request_wf [OF assms(1,3)])
  show "wf_trace s (project' rd s)" for rd s
    by (rule wf_ObservableD) (rule via_request_wf [OF assms(2,4)])
  show "wf_trace t (findByItemAndName (bundleService this) item bundleName t)"
    "wf_trace t (findByItemAndName (bundleService that) item bundleName t)"
    by (simp_all add: wf_ObservableD wf_serviceD assms(3,4))
  show "earlier T (findByItemAndName (bundleService this) item bundleName t)
      = earlier T (findByItemAndName (bundleService that) item bundleName t)"
    using assms(5) by (rule agree_earlierD)
  show "earlier T (project rd s) = earlier T (project' rd s)"
    if "(s, rd) \<in> set (earlier T (findByItemAndName (bundleService this) item bundleName t))"
    for s rd
  proof (cases "payload rd")
    case None
    then show ?thesis
      by (simp add: via_request_no_payload [OF assms(1)] via_request_no_payload [OF assms(2)])
  next
    case (Some b)
    with assms(5) that show ?thesis
      by (simp add: via_request_payload [OF assms(1)] via_request_payload [OF assms(2)]
          agree_earlierD(2))
  qed
qed

section \<open>A projecting callback and the plain one\<close>

text \<open>
  A callback that projects the answers with \<open>f\<close> delivers what the plain callback (the
  cast alone) delivers, projected with \<open>f\<close>, when \<open>f\<close> hands a wrapper without payload
  on: the switch looks at frames only.
\<close>

lemma via_request_factor:
  assumes "via_request this f options ls project"
    and "via_request this (as_any ListPayload) options ls plain"
    and "\<And>rd :: Bundle RemoteData. payload rd = None \<Longrightarrow> f (retype rd None) = as_any BundlePayload rd"
  shows "switch_trace project es = map (apsnd (onList f)) (switch_trace plain es)"
proof -
  have "project rd s = map_rx (onList f) (plain rd) s" for rd s
  proof (cases "payload rd")
    case None
    with assms(3) show ?thesis
      by (simp add: via_request_no_payload [OF assms(1)] via_request_no_payload [OF assms(2)]
          onList_as_any_Bundle)
  next
    case (Some b)
    then show ?thesis
      by (auto simp: via_request_payload [OF assms(1)] via_request_payload [OF assms(2)])
  qed
  then have "switch_trace project es = switch_trace (\<lambda>rd. map_rx (onList f) (plain rd)) es"
    by (intro switch_trace_cong)
  then show ?thesis by (simp add: switch_trace_map)
qed

section \<open>The stream and the awaited result\<close>

text \<open>
  The stream of a callback of this shape ends with what the caller who waits gets,
  whenever there is such a result; on a service that answers every request there is.
\<close>

lemma resolve_no_payload:
  "final (findByItemAndName (bundleService this) item bundleName t) = Some (s, bundleRD) \<Longrightarrow>
   payload bundleRD = None \<Longrightarrow>
   resolve this f options ls item bundleName t = Some (s, as_any BundlePayload bundleRD)"
  by (simp add: resolve_def)

lemma resolve_payload:
  "final (findByItemAndName (bundleService this) item bundleName t) = Some (s, bundleRD) \<Longrightarrow>
   payload bundleRD = Some b \<Longrightarrow>
   resolve this f options ls item bundleName t =
     map_option (apsnd f) (final (findAllByHref this (href (bitstreams (links b))) options ls s))"
  by (cases "final (findAllByHref this (href (bitstreams (links b))) options ls s)")
    (auto simp: resolve_def findAllByBundle_def)

lemma resolve_None_iff:
  "resolve this f options ls item bundleName t = None \<longleftrightarrow>
   (case final (findByItemAndName (bundleService this) item bundleName t) of
      None \<Rightarrow> True
    | Some (s, bundleRD) \<Rightarrow>
        (case payload bundleRD of
           None \<Rightarrow> False
         | Some b \<Rightarrow> findAllByHref this (href (bitstreams (links b))) options ls s = []))"
proof (cases "final (findByItemAndName (bundleService this) item bundleName t)")
  case None
  then show ?thesis by (simp add: resolve_def)
next
  case (Some e)
  obtain s bundleRD where "e = (s, bundleRD)" by (cases e)
  with Some show ?thesis
    by (cases "payload bundleRD") (simp_all add: resolve_no_payload resolve_payload)
qed

lemma via_request_resolve:
  assumes "via_request this f options ls project"
    and "resolve this f options ls item bundleName t = Some r"
  shows "final (switch_trace project (findByItemAndName (bundleService this) item bundleName t))
    = Some r"
proof -
  from assms(2) obtain s bundleRD where
    lookup: "final (findByItemAndName (bundleService this) item bundleName t) = Some (s, bundleRD)"
    by (auto simp: resolve_def split: Option.bind_splits)
  have "final (project bundleRD s) = Some r"
  proof (cases "payload bundleRD")
    case None
    with assms(2) lookup show ?thesis
      by (simp add: via_request_no_payload [OF assms(1)] resolve_no_payload)
  next
    case (Some b)
    with assms(2) lookup show ?thesis
      by (simp add: via_request_payload [OF assms(1)] resolve_payload)
  qed
  with lookup show ?thesis by (rule switch_trace_final)
qed

lemma answering_resolve:
  assumes "answering this"
  shows "resolve this f options ls item bundleName t \<noteq> None"
  using answeringD [OF assms]
  by (auto simp: resolve_None_iff settles_def split: option.split)

lemma via_request_awaited:
  assumes "via_request this f options ls project" and "answering this"
  shows "final (switch_trace project (findByItemAndName (bundleService this) item bundleName t))
    = resolve this f options ls item bundleName t"
proof -
  from answering_resolve [OF assms(2)] obtain r where
    "resolve this f options ls item bundleName t = Some r"
    by blast
  with via_request_resolve [OF assms(1)] show ?thesis by simp
qed

end
