(* ===== verification/Fixtures.thy ===== *)
theory Fixtures
  imports Via_Request
begin

text \<open>
  Concrete data for the instances of the properties: wrappers in each state, a
  thumbnail bundle with two bitstreams, and six services. \<open>demoService\<close> answers
  every request with a pending wrapper followed by a settled one, and honours the page
  size of a list request. \<open>revalidatingService\<close> delivers a second bundle wrapper
  while the list request for the first is still in flight. \<open>noBundleService\<close> never
  finds a bundle. \<open>staleService\<close> answers a list request with a pending wrapper that
  still carries the page of an earlier response, and then with the fresh one.
  \<open>pagelessService\<close> answers a list request with a succeeded list that has no page.
  \<open>failingService\<close> finds the bundle as \<open>demoService\<close> does, and answers a list
  request late and with a failure: the two deliver the same before frame 5.
\<close>

section \<open>Wrappers\<close>

definition requestPending :: "'a RemoteData" where
  "requestPending =
     \<lparr>isRequestPending = True, isResponsePending = False, hasSucceeded = False,
      error = None, payload = None\<rparr>"

definition succeeded :: "'a \<Rightarrow> 'a RemoteData" where
  "succeeded x =
     \<lparr>isRequestPending = False, isResponsePending = False, hasSucceeded = True,
      error = None, payload = Some x\<rparr>"

definition notFound :: "'a RemoteData" where
  "notFound =
     \<lparr>isRequestPending = False, isResponsePending = False, hasSucceeded = False,
      error = Some \<lparr>statusCode = 404, statusText = ''Not Found'', message = ''no such resource''\<rparr>,
      payload = None\<rparr>"

text \<open>A pending wrapper that still carries the value of an earlier response.\<close>

definition revalidating :: "'a \<Rightarrow> 'a RemoteData" where
  "revalidating x =
     \<lparr>isRequestPending = False, isResponsePending = True, hasSucceeded = False,
      error = None, payload = Some x\<rparr>"

section \<open>Resources\<close>

definition listOf :: "'a list \<Rightarrow> 'a PaginatedList" where
  "listOf xs =
     \<lparr>pageInfo = \<lparr>PageInfo.elementsPerPage = int (length xs), totalElements = int (length xs),
                  PageInfo.currentPage = 0\<rparr>,
      page = Some xs\<rparr>"

definition pagelessList :: "'a PaginatedList" where
  "pagelessList =
     \<lparr>pageInfo = \<lparr>PageInfo.elementsPerPage = 0, totalElements = 0, PageInfo.currentPage = 0\<rparr>,
      page = None\<rparr>"

definition original :: Bitstream where
  "original = \<lparr>name = ''cover.png'', sizeBytes = 52000\<rparr>"

definition otherThumbnail :: Bitstream where
  "otherThumbnail = \<lparr>name = ''back.png.jpg'', sizeBytes = 900\<rparr>"

definition coverThumbnail :: Bitstream where
  "coverThumbnail = \<lparr>name = ''cover.png.jpg'', sizeBytes = 1100\<rparr>"

definition bundleAt :: "string \<Rightarrow> Bundle" where
  "bundleAt h = \<lparr>uuid = h, links = \<lparr>self = \<lparr>href = h\<rparr>, bitstreams = \<lparr>href = h @ ''/bitstreams''\<rparr>\<rparr>\<rparr>"

section \<open>Services\<close>

definition requestedSize :: "FindListOptions option \<Rightarrow> nat" where
  "requestedSize options =
     (case Option.bind options elementsPerPage of Some n \<Rightarrow> nat n | None \<Rightarrow> 20)"

definition demoService :: "unit BitstreamDataService" where
  "demoService =
     \<lparr>bundleService = \<lparr>findByItemAndName = (\<lambda>item bundleName t.
          if bundleName = ''THUMBNAIL''
          then [(t, requestPending), (t + 2, succeeded (bundleAt ''/b/1''))]
          else [(t, requestPending), (t + 1, notFound)])\<rparr>,
      findAllByHref = (\<lambda>h options ls t.
          if h = ''/b/1/bitstreams''
          then [(t, requestPending),
                (t + 3, succeeded (listOf (take (requestedSize options)
                                            [otherThumbnail, coverThumbnail])))]
          else [(t + 1, notFound)])\<rparr>"

definition revalidatingService :: "unit BitstreamDataService" where
  "revalidatingService =
     \<lparr>bundleService = \<lparr>findByItemAndName = (\<lambda>item bundleName t.
          [(t, succeeded (bundleAt ''/b/0'')), (t + 2, succeeded (bundleAt ''/b/1''))])\<rparr>,
      findAllByHref = (\<lambda>h options ls t.
          if h = ''/b/1/bitstreams''
          then [(t + 1, succeeded (listOf [coverThumbnail]))]
          else [(t, requestPending), (t + 5, succeeded (listOf [otherThumbnail]))])\<rparr>"

text \<open>A service whose item has no THUMBNAIL bundle: the lookup fails.\<close>

definition noBundleService :: "unit BitstreamDataService" where
  "noBundleService =
     \<lparr>bundleService = \<lparr>findByItemAndName = (\<lambda>item bundleName t.
          [(t, requestPending), (t + 1, notFound)])\<rparr>,
      findAllByHref = (\<lambda>h options ls t. [(t + 1, notFound)])\<rparr>"

text \<open>
  A service that answers a list request from its cache first: a pending wrapper that
  carries the page of an earlier response, then the fresh response.
\<close>

definition staleService :: "unit BitstreamDataService" where
  "staleService =
     \<lparr>bundleService = \<lparr>findByItemAndName = (\<lambda>item bundleName t.
          [(t, succeeded (bundleAt ''/b/1''))])\<rparr>,
      findAllByHref = (\<lambda>h options ls t.
          [(t, revalidating (listOf [otherThumbnail])),
           (t + 1, succeeded (listOf [coverThumbnail]))])\<rparr>"

text \<open>A service whose list answers carry a list without a page.\<close>

definition pagelessService :: "unit BitstreamDataService" where
  "pagelessService =
     \<lparr>bundleService = \<lparr>findByItemAndName = (\<lambda>item bundleName t.
          [(t, succeeded (bundleAt ''/b/1''))])\<rparr>,
      findAllByHref = (\<lambda>h options ls t.
          [(t, requestPending), (t + 1, succeeded pagelessList)])\<rparr>"

text \<open>
  A service that is \<open>demoService\<close> until the list request is answered, and then fails
  where that one succeeds.
\<close>

definition failingService :: "unit BitstreamDataService" where
  "failingService =
     \<lparr>bundleService = bundleService demoService,
      findAllByHref = (\<lambda>h options ls t. [(t, requestPending), (t + 3, notFound)])\<rparr>"

section \<open>Evaluation\<close>

lemmas fixture_defs =
  requestPending_def succeeded_def notFound_def revalidating_def listOf_def pagelessList_def
  original_def otherThumbnail_def coverThumbnail_def bundleAt_def requestedSize_def

lemma demo_bundles [simp]:
  "findByItemAndName (bundleService demoService) item ''THUMBNAIL'' t =
     [(t, requestPending), (t + 2, succeeded (bundleAt ''/b/1''))]"
  "bundleName \<noteq> ''THUMBNAIL'' \<Longrightarrow>
   findByItemAndName (bundleService demoService) item bundleName t =
     [(t, requestPending), (t + 1, notFound)]"
  by (simp_all add: demoService_def)

lemma demo_lists [simp]:
  "findAllByHref demoService ''/b/1/bitstreams'' options ls t =
     [(t, requestPending),
      (t + 3, succeeded (listOf (take (requestedSize options) [otherThumbnail, coverThumbnail])))]"
  by (simp add: demoService_def)

lemma revalidating_bundles [simp]:
  "findByItemAndName (bundleService revalidatingService) item bundleName t =
     [(t, succeeded (bundleAt ''/b/0'')), (t + 2, succeeded (bundleAt ''/b/1''))]"
  by (simp add: revalidatingService_def)

lemma revalidating_lists [simp]:
  "findAllByHref revalidatingService ''/b/1/bitstreams'' options ls t =
     [(t + 1, succeeded (listOf [coverThumbnail]))]"
  "findAllByHref revalidatingService ''/b/0/bitstreams'' options ls t =
     [(t, requestPending), (t + 5, succeeded (listOf [otherThumbnail]))]"
  by (simp_all add: revalidatingService_def)

lemma bitstreams_href_bundleAt [simp]: "href (bitstreams (links (bundleAt h))) = h @ ''/bitstreams''"
  by (simp add: bundleAt_def)

lemma fixture_payload [simp]:
  "payload requestPending = None" "payload (succeeded x) = Some x"
  "payload notFound = None" "payload (revalidating x) = Some x"
  by (simp_all add: fixture_defs)

lemma fixture_state [simp]:
  "state requestPending = RequestPending" "state (succeeded x) = Success"
  "state notFound = Failed" "state (revalidating x) = ResponsePending"
  by (simp_all add: fixture_defs state_def)

lemma fixture_loading [simp]:
  "isLoading requestPending" "isLoading (revalidating x)"
  "\<not> isLoading (succeeded x)" "\<not> isLoading notFound"
  by (simp_all add: fixture_defs isLoading_def)

lemma fixture_wf [simp]:
  "wf_RemoteData requestPending" "wf_RemoteData (succeeded x)"
  "wf_RemoteData notFound" "wf_RemoteData (revalidating x)"
  by (simp_all add: fixture_defs rd_defs)

lemma fixture_strict [simp]:
  "strict requestPending" "strict (succeeded x)" "strict notFound" "\<not> strict (revalidating x)"
  by (simp_all add: strict_def)

lemma fixture_pageOf [simp]:
  "pageOf (succeeded (listOf xs)) = Some xs" "pageOf (revalidating (listOf xs)) = Some xs"
  "pageOf (succeeded pagelessList) = None" "pageOf requestPending = None" "pageOf notFound = None"
  by (simp_all add: pageOf_def listOf_def pagelessList_def)

lemma requestedSize_pageSizeOnly [simp]: "requestedSize (Some (pageSizeOnly n)) = nat n"
  by (simp add: requestedSize_def pageSizeOnly_def)

lemma wf_demoService: "wf_service demoService"
  by (simp add: wf_service_def wf_Observable_def wf_trace_def demoService_def)

lemma wf_revalidatingService: "wf_service revalidatingService"
  by (simp add: wf_service_def wf_Observable_def wf_trace_def revalidatingService_def)

lemma demo_every_wrapper:
  "P requestPending \<Longrightarrow> P notFound \<Longrightarrow> P (succeeded (bundleAt ''/b/1'')) \<Longrightarrow>
   Q requestPending \<Longrightarrow> Q notFound \<Longrightarrow> (\<And>xs. Q (succeeded (listOf xs))) \<Longrightarrow>
   every_wrapper P Q demoService"
  by (auto simp: every_wrapper_def demoService_def)

lemma noBundle_bundles [simp]:
  "findByItemAndName (bundleService noBundleService) item bundleName t =
     [(t, requestPending), (t + 1, notFound)]"
  by (simp add: noBundleService_def)

lemma stale_traces [simp]:
  "findByItemAndName (bundleService staleService) item bundleName t =
     [(t, succeeded (bundleAt ''/b/1''))]"
  "findAllByHref staleService h options ls t =
     [(t, revalidating (listOf [otherThumbnail])), (t + 1, succeeded (listOf [coverThumbnail]))]"
  by (simp_all add: staleService_def)

lemma demo_wf_wrappers: "wf_wrappers demoService"
  unfolding wf_wrappers_def by (rule demo_every_wrapper) simp_all

lemma demo_strict_wrappers: "strict_wrappers demoService"
  unfolding strict_wrappers_def by (rule demo_every_wrapper) simp_all

lemma demo_paged_lists: "paged_lists demoService"
  unfolding paged_lists_def by (rule demo_every_wrapper) simp_all

lemma demo_settling: "settling demoService"
  by (simp add: settling_def emitted_def demoService_def)

lemma stale_settling: "settling staleService"
  by (simp add: settling_def emitted_def)

lemma stale_wf_wrappers: "wf_wrappers staleService"
  by (simp add: wf_wrappers_def every_wrapper_def)

lemma pageless_traces [simp]:
  "findByItemAndName (bundleService pagelessService) item bundleName t =
     [(t, succeeded (bundleAt ''/b/1''))]"
  "findAllByHref pagelessService h options ls t =
     [(t, requestPending), (t + 1, succeeded pagelessList)]"
  by (simp_all add: pagelessService_def)

lemma pageless_well_behaved:
  "wf_service pagelessService" "wf_wrappers pagelessService"
  "strict_wrappers pagelessService" "settling pagelessService"
  by (simp_all add: wf_service_def wf_Observable_def wf_trace_def wf_wrappers_def
      strict_wrappers_def every_wrapper_def settling_def emitted_def)

lemma demo_paged_by: "paged_by demoService (\<lambda>h. [otherThumbnail, coverThumbnail])"
  by (auto simp: paged_by_def demoService_def)

lemma failing_traces [simp]:
  "findByItemAndName (bundleService failingService) item bundleName t =
     findByItemAndName (bundleService demoService) item bundleName t"
  "findAllByHref failingService h options ls t = [(t, requestPending), (t + 3, notFound)]"
  by (simp_all add: failingService_def)

lemma wf_failingService: "wf_service failingService"
  by (simp add: wf_service_def wf_Observable_def wf_trace_def failingService_def demoService_def)

lemma demo_failing_agree:
  "agree_earlier 5 demoService failingService item ''THUMBNAIL'' options ls 0"
  by (simp add: agree_earlier_def)

lemma demo_answering: "answering demoService"
  by (simp add: answering_def emitted_def demoService_def settles_def)

lemma demo_time_invariant: "time_invariant_service demoService"
  by (simp add: time_invariant_service_def time_invariant_def demoService_def)

end
