(* ===== verification/Get_Thumbnail_For.thy ===== *)
theory Get_Thumbnail_For
  imports Fixtures
begin

text \<open>
  \<^verbatim>\<open>getThumbnailFor(item)\<close>: the first bitstream of the item's THUMBNAIL bundle. The
  operation looks the bundle up, and for each wrapper the lookup delivers it either
  requests the first page of size one of the bundle's bitstreams and projects each
  answer (\<open>firstOfPage\<close>), or hands the wrapper on when it has no payload
  (\<open>thumbnailOfBundle\<close>).
\<close>

section \<open>Definitions\<close>

definition firstOfPage :: "Bitstream PaginatedList RemoteData \<Rightarrow> Payload RemoteData" where
  "firstOfPage bitstreamRD =
     (if hasValue (payload bitstreamRD) \<and> hasValue (pageOf bitstreamRD)
      then succeededWith (Option.bind (pageOf bitstreamRD) (\<lambda>elements. array_at elements 0))
      else as_any ListPayload bitstreamRD)"

definition thumbnailOfBundle ::
  "'item BitstreamDataService \<Rightarrow> Bundle RemoteData \<Rightarrow> Payload RemoteData Observable" where
  "thumbnailOfBundle this bundleRD =
     (if isNotEmpty no_length (payload bundleRD)
      then pipe (findAllByBundle this (the (payload bundleRD)) (Some (pageSizeOnly 1)) [])
             (map_rx firstOfPage)
      else from_array [as_any BundlePayload bundleRD])"

definition getThumbnailFor ::
  "'item BitstreamDataService \<Rightarrow> 'item \<Rightarrow> Payload RemoteData Observable" where
  "getThumbnailFor this item =
     pipe (findByItemAndName (bundleService this) item ''THUMBNAIL'')
       (switchMap (thumbnailOfBundle this))"

text \<open>The list request the operation makes for a bundle, and what it delivers of it.\<close>

definition firstPage ::
  "'item BitstreamDataService \<Rightarrow> Bundle \<Rightarrow> Payload RemoteData Observable" where
  "firstPage this bundle =
     map_rx firstOfPage
       (findAllByHref this (href (bitstreams (links bundle))) (Some (pageSizeOnly 1)) [])"

section \<open>The callbacks, branch by branch\<close>

lemma firstOfPage_page:
  "pageOf rd = Some elements \<Longrightarrow> firstOfPage rd = succeededWith (array_at elements 0)"
  by (simp add: firstOfPage_def)

lemma firstOfPage_no_page: "pageOf rd = None \<Longrightarrow> firstOfPage rd = as_any ListPayload rd"
  by (simp add: firstOfPage_def)

lemma thumbnailOfBundle_via_bundle: "via_bundle (firstPage this) (thumbnailOfBundle this)"
  by (rule via_bundleI) (simp_all add: thumbnailOfBundle_def firstPage_def findAllByBundle_def)

lemma thumbnailOfBundle_via_request:
  "via_request this firstOfPage (Some (pageSizeOnly 1)) [] (thumbnailOfBundle this)"
  by (rule via_requestI [OF thumbnailOfBundle_via_bundle firstPage_def])

lemma getThumbnailFor_apply:
  "getThumbnailFor this item t =
     switch_trace (thumbnailOfBundle this)
       (findByItemAndName (bundleService this) item ''THUMBNAIL'' t)"
  by (simp add: getThumbnailFor_def)

lemma firstOfPage_loading: "strict rd \<Longrightarrow> isLoading (firstOfPage rd) = isLoading rd"
  by (cases "pageOf rd")
    (auto simp: firstOfPage_page firstOfPage_no_page dest: strict_page_settled)

lemma firstOfPage_settled: "\<not> isLoading rd \<Longrightarrow> \<not> isLoading (firstOfPage rd)"
  by (cases "pageOf rd") (simp_all add: firstOfPage_page firstOfPage_no_page)

lemma firstOfPage_wf: "wf_RemoteData rd \<Longrightarrow> wf_RemoteData (firstOfPage rd)"
  by (cases "pageOf rd") (simp_all add: firstOfPage_page firstOfPage_no_page)

lemma firstOfPage_class:
  "hasValue (payload rd) \<longrightarrow> hasValue (pageOf rd) \<Longrightarrow>
   case payload (firstOfPage rd) of Some p \<Rightarrow> isBitstream p | None \<Rightarrow> True"
  by (cases "pageOf rd"; cases "payload rd")
    (simp_all add: firstOfPage_page firstOfPage_no_page split: option.split)

lemma firstOfPage_typed:
  "hasValue (payload rd) \<longrightarrow> hasValue (pageOf rd) \<Longrightarrow> typed theBitstream (firstOfPage rd) \<noteq> None"
  unfolding typed_Some_iff using firstOfPage_class [of rd]
  by (auto simp: isBitstream_iff split: option.splits)

section \<open>Properties of the projection\<close>

text \<open>
  C3. The wrapper \<^verbatim>\<open>getThumbnailFor\<close> makes of an answer to its list request, on every
  branch: an answer without a page is handed on as it is; an answer with a page becomes
  a settled, succeeded wrapper whose payload is the first element of the page, and no
  payload at all when the page is empty.
\<close>

theorem firstOfPage_spec:
  "firstOfPage bitstreamRD =
     (case pageOf bitstreamRD of
        None \<Rightarrow> as_any ListPayload bitstreamRD
      | Some [] \<Rightarrow> succeededWith None
      | Some (first # rest) \<Rightarrow> succeededWith (Some first))"
  by (simp add: firstOfPage_def split: option.split list.split)

text \<open>
  C31. A pending wrapper that still carries the page of an earlier response is reported
  as settled and succeeded: the projection looks at the payload only and drops the
  pending flags.
\<close>

theorem firstOfPage_stale_page:
  "isLoading bitstreamRD \<Longrightarrow> pageOf bitstreamRD = Some elements \<Longrightarrow>
   state (firstOfPage bitstreamRD) = Success \<and> \<not> isLoading (firstOfPage bitstreamRD) \<and>
   state bitstreamRD \<noteq> Success"
  by (auto simp: firstOfPage_page rd_defs)

theorem firstOfPage_stale_page_witness:
  "isLoading (revalidating (listOf [coverThumbnail])) \<and>
   pageOf (revalidating (listOf [coverThumbnail])) = Some [coverThumbnail] \<and>
   state (firstOfPage (revalidating (listOf [coverThumbnail]))) = Success \<and>
   \<not> isLoading (firstOfPage (revalidating (listOf [coverThumbnail]))) \<and>
   state (revalidating (listOf [coverThumbnail])) \<noteq> Success"
  using firstOfPage_stale_page [of "revalidating (listOf [coverThumbnail])" "[coverThumbnail]"]
  by simp

section \<open>Properties of the stream\<close>

text \<open>
  C1. Every wrapper \<^verbatim>\<open>getThumbnailFor\<close> delivers stems from the latest wrapper of the
  THUMBNAIL bundle lookup: the lookup has delivered a wrapper in frame \<open>s\<close>, no later
  wrapper of the lookup has arrived yet (unless in the very frame \<open>s\<close>), and the
  delivered wrapper is that wrapper itself, in frame \<open>s\<close>, when it has no payload, and
  otherwise the projection of an answer to the list request for the bitstreams link of
  its bundle, with page size one and no links to follow, made in frame \<open>s\<close>.
\<close>

theorem getThumbnailFor_origin:
  assumes "(u, out) \<in> set (getThumbnailFor this item t)"
  shows "\<exists>pre s bundleRD post.
    findByItemAndName (bundleService this) item ''THUMBNAIL'' t = pre @ (s, bundleRD) # post \<and>
    (post = [] \<or> u = s \<or> u < fst (hd post)) \<and>
    (case payload bundleRD of
       Some bundle \<Rightarrow>
         \<exists>rd. (u, rd) \<in> set (findAllByHref this (href (bitstreams (links bundle)))
                               (Some (pageSizeOnly 1)) [] s) \<and>
              out = firstOfPage rd
     | None \<Rightarrow> u = s \<and> out = as_any BundlePayload bundleRD)"
proof -
  from assms have "(u, out) \<in> set (switch_trace (thumbnailOfBundle this)
      (findByItemAndName (bundleService this) item ''THUMBNAIL'' t))"
    by (simp add: getThumbnailFor_apply)
  with thumbnailOfBundle_via_request show ?thesis by (rule via_request_origin)
qed

lemma demo_thumbnail:
  "getThumbnailFor demoService () 0 =
     [(0, as_any BundlePayload requestPending), (2, as_any ListPayload requestPending),
      (5, succeededWith (Some otherThumbnail))]"
  by (simp add: getThumbnailFor_apply firstPage_def firstOfPage_page firstOfPage_no_page
      via_bundle_payload [OF thumbnailOfBundle_via_bundle]
      via_bundle_no_payload [OF thumbnailOfBundle_via_bundle])

theorem getThumbnailFor_origin_witness:
  "(5, succeededWith (Some otherThumbnail)) \<in> set (getThumbnailFor demoService () 0) \<and>
   (\<exists>pre s bundleRD post.
     findByItemAndName (bundleService demoService) () ''THUMBNAIL'' 0 = pre @ (s, bundleRD) # post \<and>
     (post = [] \<or> 5 = s \<or> 5 < fst (hd post)) \<and>
     (case payload bundleRD of
        Some bundle \<Rightarrow>
          \<exists>rd. (5, rd) \<in> set (findAllByHref demoService (href (bitstreams (links bundle)))
                                (Some (pageSizeOnly 1)) [] s) \<and>
               succeededWith (Some otherThumbnail) = firstOfPage rd
      | None \<Rightarrow> 5 = s \<and> succeededWith (Some otherThumbnail) = as_any BundlePayload bundleRD))"
proof -
  have h: "(5, succeededWith (Some otherThumbnail)) \<in> set (getThumbnailFor demoService () 0)"
    by (simp add: demo_thumbnail)
  from getThumbnailFor_origin [OF h] h show ?thesis by (rule conjI [rotated])
qed

text \<open>
  C10. The outcome of \<^verbatim>\<open>getThumbnailFor\<close>: when the last wrapper of the lookup carries a
  bundle and the last answer to the list request for it has a page that is not empty,
  the last wrapper delivered is a succeeded one with the first bitstream of that page,
  in the frame of that answer.
\<close>

theorem getThumbnailFor_outcome:
  assumes "findByItemAndName (bundleService this) item ''THUMBNAIL'' t = pre @ [(s, bundleRD)]"
    and "payload bundleRD = Some b"
    and "findAllByHref this (href (bitstreams (links b))) (Some (pageSizeOnly 1)) [] s
           = answers @ [(u, bitstreamRD)]"
    and "pageOf bitstreamRD = Some (first # rest)"
  shows "last (getThumbnailFor this item t) = (u, succeededWith (Some first))"
  using via_request_last [OF thumbnailOfBundle_via_request assms(2,3), where pre = pre]
    assms(1,4)
  by (simp add: getThumbnailFor_apply firstOfPage_page)

theorem getThumbnailFor_outcome_witness:
  "findByItemAndName (bundleService demoService) () ''THUMBNAIL'' 0
     = [(0, requestPending)] @ [(2, succeeded (bundleAt ''/b/1''))] \<and>
   payload (succeeded (bundleAt ''/b/1'')) = Some (bundleAt ''/b/1'') \<and>
   findAllByHref demoService (href (bitstreams (links (bundleAt ''/b/1''))))
       (Some (pageSizeOnly 1)) [] 2
     = [(2, requestPending)] @ [(5, succeeded (listOf [otherThumbnail]))] \<and>
   pageOf (succeeded (listOf [otherThumbnail])) = Some (otherThumbnail # []) \<and>
   last (getThumbnailFor demoService () 0) = (5, succeededWith (Some otherThumbnail))"
proof -
  have h1: "findByItemAndName (bundleService demoService) () ''THUMBNAIL'' 0
     = [(0, requestPending)] @ [(2, succeeded (bundleAt ''/b/1''))]"
    by simp
  have h2: "payload (succeeded (bundleAt ''/b/1'')) = Some (bundleAt ''/b/1'')"
    by simp
  have h3: "findAllByHref demoService (href (bitstreams (links (bundleAt ''/b/1''))))
       (Some (pageSizeOnly 1)) [] 2
     = [(2, requestPending)] @ [(5, succeeded (listOf [otherThumbnail]))]"
    by simp
  have h4: "pageOf (succeeded (listOf [otherThumbnail])) = Some (otherThumbnail # [])"
    by simp
  from getThumbnailFor_outcome [OF h1 h2 h3 h4] h1 h2 h3 h4 show ?thesis by blast
qed

text \<open>
  C32. Strictness is needed for that order: there is a service whose requests all
  deliver the snapshots of one fetch in order, with well-formed wrappers, for which
  \<^verbatim>\<open>getThumbnailFor\<close> delivers a settled wrapper and then another one.
\<close>

theorem getThumbnailFor_settles_twice:
  "\<exists>this :: unit BitstreamDataService.
     settling this \<and> wf_wrappers this \<and> \<not> settles_once (emitted (getThumbnailFor this ()) 0)"
proof (intro exI conjI)
  show "settling staleService" by (rule stale_settling)
  show "wf_wrappers staleService" by (rule stale_wf_wrappers)
  show "\<not> settles_once (emitted (getThumbnailFor staleService ()) 0)"
    by (simp add: emitted_def getThumbnailFor_apply firstPage_def firstOfPage_page
        via_bundle_payload [OF thumbnailOfBundle_via_bundle])
qed

section \<open>Where a failure stems from\<close>

lemma firstOfPage_error:
  "error (firstOfPage rd) = Some e \<longleftrightarrow> pageOf rd = None \<and> error rd = Some e"
  by (cases "pageOf rd") (simp_all add: firstOfPage_page firstOfPage_no_page)

lemma failing_thumbnail:
  "getThumbnailFor failingService () 0 =
     [(0, as_any BundlePayload requestPending), (2, as_any ListPayload requestPending),
      (5, as_any ListPayload notFound)]"
  by (simp add: getThumbnailFor_apply firstPage_def firstOfPage_no_page
      via_bundle_payload [OF thumbnailOfBundle_via_bundle]
      via_bundle_no_payload [OF thumbnailOfBundle_via_bundle])

text \<open>
  C19. \<^verbatim>\<open>getThumbnailFor\<close> makes no failure of its own: the error of a wrapper it
  delivers is the error of a wrapper of the lookup that has no payload, delivered in
  the same frame, or the error of an answer without a page to the list request made
  for a bundle of the lookup. An absent bundle or an empty page never yields a failure
  that the collaborators did not report.
\<close>

theorem getThumbnailFor_failure_origin:
  assumes "(u, out) \<in> set (getThumbnailFor this item t)" and "error out = Some e"
  shows "\<exists>s bundleRD.
    (s, bundleRD) \<in> set (findByItemAndName (bundleService this) item ''THUMBNAIL'' t) \<and>
    (case payload bundleRD of
       None \<Rightarrow> u = s \<and> error bundleRD = Some e
     | Some bundle \<Rightarrow>
         \<exists>rd. (u, rd) \<in> set (findAllByHref this (href (bitstreams (links bundle)))
                               (Some (pageSizeOnly 1)) [] s) \<and>
           pageOf rd = None \<and> error rd = Some e)"
  using via_request_failure
    [OF thumbnailOfBundle_via_request assms(1) [unfolded getThumbnailFor_apply] assms(2)]
  unfolding firstOfPage_error .

theorem getThumbnailFor_failure_origin_witness:
  "(5, as_any ListPayload notFound) \<in> set (getThumbnailFor failingService () 0) \<and>
   error (as_any ListPayload notFound :: Payload RemoteData)
     = Some \<lparr>statusCode = 404, statusText = ''Not Found'', message = ''no such resource''\<rparr> \<and>
   (\<exists>s bundleRD.
     (s, bundleRD) \<in> set (findByItemAndName (bundleService failingService) () ''THUMBNAIL'' 0) \<and>
     (case payload bundleRD of
        None \<Rightarrow> 5 = s \<and> error bundleRD
          = Some \<lparr>statusCode = 404, statusText = ''Not Found'', message = ''no such resource''\<rparr>
      | Some bundle \<Rightarrow>
          \<exists>rd. (5, rd) \<in> set (findAllByHref failingService (href (bitstreams (links bundle)))
                                (Some (pageSizeOnly 1)) [] s) \<and>
            pageOf rd = None \<and> error rd
              = Some \<lparr>statusCode = 404, statusText = ''Not Found'', message = ''no such resource''\<rparr>))"
proof -
  have h1: "(5, as_any ListPayload notFound) \<in> set (getThumbnailFor failingService () 0)"
    by (simp add: failing_thumbnail)
  have h2: "error (as_any ListPayload notFound :: Payload RemoteData)
     = Some \<lparr>statusCode = 404, statusText = ''Not Found'', message = ''no such resource''\<rparr>"
    by (simp add: notFound_def)
  from getThumbnailFor_failure_origin [OF h1 h2] h1 h2 show ?thesis by blast
qed

section \<open>On a collaborator that paginates\<close>

text \<open>
  C5. The thumbnail is the first bitstream of the bundle: when the collaborator
  paginates, the last wrapper of the lookup carries a bundle and the list request for
  it succeeds in the end, the last wrapper \<^verbatim>\<open>getThumbnailFor\<close> delivers is a succeeded
  one with the first bitstream of the bundle in the order of the server, and with no
  payload when the bundle is empty.
\<close>

theorem getThumbnailFor_first_of_bundle:
  assumes "paged_by this contents"
    and "findByItemAndName (bundleService this) item ''THUMBNAIL'' t = pre @ [(s, bundleRD)]"
    and "payload bundleRD = Some b"
    and "findAllByHref this (href (bitstreams (links b))) (Some (pageSizeOnly 1)) [] s
           = answers @ [(u, bitstreamRD)]"
    and "state bitstreamRD = Success"
  shows "last (getThumbnailFor this item t) =
    (u, succeededWith (array_at (contents (href (bitstreams (links b)))) 0))"
proof -
  from assms(1,4,5) have
    "pageOf bitstreamRD = Some (take (nat 1) (contents (href (bitstreams (links b)))))"
    by (rule paged_byD)
  then have "firstOfPage bitstreamRD =
      succeededWith (array_at (contents (href (bitstreams (links b)))) 0)"
    by (simp add: firstOfPage_page array_at_take)
  with via_request_last [OF thumbnailOfBundle_via_request assms(3,4), where pre = pre] assms(2)
  show ?thesis by (simp add: getThumbnailFor_apply)
qed

theorem getThumbnailFor_first_of_bundle_witness:
  "paged_by demoService (\<lambda>h. [otherThumbnail, coverThumbnail]) \<and>
   findByItemAndName (bundleService demoService) () ''THUMBNAIL'' 0
     = [(0, requestPending)] @ [(2, succeeded (bundleAt ''/b/1''))] \<and>
   payload (succeeded (bundleAt ''/b/1'')) = Some (bundleAt ''/b/1'') \<and>
   findAllByHref demoService (href (bitstreams (links (bundleAt ''/b/1''))))
       (Some (pageSizeOnly 1)) [] 2
     = [(2, requestPending)] @ [(5, succeeded (listOf [otherThumbnail]))] \<and>
   state (succeeded (listOf [otherThumbnail])) = Success \<and>
   last (getThumbnailFor demoService () 0) = (5, succeededWith (Some otherThumbnail))"
proof -
  have h2: "findByItemAndName (bundleService demoService) () ''THUMBNAIL'' 0
     = [(0, requestPending)] @ [(2, succeeded (bundleAt ''/b/1''))]"
    by simp
  have h3: "payload (succeeded (bundleAt ''/b/1'')) = Some (bundleAt ''/b/1'')"
    by simp
  have h4: "findAllByHref demoService (href (bitstreams (links (bundleAt ''/b/1''))))
       (Some (pageSizeOnly 1)) [] 2
     = [(2, requestPending)] @ [(5, succeeded (listOf [otherThumbnail]))]"
    by simp
  have h5: "state (succeeded (listOf [otherThumbnail])) = Success"
    by simp
  from getThumbnailFor_first_of_bundle [OF demo_paged_by h2 h3 h4 h5] demo_paged_by h2 h3 h4 h5
  show ?thesis by simp
qed

section \<open>The declared type of the result\<close>

text \<open>
  C23. The declared type \<^verbatim>\<open>RemoteData<Bitstream>\<close> does not hold of everything
  \<^verbatim>\<open>getThumbnailFor\<close> delivers: there is a service, well-formed in every respect the
  development names, whose list answer is a succeeded wrapper with a list that has no
  page, and the operation hands this wrapper on. It is delivered as succeeded, and
  its payload is a list, not a bitstream.
\<close>

theorem getThumbnailFor_type_hole:
  "\<exists>this :: unit BitstreamDataService.
     wf_service this \<and> wf_wrappers this \<and> strict_wrappers this \<and> settling this \<and>
     (\<exists>u out. (u, out) \<in> set (getThumbnailFor this () 0) \<and> state out = Success \<and>
        typed theBitstream out = None \<and> typed theList out \<noteq> None)"
proof (intro exI conjI)
  show "(1, as_any ListPayload (succeeded pagelessList))
      \<in> set (getThumbnailFor pagelessService () 0)"
    by (simp add: getThumbnailFor_apply firstOfPage_no_page
        via_request_payload [OF thumbnailOfBundle_via_request])
qed (simp_all add: pageless_well_behaved)

end
