(* ===== verification/Get_Matching_Thumbnail.thy ===== *)
theory Get_Matching_Thumbnail
  imports Get_Thumbnail_For
begin

text \<open>
  \<^verbatim>\<open>getMatchingThumbnail(item, bitstreamInOriginal)\<close>: the thumbnail of one bitstream of
  an item, found by name. The operation looks the THUMBNAIL bundle up, requests all
  its bitstreams in one page, and projects each answer to the first bitstream whose
  name starts with the name of the original, or to a failure with status 404 when
  there is none (\<open>matchingOfPage\<close>).
\<close>

section \<open>Definitions\<close>

text \<open>\<^verbatim>\<open>new RemoteDataError(404, '404', 'No matching thumbnail found')\<close>\<close>

definition noMatchingThumbnailError :: RemoteDataError where
  "noMatchingThumbnailError =
     \<lparr>statusCode = 404, statusText = ''404'', message = ''No matching thumbnail found''\<rparr>"

text \<open>\<^verbatim>\<open>new RemoteData(false, false, false, new RemoteDataError(...), undefined)\<close>\<close>

definition noMatchingThumbnail :: "Payload RemoteData" where
  "noMatchingThumbnail =
     \<lparr>isRequestPending = False, isResponsePending = False, hasSucceeded = False,
      error = Some noMatchingThumbnailError, payload = None\<rparr>"

definition matchesOriginal :: "Bitstream \<Rightarrow> Bitstream \<Rightarrow> bool" where
  "matchesOriginal bitstreamInOriginal thumbnail =
     startsWith (name thumbnail) (name bitstreamInOriginal)"

definition matchingOfPage ::
  "Bitstream \<Rightarrow> Bitstream PaginatedList RemoteData \<Rightarrow> Payload RemoteData" where
  "matchingOfPage bitstreamInOriginal bitstreamRD =
     (if hasValue (payload bitstreamRD) \<and> hasValue (pageOf bitstreamRD)
      then (let matchingThumbnail =
                  Option.bind (pageOf bitstreamRD) (find (matchesOriginal bitstreamInOriginal))
            in if hasValue matchingThumbnail then succeededWith matchingThumbnail
               else noMatchingThumbnail)
      else as_any ListPayload bitstreamRD)"

definition matchingOfBundle ::
  "'item BitstreamDataService \<Rightarrow> Bitstream \<Rightarrow> Bundle RemoteData
     \<Rightarrow> Payload RemoteData Observable" where
  "matchingOfBundle this bitstreamInOriginal bundleRD =
     (if isNotEmpty no_length (payload bundleRD)
      then pipe (findAllByBundle this (the (payload bundleRD))
                   (Some (pageSizeOnly MAX_SAFE_INTEGER)) [])
             (map_rx (matchingOfPage bitstreamInOriginal))
      else from_array [as_any BundlePayload bundleRD])"

definition getMatchingThumbnail ::
  "'item BitstreamDataService \<Rightarrow> 'item \<Rightarrow> Bitstream \<Rightarrow> Payload RemoteData Observable" where
  "getMatchingThumbnail this item bitstreamInOriginal =
     pipe (findByItemAndName (bundleService this) item ''THUMBNAIL'')
       (switchMap (matchingOfBundle this bitstreamInOriginal))"

text \<open>The list request the operation makes for a bundle, and what it delivers of it.\<close>

definition matchInAll ::
  "'item BitstreamDataService \<Rightarrow> Bitstream \<Rightarrow> Bundle \<Rightarrow> Payload RemoteData Observable" where
  "matchInAll this bitstreamInOriginal bundle =
     map_rx (matchingOfPage bitstreamInOriginal)
       (findAllByHref this (href (bitstreams (links bundle)))
          (Some (pageSizeOnly MAX_SAFE_INTEGER)) [])"

section \<open>The callbacks, branch by branch\<close>

lemma noMatchingThumbnail_sel [simp]:
  "isRequestPending noMatchingThumbnail = False"
  "isResponsePending noMatchingThumbnail = False"
  "hasSucceeded noMatchingThumbnail = False"
  "payload noMatchingThumbnail = None"
  "error noMatchingThumbnail =
     Some \<lparr>statusCode = 404, statusText = ''404'', message = ''No matching thumbnail found''\<rparr>"
  by (simp_all add: noMatchingThumbnail_def noMatchingThumbnailError_def)

lemma noMatchingThumbnail_state [simp]:
  "state noMatchingThumbnail = Failed" "wf_RemoteData noMatchingThumbnail"
  "strict noMatchingThumbnail" "succeededWith x \<noteq> noMatchingThumbnail"
  by (simp_all add: rd_defs noMatchingThumbnail_def succeededWith_def)

lemma matchingOfPage_page:
  "pageOf rd = Some elements \<Longrightarrow>
   matchingOfPage bitstreamInOriginal rd =
     (case find (matchesOriginal bitstreamInOriginal) elements of
        Some thumbnail \<Rightarrow> succeededWith (Some thumbnail)
      | None \<Rightarrow> noMatchingThumbnail)"
  by (simp add: matchingOfPage_def split: option.split)

lemma matchingOfPage_no_page:
  "pageOf rd = None \<Longrightarrow> matchingOfPage bitstreamInOriginal rd = as_any ListPayload rd"
  by (simp add: matchingOfPage_def)

lemma matchingOfBundle_via_bundle:
  "via_bundle (matchInAll this bitstreamInOriginal) (matchingOfBundle this bitstreamInOriginal)"
  by (rule via_bundleI) (simp_all add: matchingOfBundle_def matchInAll_def findAllByBundle_def)

lemma matchingOfBundle_via_request:
  "via_request this (matchingOfPage bitstreamInOriginal) (Some (pageSizeOnly MAX_SAFE_INTEGER)) []
     (matchingOfBundle this bitstreamInOriginal)"
  by (rule via_requestI [OF matchingOfBundle_via_bundle matchInAll_def])

lemma getMatchingThumbnail_apply:
  "getMatchingThumbnail this item bitstreamInOriginal t =
     switch_trace (matchingOfBundle this bitstreamInOriginal)
       (findByItemAndName (bundleService this) item ''THUMBNAIL'' t)"
  by (simp add: getMatchingThumbnail_def)

lemma matchingOfPage_wf: "wf_RemoteData rd \<Longrightarrow> wf_RemoteData (matchingOfPage bitstreamInOriginal rd)"
  by (cases "pageOf rd")
    (simp_all add: matchingOfPage_page matchingOfPage_no_page split: option.split)

lemma matchingOfPage_loading:
  "strict rd \<Longrightarrow> isLoading (matchingOfPage bitstreamInOriginal rd) = isLoading rd"
  by (cases "pageOf rd")
    (auto simp: matchingOfPage_page matchingOfPage_no_page isLoading_def [of noMatchingThumbnail]
      dest: strict_page_settled split: option.split)

lemma matchingOfPage_settled:
  "\<not> isLoading rd \<Longrightarrow> \<not> isLoading (matchingOfPage bitstreamInOriginal rd)"
  by (cases "pageOf rd")
    (simp_all add: matchingOfPage_page matchingOfPage_no_page isLoading_def [of noMatchingThumbnail]
      split: option.split)

lemma demo_matching:
  "getMatchingThumbnail demoService () original 0 =
     [(0, as_any BundlePayload requestPending), (2, as_any ListPayload requestPending),
      (5, succeededWith (Some coverThumbnail))]"
  by (simp add: getMatchingThumbnail_apply matchInAll_def matchingOfPage_page
      matchingOfPage_no_page matchesOriginal_def startsWith_def
      otherThumbnail_def coverThumbnail_def original_def
      via_bundle_payload [OF matchingOfBundle_via_bundle]
      via_bundle_no_payload [OF matchingOfBundle_via_bundle])

section \<open>Properties of the projection\<close>

text \<open>
  C2. When the page of an answer holds a bitstream whose name starts with the name of
  the original, \<^verbatim>\<open>getMatchingThumbnail\<close> makes of the answer a settled, succeeded
  wrapper whose payload is the first such bitstream in the order of the page.
\<close>

theorem matchingOfPage_first_match:
  assumes "pageOf bitstreamRD = Some (before @ thumbnail # after)"
    and "startsWith (name thumbnail) (name bitstreamInOriginal)"
    and "\<forall>b \<in> set before. \<not> startsWith (name b) (name bitstreamInOriginal)"
  shows "matchingOfPage bitstreamInOriginal bitstreamRD = succeededWith (Some thumbnail)"
proof -
  from assms(2,3) have
    "find (matchesOriginal bitstreamInOriginal) (before @ thumbnail # after) = Some thumbnail"
    by (induction before) (simp_all add: matchesOriginal_def)
  with assms(1) show ?thesis by (simp add: matchingOfPage_page)
qed

theorem matchingOfPage_first_match_witness:
  "pageOf (succeeded (listOf ([otherThumbnail] @ coverThumbnail # [coverThumbnail\<lparr>sizeBytes := 7\<rparr>])))
     = Some ([otherThumbnail] @ coverThumbnail # [coverThumbnail\<lparr>sizeBytes := 7\<rparr>]) \<and>
   startsWith (name coverThumbnail) (name original) \<and>
   \<not> startsWith (name otherThumbnail) (name original) \<and>
   matchingOfPage original
     (succeeded (listOf ([otherThumbnail] @ coverThumbnail # [coverThumbnail\<lparr>sizeBytes := 7\<rparr>])))
     = succeededWith (Some coverThumbnail)"
proof -
  have h1: "pageOf (succeeded (listOf ([otherThumbnail] @ coverThumbnail # [coverThumbnail\<lparr>sizeBytes := 7\<rparr>])))
     = Some ([otherThumbnail] @ coverThumbnail # [coverThumbnail\<lparr>sizeBytes := 7\<rparr>])"
    by simp
  have h2: "startsWith (name coverThumbnail) (name original)"
    by (simp add: startsWith_def coverThumbnail_def original_def)
  have h3: "\<not> startsWith (name otherThumbnail) (name original)"
    by (simp add: startsWith_def otherThumbnail_def original_def)
  then have "\<forall>b \<in> set [otherThumbnail]. \<not> startsWith (name b) (name original)"
    by simp
  from matchingOfPage_first_match [OF h1 h2 this] h1 h2 h3 show ?thesis by blast
qed

text \<open>
  C4. When no bitstream of the page has a name that starts with the name of the
  original, the answer becomes a settled failure: status code 404, status text
  \<^verbatim>\<open>404\<close>, message \<^verbatim>\<open>No matching thumbnail found\<close>, and no payload.
\<close>

theorem matchingOfPage_no_match:
  assumes "pageOf bitstreamRD = Some elements"
    and "\<forall>b \<in> set elements. \<not> startsWith (name b) (name bitstreamInOriginal)"
  shows "state (matchingOfPage bitstreamInOriginal bitstreamRD) = Failed \<and>
    payload (matchingOfPage bitstreamInOriginal bitstreamRD) = None \<and>
    error (matchingOfPage bitstreamInOriginal bitstreamRD) =
      Some \<lparr>statusCode = 404, statusText = ''404'', message = ''No matching thumbnail found''\<rparr>"
proof -
  from assms(2) have "find (matchesOriginal bitstreamInOriginal) elements = None"
    by (simp add: find_None_iff matchesOriginal_def)
  with assms(1) show ?thesis by (simp add: matchingOfPage_page)
qed

theorem matchingOfPage_no_match_witness:
  "pageOf (succeeded (listOf [otherThumbnail])) = Some [otherThumbnail] \<and>
   \<not> startsWith (name otherThumbnail) (name original) \<and>
   state (matchingOfPage original (succeeded (listOf [otherThumbnail]))) = Failed \<and>
   payload (matchingOfPage original (succeeded (listOf [otherThumbnail]))) = None \<and>
   error (matchingOfPage original (succeeded (listOf [otherThumbnail]))) =
     Some \<lparr>statusCode = 404, statusText = ''404'', message = ''No matching thumbnail found''\<rparr>"
proof -
  have h1: "pageOf (succeeded (listOf [otherThumbnail])) = Some [otherThumbnail]"
    by simp
  have h2: "\<not> startsWith (name otherThumbnail) (name original)"
    by (simp add: startsWith_def otherThumbnail_def original_def)
  then have "\<forall>b \<in> set [otherThumbnail]. \<not> startsWith (name b) (name original)"
    by simp
  from matchingOfPage_no_match [OF h1 this] h1 h2 show ?thesis by blast
qed

text \<open>
  A bitstream the projection hands out is a bitstream of the page it was looked for in,
  and its name starts with the name of the original.
\<close>

lemma matchingOfPage_found:
  assumes "pageOf bitstreamRD = Some elements"
    and "payload (matchingOfPage bitstreamInOriginal bitstreamRD) = Some p"
  shows "\<exists>thumbnail \<in> set elements.
    p = BitstreamPayload thumbnail \<and> startsWith (name thumbnail) (name bitstreamInOriginal)"
proof (cases "find (matchesOriginal bitstreamInOriginal) elements")
  case None
  with assms show ?thesis by (simp add: matchingOfPage_page)
next
  case (Some thumbnail)
  then have "thumbnail \<in> set elements \<and> matchesOriginal bitstreamInOriginal thumbnail"
    by (rule find_SomeD)
  with assms Some show ?thesis by (auto simp: matchingOfPage_page matchesOriginal_def)
qed

lemma matchingOfPage_class:
  assumes "hasValue (payload rd) \<longrightarrow> hasValue (pageOf rd)"
  shows "case payload (matchingOfPage bitstreamInOriginal rd) of
      Some p \<Rightarrow> \<exists>thumbnail. p = BitstreamPayload thumbnail \<and>
        startsWith (name thumbnail) (name bitstreamInOriginal)
    | None \<Rightarrow> True"
proof (cases "pageOf rd")
  case None
  with assms have "payload rd = None" by (simp add: hasValue_iff)
  with None show ?thesis by (simp add: matchingOfPage_no_page)
next
  case (Some elements)
  then show ?thesis
    by (auto dest: matchingOfPage_found split: option.split)
qed

lemma matchingOfPage_typed:
  "hasValue (payload rd) \<longrightarrow> hasValue (pageOf rd) \<Longrightarrow>
   typed theBitstream (matchingOfPage bitstreamInOriginal rd) \<noteq> None"
  unfolding typed_Some_iff using matchingOfPage_class [of rd bitstreamInOriginal]
  by (auto split: option.splits)

section \<open>Properties of the stream\<close>

text \<open>
  C7. Every wrapper \<^verbatim>\<open>getMatchingThumbnail\<close> delivers stems from the latest wrapper of
  the THUMBNAIL bundle lookup: it is that wrapper itself when it has no payload, and
  otherwise the projection of an answer to the list request for the bitstreams link of
  its bundle, with the largest safe integer as page size and no links to follow, made
  when that wrapper arrived.
\<close>

theorem getMatchingThumbnail_origin:
  assumes "(u, out) \<in> set (getMatchingThumbnail this item bitstreamInOriginal t)"
  shows "\<exists>pre s bundleRD post.
    findByItemAndName (bundleService this) item ''THUMBNAIL'' t = pre @ (s, bundleRD) # post \<and>
    (post = [] \<or> u = s \<or> u < fst (hd post)) \<and>
    (case payload bundleRD of
       Some bundle \<Rightarrow>
         \<exists>rd. (u, rd) \<in> set (findAllByHref this (href (bitstreams (links bundle)))
                               (Some (pageSizeOnly 9007199254740991)) [] s) \<and>
              out = matchingOfPage bitstreamInOriginal rd
     | None \<Rightarrow> u = s \<and> out = as_any BundlePayload bundleRD)"
proof -
  from assms have "(u, out) \<in> set (switch_trace (matchingOfBundle this bitstreamInOriginal)
      (findByItemAndName (bundleService this) item ''THUMBNAIL'' t))"
    by (simp add: getMatchingThumbnail_apply)
  with matchingOfBundle_via_request [unfolded MAX_SAFE_INTEGER_value] show ?thesis
    by (rule via_request_origin)
qed

theorem getMatchingThumbnail_origin_witness:
  "(5, succeededWith (Some coverThumbnail)) \<in> set (getMatchingThumbnail demoService () original 0) \<and>
   (\<exists>pre s bundleRD post.
     findByItemAndName (bundleService demoService) () ''THUMBNAIL'' 0 = pre @ (s, bundleRD) # post \<and>
     (post = [] \<or> 5 = s \<or> 5 < fst (hd post)) \<and>
     (case payload bundleRD of
        Some bundle \<Rightarrow>
          \<exists>rd. (5, rd) \<in> set (findAllByHref demoService (href (bitstreams (links bundle)))
                                (Some (pageSizeOnly 9007199254740991)) [] s) \<and>
               succeededWith (Some coverThumbnail) = matchingOfPage original rd
      | None \<Rightarrow> 5 = s \<and> succeededWith (Some coverThumbnail) = as_any BundlePayload bundleRD))"
proof -
  have h: "(5, succeededWith (Some coverThumbnail))
      \<in> set (getMatchingThumbnail demoService () original 0)"
    by (simp add: demo_matching)
  from getMatchingThumbnail_origin [OF h] h show ?thesis by (rule conjI [rotated])
qed

text \<open>
  C9. No answer is dropped while its bundle is the latest: an answer to the list
  request made for the bundle of a lookup wrapper is delivered, projected, when it
  comes in the frame of that wrapper or before the next lookup wrapper.
\<close>

theorem getMatchingThumbnail_delivers:
  assumes "wf_service this"
    and "findByItemAndName (bundleService this) item ''THUMBNAIL'' t = pre @ (s, bundleRD) # post"
    and "payload bundleRD = Some b"
    and "(u, rd) \<in> set (findAllByHref this (href (bitstreams (links b)))
                         (Some (pageSizeOnly MAX_SAFE_INTEGER)) [] s)"
    and "post = [] \<or> u = s \<or> u < fst (hd post)"
  shows "(u, matchingOfPage bitstreamInOriginal rd)
    \<in> set (getMatchingThumbnail this item bitstreamInOriginal t)"
  unfolding getMatchingThumbnail_apply
  using matchingOfBundle_via_request assms by (rule via_request_delivers)

theorem getMatchingThumbnail_delivers_witness:
  "wf_service revalidatingService \<and>
   findByItemAndName (bundleService revalidatingService) () ''THUMBNAIL'' 0
     = [] @ (0, succeeded (bundleAt ''/b/0'')) # [(2, succeeded (bundleAt ''/b/1''))] \<and>
   payload (succeeded (bundleAt ''/b/0'')) = Some (bundleAt ''/b/0'') \<and>
   (0, requestPending) \<in> set (findAllByHref revalidatingService
        (href (bitstreams (links (bundleAt ''/b/0'')))) (Some (pageSizeOnly MAX_SAFE_INTEGER)) [] 0) \<and>
   (0 :: nat) < fst (hd [(2 :: nat, succeeded (bundleAt ''/b/1''))]) \<and>
   (0, matchingOfPage original requestPending)
     \<in> set (getMatchingThumbnail revalidatingService () original 0)"
proof -
  have h1: "findByItemAndName (bundleService revalidatingService) () ''THUMBNAIL'' 0
     = [] @ (0, succeeded (bundleAt ''/b/0'')) # [(2, succeeded (bundleAt ''/b/1''))]"
    by simp
  have h2: "payload (succeeded (bundleAt ''/b/0'')) = Some (bundleAt ''/b/0'')"
    by simp
  have h3: "(0, requestPending) \<in> set (findAllByHref revalidatingService
        (href (bitstreams (links (bundleAt ''/b/0'')))) (Some (pageSizeOnly MAX_SAFE_INTEGER)) [] 0)"
    by simp
  have h4: "(0 :: nat) < fst (hd [(2 :: nat, succeeded (bundleAt ''/b/1''))])"
    by simp
  then have h4': "[(2 :: nat, succeeded (bundleAt ''/b/1''))] = [] \<or> (0 :: nat) = 0 \<or>
      (0 :: nat) < fst (hd [(2 :: nat, succeeded (bundleAt ''/b/1''))])"
    by simp
  from getMatchingThumbnail_delivers [OF wf_revalidatingService h1 h2 h3 h4', of original]
    wf_revalidatingService h1 h2 h3 h4
  show ?thesis by blast
qed

text \<open>
  C11. The outcome of \<^verbatim>\<open>getMatchingThumbnail\<close> without a match: when the last wrapper of
  the lookup carries a bundle and the page of the last answer to the list request for
  it holds no bitstream whose name starts with the name of the original, the last
  wrapper delivered is the failure 404, in the frame of that answer.
\<close>

theorem getMatchingThumbnail_outcome_no_match:
  assumes "findByItemAndName (bundleService this) item ''THUMBNAIL'' t = pre @ [(s, bundleRD)]"
    and "payload bundleRD = Some b"
    and "findAllByHref this (href (bitstreams (links b))) (Some (pageSizeOnly MAX_SAFE_INTEGER)) [] s
           = answers @ [(u, bitstreamRD)]"
    and "pageOf bitstreamRD = Some elements"
    and "list_all (\<lambda>thumbnail. \<not> startsWith (name thumbnail) (name bitstreamInOriginal)) elements"
  shows "last (getMatchingThumbnail this item bitstreamInOriginal t) = (u, noMatchingThumbnail) \<and>
    state noMatchingThumbnail = Failed \<and>
    map_option statusCode (error noMatchingThumbnail) = Some 404"
proof -
  from assms(5) have "find (matchesOriginal bitstreamInOriginal) elements = None"
    by (simp add: find_None_iff matchesOriginal_def list_all_iff)
  with assms(4) have "matchingOfPage bitstreamInOriginal bitstreamRD = noMatchingThumbnail"
    by (simp add: matchingOfPage_page)
  with via_request_last [OF matchingOfBundle_via_request assms(2,3), where pre = pre] assms(1)
  show ?thesis by (simp add: getMatchingThumbnail_apply)
qed

theorem getMatchingThumbnail_outcome_no_match_witness:
  "findByItemAndName (bundleService revalidatingService) () ''THUMBNAIL'' 0
     = [(0, succeeded (bundleAt ''/b/0''))] @ [(2, succeeded (bundleAt ''/b/1''))] \<and>
   payload (succeeded (bundleAt ''/b/1'')) = Some (bundleAt ''/b/1'') \<and>
   findAllByHref revalidatingService (href (bitstreams (links (bundleAt ''/b/1''))))
       (Some (pageSizeOnly MAX_SAFE_INTEGER)) [] 2
     = [] @ [(3, succeeded (listOf [coverThumbnail]))] \<and>
   pageOf (succeeded (listOf [coverThumbnail])) = Some [coverThumbnail] \<and>
   list_all (\<lambda>thumbnail. \<not> startsWith (name thumbnail) (name otherThumbnail)) [coverThumbnail] \<and>
   last (getMatchingThumbnail revalidatingService () otherThumbnail 0) = (3, noMatchingThumbnail) \<and>
   state noMatchingThumbnail = Failed \<and>
   map_option statusCode (error noMatchingThumbnail) = Some 404"
proof -
  have h1: "findByItemAndName (bundleService revalidatingService) () ''THUMBNAIL'' 0
     = [(0, succeeded (bundleAt ''/b/0''))] @ [(2, succeeded (bundleAt ''/b/1''))]"
    by simp
  have h2: "payload (succeeded (bundleAt ''/b/1'')) = Some (bundleAt ''/b/1'')"
    by simp
  have h3: "findAllByHref revalidatingService (href (bitstreams (links (bundleAt ''/b/1''))))
       (Some (pageSizeOnly MAX_SAFE_INTEGER)) [] 2
     = [] @ [(3, succeeded (listOf [coverThumbnail]))]"
    by simp
  have h4: "pageOf (succeeded (listOf [coverThumbnail])) = Some [coverThumbnail]"
    by simp
  have h5: "list_all (\<lambda>thumbnail. \<not> startsWith (name thumbnail) (name otherThumbnail))
      [coverThumbnail]"
    by (simp add: startsWith_def otherThumbnail_def coverThumbnail_def)
  from getMatchingThumbnail_outcome_no_match [OF h1 h2 h3 h4 h5] h1 h2 h3 h4 h5
  show ?thesis by blast
qed

text \<open>
  C17. What \<^verbatim>\<open>getMatchingThumbnail\<close> hands out as a thumbnail matches: when every list
  the collaborator delivers has a page, the payload of a delivered wrapper is a
  bitstream whose name starts with the name of the original, or absent. It is never a
  list or a bundle, and never a bitstream that does not match.
\<close>

theorem getMatchingThumbnail_payload_sound:
  assumes "paged_lists this"
    and "(u, out) \<in> set (getMatchingThumbnail this item bitstreamInOriginal t)"
  shows "case payload out of
      Some p \<Rightarrow> \<exists>thumbnail. p = BitstreamPayload thumbnail \<and>
        startsWith (name thumbnail) (name bitstreamInOriginal)
    | None \<Rightarrow> True"
proof -
  from assms(2) have "(u, out) \<in> set (switch_trace (matchingOfBundle this bitstreamInOriginal)
      (findByItemAndName (bundleService this) item ''THUMBNAIL'' t))"
    by (simp add: getMatchingThumbnail_apply)
  with matchingOfBundle_via_request assms(1) [unfolded paged_lists_def] show ?thesis
    by (rule via_request_every) (simp_all add: matchingOfPage_class)
qed

theorem getMatchingThumbnail_payload_sound_witness:
  "paged_lists demoService \<and>
   (5, succeededWith (Some coverThumbnail)) \<in> set (getMatchingThumbnail demoService () original 0) \<and>
   payload (succeededWith (Some coverThumbnail)) = Some (BitstreamPayload coverThumbnail) \<and>
   startsWith (name coverThumbnail) (name original)"
proof -
  have h: "(5, succeededWith (Some coverThumbnail))
      \<in> set (getMatchingThumbnail demoService () original 0)"
    by (simp add: demo_matching)
  from getMatchingThumbnail_payload_sound [OF demo_paged_lists h] demo_paged_lists h
  show ?thesis by simp
qed

section \<open>Where a failure stems from\<close>

lemma matchingOfPage_error:
  "error (matchingOfPage bitstreamInOriginal rd) = Some e \<longleftrightarrow>
     (case pageOf rd of
        None \<Rightarrow> error rd = Some e
      | Some elements \<Rightarrow>
          find (matchesOriginal bitstreamInOriginal) elements = None \<and>
          e = \<lparr>statusCode = 404, statusText = ''404'', message = ''No matching thumbnail found''\<rparr>)"
  by (cases "pageOf rd")
    (auto simp: matchingOfPage_page matchingOfPage_no_page split: option.split)

lemma failing_matching:
  "getMatchingThumbnail failingService () original 0 =
     [(0, as_any BundlePayload requestPending), (2, as_any ListPayload requestPending),
      (5, as_any ListPayload notFound)]"
  by (simp add: getMatchingThumbnail_apply matchInAll_def matchingOfPage_no_page
      via_bundle_payload [OF matchingOfBundle_via_bundle]
      via_bundle_no_payload [OF matchingOfBundle_via_bundle])

text \<open>
  C18. \<^verbatim>\<open>getMatchingThumbnail\<close> adds one failure of its own and passes every other on
  unchanged: the error of a delivered wrapper is the error of a wrapper of the lookup
  that has no payload, or the error of an answer without a page to the list request
  made for a bundle of the lookup, or it is the error 404 ``No matching thumbnail
  found'', and then the answer it was made of has a page in which no name starts with
  the name of the original.
\<close>

theorem getMatchingThumbnail_failure_origin:
  assumes "(u, out) \<in> set (getMatchingThumbnail this item bitstreamInOriginal t)"
    and "error out = Some e"
  shows "\<exists>s bundleRD.
    (s, bundleRD) \<in> set (findByItemAndName (bundleService this) item ''THUMBNAIL'' t) \<and>
    (case payload bundleRD of
       None \<Rightarrow> u = s \<and> error bundleRD = Some e
     | Some bundle \<Rightarrow>
         \<exists>rd. (u, rd) \<in> set (findAllByHref this (href (bitstreams (links bundle)))
                               (Some (pageSizeOnly MAX_SAFE_INTEGER)) [] s) \<and>
           (case pageOf rd of
              None \<Rightarrow> error rd = Some e
            | Some elements \<Rightarrow>
                find (matchesOriginal bitstreamInOriginal) elements = None \<and>
                e = \<lparr>statusCode = 404, statusText = ''404'',
                      message = ''No matching thumbnail found''\<rparr>))"
  using via_request_failure
    [OF matchingOfBundle_via_request assms(1) [unfolded getMatchingThumbnail_apply] assms(2)]
  unfolding matchingOfPage_error .

theorem getMatchingThumbnail_failure_origin_witness:
  "(5, as_any ListPayload notFound) \<in> set (getMatchingThumbnail failingService () original 0) \<and>
   error (as_any ListPayload notFound :: Payload RemoteData)
     = Some \<lparr>statusCode = 404, statusText = ''Not Found'', message = ''no such resource''\<rparr> \<and>
   (\<exists>s bundleRD.
     (s, bundleRD) \<in> set (findByItemAndName (bundleService failingService) () ''THUMBNAIL'' 0) \<and>
     (case payload bundleRD of
        None \<Rightarrow> 5 = s \<and> error bundleRD
          = Some \<lparr>statusCode = 404, statusText = ''Not Found'', message = ''no such resource''\<rparr>
      | Some bundle \<Rightarrow>
          \<exists>rd. (5, rd) \<in> set (findAllByHref failingService (href (bitstreams (links bundle)))
                                (Some (pageSizeOnly MAX_SAFE_INTEGER)) [] s) \<and>
            (case pageOf rd of
               None \<Rightarrow> error rd
                 = Some \<lparr>statusCode = 404, statusText = ''Not Found'', message = ''no such resource''\<rparr>
             | Some elements \<Rightarrow>
                 find (matchesOriginal original) elements = None \<and>
                 \<lparr>statusCode = 404, statusText = ''Not Found'', message = ''no such resource''\<rparr>
                   = \<lparr>statusCode = 404, statusText = ''404'',
                       message = ''No matching thumbnail found''\<rparr>)))"
proof -
  have h1: "(5, as_any ListPayload notFound)
      \<in> set (getMatchingThumbnail failingService () original 0)"
    by (simp add: failing_matching)
  have h2: "error (as_any ListPayload notFound :: Payload RemoteData)
     = Some \<lparr>statusCode = 404, statusText = ''Not Found'', message = ''no such resource''\<rparr>"
    by (simp add: notFound_def)
  from getMatchingThumbnail_failure_origin [OF h1 h2] h1 h2 show ?thesis by blast
qed

section \<open>On a collaborator that paginates\<close>

text \<open>
  C6. The search covers the whole bundle: when the collaborator paginates, the bundle
  has no more bitstreams than the largest safe integer, the last wrapper of the lookup
  carries the bundle and the list request for it succeeds in the end, the last wrapper
  \<^verbatim>\<open>getMatchingThumbnail\<close> delivers is a succeeded one with the first bitstream of the
  bundle, in the order of the server, whose name starts with the name of the original,
  and the failure 404 when the bundle has none.
\<close>

theorem getMatchingThumbnail_complete:
  assumes "paged_by this contents"
    and "findByItemAndName (bundleService this) item ''THUMBNAIL'' t = pre @ [(s, bundleRD)]"
    and "payload bundleRD = Some b"
    and "findAllByHref this (href (bitstreams (links b))) (Some (pageSizeOnly MAX_SAFE_INTEGER)) [] s
           = answers @ [(u, bitstreamRD)]"
    and "state bitstreamRD = Success"
    and "length (contents (href (bitstreams (links b)))) \<le> 9007199254740991"
  shows "last (getMatchingThumbnail this item bitstreamInOriginal t) =
    (u, case find (matchesOriginal bitstreamInOriginal) (contents (href (bitstreams (links b)))) of
          Some thumbnail \<Rightarrow> succeededWith (Some thumbnail)
        | None \<Rightarrow> noMatchingThumbnail)"
proof -
  from assms(1,4,5) have "pageOf bitstreamRD =
      Some (take (nat MAX_SAFE_INTEGER) (contents (href (bitstreams (links b)))))"
    by (rule paged_byD)
  with assms(6) have "pageOf bitstreamRD = Some (contents (href (bitstreams (links b))))"
    by simp
  then have "matchingOfPage bitstreamInOriginal bitstreamRD =
      (case find (matchesOriginal bitstreamInOriginal) (contents (href (bitstreams (links b)))) of
         Some thumbnail \<Rightarrow> succeededWith (Some thumbnail)
       | None \<Rightarrow> noMatchingThumbnail)"
    by (simp add: matchingOfPage_page split: option.split)
  with via_request_last [OF matchingOfBundle_via_request assms(3,4), where pre = pre] assms(2)
  show ?thesis by (simp add: getMatchingThumbnail_apply)
qed

theorem getMatchingThumbnail_complete_witness:
  "paged_by demoService (\<lambda>h. [otherThumbnail, coverThumbnail]) \<and>
   findByItemAndName (bundleService demoService) () ''THUMBNAIL'' 0
     = [(0, requestPending)] @ [(2, succeeded (bundleAt ''/b/1''))] \<and>
   payload (succeeded (bundleAt ''/b/1'')) = Some (bundleAt ''/b/1'') \<and>
   findAllByHref demoService (href (bitstreams (links (bundleAt ''/b/1''))))
       (Some (pageSizeOnly MAX_SAFE_INTEGER)) [] 2
     = [(2, requestPending)] @ [(5, succeeded (listOf [otherThumbnail, coverThumbnail]))] \<and>
   state (succeeded (listOf [otherThumbnail, coverThumbnail])) = Success \<and>
   length [otherThumbnail, coverThumbnail] \<le> 9007199254740991 \<and>
   last (getMatchingThumbnail demoService () original 0) = (5, succeededWith (Some coverThumbnail))"
proof -
  have h2: "findByItemAndName (bundleService demoService) () ''THUMBNAIL'' 0
     = [(0, requestPending)] @ [(2, succeeded (bundleAt ''/b/1''))]"
    by simp
  have h3: "payload (succeeded (bundleAt ''/b/1'')) = Some (bundleAt ''/b/1'')"
    by simp
  have h4: "findAllByHref demoService (href (bitstreams (links (bundleAt ''/b/1''))))
       (Some (pageSizeOnly MAX_SAFE_INTEGER)) [] 2
     = [(2, requestPending)] @ [(5, succeeded (listOf [otherThumbnail, coverThumbnail]))]"
    by simp
  have h5: "state (succeeded (listOf [otherThumbnail, coverThumbnail])) = Success"
    by simp
  have h6: "length [otherThumbnail, coverThumbnail] \<le> 9007199254740991"
    by simp
  have found: "find (matchesOriginal original) [otherThumbnail, coverThumbnail] = Some coverThumbnail"
    by (simp add: matchesOriginal_def startsWith_def otherThumbnail_def coverThumbnail_def
        original_def)
  from getMatchingThumbnail_complete [OF demo_paged_by h2 h3 h4 h5 h6, of original] found
    demo_paged_by h2 h3 h4 h5 h6
  show ?thesis by simp
qed

text \<open>
  C22. The page size \<^verbatim>\<open>getMatchingThumbnail\<close> asks for is a bound on what it searches: a
  succeeded answer of a paginating collaborator to its list request carries the whole
  collection exactly when the collection has at most 9007199254740991 elements, and a
  match found in the page is a match in the collection in any case.
\<close>

theorem getMatchingThumbnail_page_bound:
  assumes "paged_by this contents"
    and "(u, bitstreamRD) \<in> set (findAllByHref this h (Some (pageSizeOnly MAX_SAFE_INTEGER)) [] s)"
    and "state bitstreamRD = Success"
  shows "(pageOf bitstreamRD = Some (contents h) \<longleftrightarrow> length (contents h) \<le> 9007199254740991) \<and>
    (case payload (matchingOfPage bitstreamInOriginal bitstreamRD) of
       Some p \<Rightarrow> map_option BitstreamPayload (find (matchesOriginal bitstreamInOriginal) (contents h))
                  = Some p
     | None \<Rightarrow> True)"
proof -
  from assms have page: "pageOf bitstreamRD = Some (take (nat MAX_SAFE_INTEGER) (contents h))"
    by (rule paged_by_member)
  then have "pageOf bitstreamRD = Some (contents h) \<longleftrightarrow> length (contents h) \<le> 9007199254740991"
    by (simp add: take_all_iff MAX_SAFE_INTEGER_def)
  moreover from page have
    "case payload (matchingOfPage bitstreamInOriginal bitstreamRD) of
       Some p \<Rightarrow> map_option BitstreamPayload (find (matchesOriginal bitstreamInOriginal) (contents h))
                  = Some p
     | None \<Rightarrow> True"
    by (auto simp: matchingOfPage_page dest: find_take_Some split: option.split)
  ultimately show ?thesis by simp
qed

theorem getMatchingThumbnail_page_bound_witness:
  "paged_by demoService (\<lambda>h. [otherThumbnail, coverThumbnail]) \<and>
   (5, succeeded (listOf [otherThumbnail, coverThumbnail]))
     \<in> set (findAllByHref demoService ''/b/1/bitstreams'' (Some (pageSizeOnly MAX_SAFE_INTEGER)) [] 2) \<and>
   state (succeeded (listOf [otherThumbnail, coverThumbnail])) = Success \<and>
   pageOf (succeeded (listOf [otherThumbnail, coverThumbnail])) = Some [otherThumbnail, coverThumbnail] \<and>
   length [otherThumbnail, coverThumbnail] \<le> 9007199254740991 \<and>
   map_option BitstreamPayload (find (matchesOriginal original) [otherThumbnail, coverThumbnail])
     = payload (matchingOfPage original (succeeded (listOf [otherThumbnail, coverThumbnail])))"
proof -
  have h2: "(5, succeeded (listOf [otherThumbnail, coverThumbnail]))
     \<in> set (findAllByHref demoService ''/b/1/bitstreams'' (Some (pageSizeOnly MAX_SAFE_INTEGER)) [] 2)"
    by simp
  have h3: "state (succeeded (listOf [otherThumbnail, coverThumbnail])) = Success"
    by simp
  have found: "find (matchesOriginal original) [otherThumbnail, coverThumbnail] = Some coverThumbnail"
    by (simp add: matchesOriginal_def startsWith_def otherThumbnail_def coverThumbnail_def
        original_def)
  from getMatchingThumbnail_page_bound [OF demo_paged_by h2 h3, of original] found
    demo_paged_by h2 h3
  show ?thesis by (simp add: matchingOfPage_page)
qed

end
