(* ===== verification/Find_All_By_Item_And_Bundle_Name.thy ===== *)
theory Find_All_By_Item_And_Bundle_Name
  imports Fixtures
begin

text \<open>
  \<^verbatim>\<open>findAllByItemAndBundleName(item, bundleName, options, ...linksToFollow)\<close>: the
  bitstreams of the bundle of a given name. The operation looks the bundle up and
  switches to the list request on the bundle each lookup wrapper carries, with the
  options and links of the caller; the answers are handed on as they are.
\<close>

section \<open>Definitions\<close>

text \<open>
  The source hands the list wrappers on untouched; the model casts them into
  \<open>Payload\<close>, the type of its result, which changes no field.
\<close>

definition bitstreamsOfBundle ::
  "'item BitstreamDataService \<Rightarrow> FindListOptions option \<Rightarrow> FollowLinkConfig list
     \<Rightarrow> Bundle RemoteData \<Rightarrow> Payload RemoteData Observable" where
  "bitstreamsOfBundle this options links_to_follow bundleRD =
     (if hasValue (payload bundleRD)
      then map_rx (as_any ListPayload)
             (findAllByBundle this (the (payload bundleRD)) options links_to_follow)
      else from_array [as_any BundlePayload bundleRD])"

definition findAllByItemAndBundleName ::
  "'item BitstreamDataService \<Rightarrow> 'item \<Rightarrow> string \<Rightarrow> FindListOptions option
     \<Rightarrow> FollowLinkConfig list \<Rightarrow> Payload RemoteData Observable" where
  "findAllByItemAndBundleName this item bundleName options links_to_follow =
     pipe (findByItemAndName (bundleService this) item bundleName)
       (switchMap (bitstreamsOfBundle this options links_to_follow))"

text \<open>The list request the operation makes for a bundle.\<close>

definition listed ::
  "'item BitstreamDataService \<Rightarrow> FindListOptions option \<Rightarrow> FollowLinkConfig list \<Rightarrow> Bundle
     \<Rightarrow> Payload RemoteData Observable" where
  "listed this options links_to_follow bundle =
     map_rx (as_any ListPayload)
       (findAllByHref this (href (bitstreams (links bundle))) options links_to_follow)"

section \<open>The callback, branch by branch\<close>

lemma bitstreamsOfBundle_via_bundle:
  "via_bundle (listed this options ls) (bitstreamsOfBundle this options ls)"
  by (rule via_bundleI) (simp_all add: bitstreamsOfBundle_def listed_def findAllByBundle_def)

lemma bitstreamsOfBundle_via_request:
  "via_request this (as_any ListPayload) options ls (bitstreamsOfBundle this options ls)"
  by (rule via_requestI [OF bitstreamsOfBundle_via_bundle listed_def])

lemma findAllByItemAndBundleName_apply:
  "findAllByItemAndBundleName this item bundleName options ls t =
     switch_trace (bitstreamsOfBundle this options ls)
       (findByItemAndName (bundleService this) item bundleName t)"
  by (simp add: findAllByItemAndBundleName_def)

section \<open>Properties\<close>

text \<open>
  C8. Every wrapper \<^verbatim>\<open>findAllByItemAndBundleName\<close> delivers stems from the latest
  wrapper of the lookup of the bundle of the given name: it is that wrapper itself when
  it has no payload, and otherwise an answer, unchanged, to the list request for the
  bitstreams link of its bundle, made with the options and the links of the caller
  when that wrapper arrived.
\<close>

theorem findAllByItemAndBundleName_origin:
  assumes "(u, out) \<in> set (findAllByItemAndBundleName this item bundleName options ls t)"
  shows "\<exists>pre s bundleRD post.
    findByItemAndName (bundleService this) item bundleName t = pre @ (s, bundleRD) # post \<and>
    (post = [] \<or> u = s \<or> u < fst (hd post)) \<and>
    (case payload bundleRD of
       Some bundle \<Rightarrow>
         \<exists>rd. (u, rd) \<in> set (findAllByHref this (href (bitstreams (links bundle))) options ls s) \<and>
              out = as_any ListPayload rd
     | None \<Rightarrow> u = s \<and> out = as_any BundlePayload bundleRD)"
proof -
  from assms have "(u, out) \<in> set (switch_trace (bitstreamsOfBundle this options ls)
      (findByItemAndName (bundleService this) item bundleName t))"
    by (simp add: findAllByItemAndBundleName_apply)
  with bitstreamsOfBundle_via_request show ?thesis by (rule via_request_origin)
qed

lemma demo_bitstreams:
  "findAllByItemAndBundleName demoService () ''THUMBNAIL'' None [] 0 =
     [(0, as_any BundlePayload requestPending), (2, as_any ListPayload requestPending),
      (5, as_any ListPayload (succeeded (listOf [otherThumbnail, coverThumbnail])))]"
  by (simp add: findAllByItemAndBundleName_apply listed_def requestedSize_def
      via_bundle_payload [OF bitstreamsOfBundle_via_bundle]
      via_bundle_no_payload [OF bitstreamsOfBundle_via_bundle])

theorem findAllByItemAndBundleName_origin_witness:
  "(5, as_any ListPayload (succeeded (listOf [otherThumbnail, coverThumbnail])))
     \<in> set (findAllByItemAndBundleName demoService () ''THUMBNAIL'' None [] 0) \<and>
   (\<exists>pre s bundleRD post.
     findByItemAndName (bundleService demoService) () ''THUMBNAIL'' 0 = pre @ (s, bundleRD) # post \<and>
     (post = [] \<or> 5 = s \<or> 5 < fst (hd post)) \<and>
     (case payload bundleRD of
        Some bundle \<Rightarrow>
          \<exists>rd. (5, rd) \<in> set (findAllByHref demoService (href (bitstreams (links bundle))) None [] s) \<and>
               as_any ListPayload (succeeded (listOf [otherThumbnail, coverThumbnail]))
                 = as_any ListPayload rd
      | None \<Rightarrow> 5 = s \<and>
          as_any ListPayload (succeeded (listOf [otherThumbnail, coverThumbnail]))
            = as_any BundlePayload bundleRD))"
proof -
  have h: "(5, as_any ListPayload (succeeded (listOf [otherThumbnail, coverThumbnail])))
     \<in> set (findAllByItemAndBundleName demoService () ''THUMBNAIL'' None [] 0)"
    by (simp add: demo_bitstreams)
  from findAllByItemAndBundleName_origin [OF h] h show ?thesis by (rule conjI [rotated])
qed

text \<open>
  C12. Once the bundle is resolved, \<^verbatim>\<open>findAllByItemAndBundleName\<close> is \<^verbatim>\<open>findAllByBundle\<close>:
  when the lookup delivers one wrapper and it carries a bundle, the operation delivers
  what \<^verbatim>\<open>findAllByBundle\<close> delivers for that bundle, subscribed to in the frame of the
  wrapper, with the options and the links to follow of the caller.
\<close>

theorem findAllByItemAndBundleName_resolved:
  assumes "findByItemAndName (bundleService this) item bundleName t = [(s, bundleRD)]"
    and "payload bundleRD = Some b"
  shows "findAllByItemAndBundleName this item bundleName options ls t =
    map (apsnd (as_any ListPayload)) (findAllByBundle this b options ls s)"
  using via_request_single [OF bitstreamsOfBundle_via_request assms(2)] assms(1)
  by (simp add: findAllByItemAndBundleName_apply findAllByBundle_def)

theorem findAllByItemAndBundleName_resolved_witness:
  "findByItemAndName (bundleService staleService) () ''ORIGINAL'' 4
     = [(4, succeeded (bundleAt ''/b/1''))] \<and>
   payload (succeeded (bundleAt ''/b/1'')) = Some (bundleAt ''/b/1'') \<and>
   findAllByItemAndBundleName staleService () ''ORIGINAL'' None [] 4 =
     map (apsnd (as_any ListPayload)) (findAllByBundle staleService (bundleAt ''/b/1'') None [] 4)"
proof -
  have h1: "findByItemAndName (bundleService staleService) () ''ORIGINAL'' 4
     = [(4, succeeded (bundleAt ''/b/1''))]"
    by simp
  have h2: "payload (succeeded (bundleAt ''/b/1'')) = Some (bundleAt ''/b/1'')"
    by simp
  from findAllByItemAndBundleName_resolved [OF h1 h2] h1 h2 show ?thesis by blast
qed

text \<open>
  C33. No answer is dropped while its bundle is the latest: an answer to the list
  request made for the bundle of a lookup wrapper is delivered when it comes in the
  frame of that wrapper or before the next lookup wrapper.
\<close>

theorem findAllByItemAndBundleName_delivers:
  assumes "wf_service this"
    and "findByItemAndName (bundleService this) item bundleName t = pre @ (s, bundleRD) # post"
    and "payload bundleRD = Some b"
    and "(u, rd) \<in> set (findAllByHref this (href (bitstreams (links b))) options ls s)"
    and "post = [] \<or> u = s \<or> u < fst (hd post)"
  shows "(u, as_any ListPayload rd)
    \<in> set (findAllByItemAndBundleName this item bundleName options ls t)"
  unfolding findAllByItemAndBundleName_apply
  using bitstreamsOfBundle_via_request assms by (rule via_request_delivers)

theorem findAllByItemAndBundleName_delivers_witness:
  "wf_service demoService \<and>
   findByItemAndName (bundleService demoService) () ''THUMBNAIL'' 0
     = [(0, requestPending)] @ (2, succeeded (bundleAt ''/b/1'')) # [] \<and>
   payload (succeeded (bundleAt ''/b/1'')) = Some (bundleAt ''/b/1'') \<and>
   (5, succeeded (listOf [otherThumbnail, coverThumbnail]))
     \<in> set (findAllByHref demoService (href (bitstreams (links (bundleAt ''/b/1'')))) None [] 2) \<and>
   (5, as_any ListPayload (succeeded (listOf [otherThumbnail, coverThumbnail])))
     \<in> set (findAllByItemAndBundleName demoService () ''THUMBNAIL'' None [] 0)"
proof -
  have h1: "findByItemAndName (bundleService demoService) () ''THUMBNAIL'' 0
     = [(0, requestPending)] @ (2, succeeded (bundleAt ''/b/1'')) # []"
    by simp
  have h2: "payload (succeeded (bundleAt ''/b/1'')) = Some (bundleAt ''/b/1'')"
    by simp
  have h3: "(5, succeeded (listOf [otherThumbnail, coverThumbnail]))
     \<in> set (findAllByHref demoService (href (bitstreams (links (bundleAt ''/b/1'')))) None [] 2)"
    by (simp add: requestedSize_def)
  have h4: "([] :: (time \<times> Bundle RemoteData) list) = [] \<or> (5 :: nat) = 2 \<or>
      5 < fst (hd ([] :: (time \<times> Bundle RemoteData) list))"
    by simp
  from findAllByItemAndBundleName_delivers [OF wf_demoService h1 h2 h3 h4]
    wf_demoService h1 h2 h3
  show ?thesis by blast
qed

section \<open>The declared type of the result\<close>



section \<open>On a collaborator that paginates\<close>

text \<open>
  C21. A page of the named bundle: when the collaborator paginates, the last wrapper of
  the lookup carries the bundle and the list request for pages of \<open>n\<close> elements on its
  bitstreams link succeeds in the end, the last wrapper
  \<^verbatim>\<open>findAllByItemAndBundleName\<close> delivers is a succeeded one that reads as a list wrapper
  at its declared type, and its page holds the first \<open>n\<close> bitstreams of the bundle in
  the order of the server.
\<close>

theorem findAllByItemAndBundleName_page:
  assumes "paged_by this contents"
    and "findByItemAndName (bundleService this) item bundleName t = pre @ [(s, bundleRD)]"
    and "payload bundleRD = Some b"
    and "findAllByHref this (href (bitstreams (links b))) (Some (pageSizeOnly n)) ls s
           = answers @ [(u, bitstreamRD)]"
    and "state bitstreamRD = Success"
  shows "\<exists>out. last (findAllByItemAndBundleName this item bundleName (Some (pageSizeOnly n)) ls t)
        = (u, out) \<and>
      state out = Success \<and>
      Option.bind (typed theList out) pageOf
        = Some (take (nat n) (contents (href (bitstreams (links b)))))"
proof -
  have "last (findAllByItemAndBundleName this item bundleName (Some (pageSizeOnly n)) ls t)
      = (u, as_any ListPayload bitstreamRD)"
    unfolding findAllByItemAndBundleName_apply assms(2)
    using bitstreamsOfBundle_via_request assms(3,4) by (rule via_request_last)
  moreover from assms(1,4,5)
  have "pageOf bitstreamRD = Some (take (nat n) (contents (href (bitstreams (links b)))))"
    by (rule paged_byD [where pre = answers and post = "[]"])
  ultimately show ?thesis using assms(5) by simp
qed

theorem findAllByItemAndBundleName_page_witness:
  "paged_by demoService (\<lambda>h. [otherThumbnail, coverThumbnail]) \<and>
   findByItemAndName (bundleService demoService) () ''THUMBNAIL'' 0
     = [(0, requestPending)] @ [(2, succeeded (bundleAt ''/b/1''))] \<and>
   payload (succeeded (bundleAt ''/b/1'')) = Some (bundleAt ''/b/1'') \<and>
   findAllByHref demoService (href (bitstreams (links (bundleAt ''/b/1''))))
       (Some (pageSizeOnly 1)) [] 2
     = [(2, requestPending)] @ [(5, succeeded (listOf [otherThumbnail]))] \<and>
   state (succeeded (listOf [otherThumbnail])) = Success \<and>
   (\<exists>out. last (findAllByItemAndBundleName demoService () ''THUMBNAIL'' (Some (pageSizeOnly 1)) [] 0)
        = (5, out) \<and>
      state out = Success \<and>
      Option.bind (typed theList out) pageOf = Some [otherThumbnail])"
proof -
  have h2: "findByItemAndName (bundleService demoService) () ''THUMBNAIL'' 0
     = [(0, requestPending)] @ [(2, succeeded (bundleAt ''/b/1''))]"
    by simp
  have h3: "payload (succeeded (bundleAt ''/b/1'')) = Some (bundleAt ''/b/1'')"
    by simp
  have h4: "findAllByHref demoService (href (bitstreams (links (bundleAt ''/b/1''))))
       (Some (pageSizeOnly 1)) [] 2
     = [(2, requestPending)] @ [(5, succeeded (listOf [otherThumbnail]))]"
    by simp
  have h5: "state (succeeded (listOf [otherThumbnail])) = Success"
    by simp
  from findAllByItemAndBundleName_page [OF demo_paged_by h2 h3 h4 h5] demo_paged_by h2 h3 h4 h5
  show ?thesis by simp
qed

end
