(* ===== verification/Switch_Machine.thy ===== *)
theory Switch_Machine
  imports Rx_Time
begin

text \<open>
  The subscriber of a switched stream as a state machine, and its agreement with the
  trace semantics of \<open>switchMap\<close>. The trace semantics (\<open>switch_trace\<close>) says in one
  equation what a subscriber is handed; the machine says how: it processes the
  emissions of the source and of the inner observable it is subscribed to in the order
  of time, one at a time. An emission of the inner observable is handed to the
  subscriber; an emission of the source makes the machine unsubscribe from the inner
  observable, which drops what that one had left, and subscribe to the projection of
  the emitted value. When both are due in the same frame the source goes first, but
  for what the inner observable delivers synchronously on subscription.

  The steps are an inductive relation (\<open>step\<close>, with a mode that enumerates the
  successors of a state, as \<open>reachable\<close> has one that enumerates the states of a
  subscription) and, for evaluation by rewriting, a function (\<open>next_state\<close>); \<open>run\<close>
  iterates it to the end. The machine is deterministic, every
  run ends, and what has been handed over at the end (and a prefix of it at every
  moment) is the trace \<open>switch_trace\<close> gives. The last section is on a caller who
  leaves: \<open>run_until\<close> handles the notifications of the frames before a given one,
  \<open>unsubscribe\<close> drops the rest, and what has been handed over is the part of the
  trace before that frame.
\<close>

section \<open>States and steps\<close>

record ('a, 'b) Subscriber =
  pending :: "'a trace"
  since :: time
  active :: "'b trace"
  handed :: "'b trace"

definition subscribe :: "'a Observable \<Rightarrow> time \<Rightarrow> ('a, 'b) Subscriber" where
  "subscribe source t = \<lparr>pending = source t, since = t, active = [], handed = []\<rparr>"

definition finished :: "('a, 'b) Subscriber \<Rightarrow> bool" where
  "finished st \<longleftrightarrow> pending st = [] \<and> active st = []"

text \<open>
  The next emission of the inner observable is due before the next emission of the
  source.
\<close>

definition due :: "('a, 'b) Subscriber \<Rightarrow> bool" where
  "due st =
     (case active st of
        [] \<Rightarrow> False
      | e # _ \<Rightarrow> (case pending st of [] \<Rightarrow> True | e' # _ \<Rightarrow> delivered (since st) (fst e') e))"

inductive step ::
  "('a \<Rightarrow> 'b Observable) \<Rightarrow> ('a, 'b) Subscriber \<Rightarrow> ('a, 'b) Subscriber \<Rightarrow> bool"
  for project :: "'a \<Rightarrow> 'b Observable" where
  Deliver:
    "active st = e # rest \<Longrightarrow> due st \<Longrightarrow>
     step project st (st\<lparr>active := rest, handed := handed st @ [e]\<rparr>)"
| Switch:
    "pending st = (t, x) # es \<Longrightarrow> \<not> due st \<Longrightarrow>
     step project st \<lparr>pending = es, since = t, active = project x t, handed = handed st\<rparr>"

code_pred (modes: i \<Rightarrow> i \<Rightarrow> o \<Rightarrow> bool as step_next) step .

definition next_state ::
  "('a \<Rightarrow> 'b Observable) \<Rightarrow> ('a, 'b) Subscriber \<Rightarrow> ('a, 'b) Subscriber option" where
  "next_state project st =
     (if due st
      then Some (st\<lparr>active := tl (active st), handed := handed st @ [hd (active st)]\<rparr>)
      else (case pending st of
              [] \<Rightarrow> None
            | (t, x) # es \<Rightarrow>
                Some \<lparr>pending = es, since = t, active = project x t, handed = handed st\<rparr>))"

text \<open>At most \<open>n\<close> steps from a state; the machine stays where it is once it has finished.\<close>

fun advance :: "('a \<Rightarrow> 'b Observable) \<Rightarrow> nat \<Rightarrow> ('a, 'b) Subscriber \<Rightarrow> ('a, 'b) Subscriber" where
  "advance project 0 st = st"
| "advance project (Suc n) st =
     (case next_state project st of None \<Rightarrow> st | Some st' \<Rightarrow> advance project n st')"

text \<open>The states a subscription in frame \<open>t\<close> goes through.\<close>

inductive reachable ::
  "('a \<Rightarrow> 'b Observable) \<Rightarrow> 'a Observable \<Rightarrow> time \<Rightarrow> ('a, 'b) Subscriber \<Rightarrow> bool"
  for project :: "'a \<Rightarrow> 'b Observable" and source :: "'a Observable" and t :: time where
  Subscribed: "reachable project source t (subscribe source t)"
| Stepped: "reachable project source t st \<Longrightarrow> step project st st' \<Longrightarrow> reachable project source t st'"

code_pred (modes: i \<Rightarrow> i \<Rightarrow> i \<Rightarrow> o \<Rightarrow> bool as reachable_states) reachable .

text \<open>
  The work a state has left: the emissions of the inner observable it is subscribed
  to, and for each pending emission of the source the switch and the emissions of its
  projection. Every step does one unit of it, or drops some.
\<close>

definition weight :: "('a \<Rightarrow> 'b Observable) \<Rightarrow> ('a, 'b) Subscriber \<Rightarrow> nat" where
  "weight project st =
     length (active st) + (\<Sum>e \<leftarrow> pending st. Suc (length (project (snd e) (fst e))))"

text \<open>What the subscriber has been handed and what it will still be handed.\<close>

definition observed :: "('a \<Rightarrow> 'b Observable) \<Rightarrow> ('a, 'b) Subscriber \<Rightarrow> 'b trace" where
  "observed project st =
     handed st @ until_switch (since st) (pending st) (active st) @ switch_trace project (pending st)"

text \<open>What the subscriber will still be handed.\<close>

definition remaining :: "('a \<Rightarrow> 'b Observable) \<Rightarrow> ('a, 'b) Subscriber \<Rightarrow> 'b trace" where
  "remaining project st =
     until_switch (since st) (pending st) (active st) @ switch_trace project (pending st)"

text \<open>
  The caller leaves (\<^verbatim>\<open>Subscription.unsubscribe\<close>): the subscriptions to the source and
  to the inner observable end, and with them what they had left.
\<close>

definition unsubscribe :: "('a, 'b) Subscriber \<Rightarrow> ('a, 'b) Subscriber" where
  "unsubscribe st = st\<lparr>pending := [], active := []\<rparr>"

text \<open>The frame of the notification the machine handles next.\<close>

definition upcoming :: "('a, 'b) Subscriber \<Rightarrow> time option" where
  "upcoming st =
     (if due st then Some (fst (hd (active st)))
      else (case pending st of [] \<Rightarrow> None | e # _ \<Rightarrow> Some (fst e)))"

section \<open>The step function and the step relation\<close>

inductive_cases stepE: "step project st st'"

lemma due_active: "due st \<Longrightarrow> active st \<noteq> []"
  by (auto simp: due_def)

lemma due_Nil [simp]: "active st = [] \<Longrightarrow> \<not> due st"
  by (simp add: due_def)

lemma due_last [simp]: "pending st = [] \<Longrightarrow> due st \<longleftrightarrow> active st \<noteq> []"
  by (simp add: due_def split: list.split)

lemma due_Cons:
  "active st = e # rest \<Longrightarrow> pending st = e' # es \<Longrightarrow> due st \<longleftrightarrow> delivered (since st) (fst e') e"
  by (simp add: due_def)

lemma step_iff_next_state: "step project st st' \<longleftrightarrow> next_state project st = Some st'"
proof
  assume "step project st st'"
  then show "next_state project st = Some st'"
    by (cases rule: step.cases) (simp_all add: next_state_def)
next
  assume next_st: "next_state project st = Some st'"
  show "step project st st'"
  proof (cases "due st")
    case True
    then obtain e rest where "active st = e # rest"
      by (cases "active st") (auto dest: due_active)
    with True next_st step.Deliver [of st e rest project] show ?thesis
      by (simp add: next_state_def)
  next
    case False
    with next_st obtain t x es where "pending st = (t, x) # es"
      by (cases "pending st") (auto simp: next_state_def)
    with False next_st step.Switch [of st t x es project] show ?thesis
      by (simp add: next_state_def)
  qed
qed

lemma next_state_None_iff: "next_state project st = None \<longleftrightarrow> finished st"
  by (cases "active st"; cases "pending st") (auto simp: next_state_def finished_def)

lemma step_deterministic: "step project st st1 \<Longrightarrow> step project st st2 \<Longrightarrow> st1 = st2"
  by (simp add: step_iff_next_state)

lemma step_progress: "\<not> finished st \<Longrightarrow> \<exists>st'. step project st st'"
  by (cases "next_state project st") (simp_all add: next_state_None_iff step_iff_next_state)

lemma finished_no_step: "finished st \<Longrightarrow> \<not> step project st st'"
  using next_state_None_iff [of project st] by (simp add: step_iff_next_state)

section \<open>Every run ends\<close>

lemma step_weight: "step project st st' \<Longrightarrow> weight project st' < weight project st"
  by (erule stepE) (auto simp: weight_def)

function run :: "('a \<Rightarrow> 'b Observable) \<Rightarrow> ('a, 'b) Subscriber \<Rightarrow> ('a, 'b) Subscriber" where
  "run project st = (case next_state project st of None \<Rightarrow> st | Some st' \<Rightarrow> run project st')"
  by pat_completeness auto
termination
  by (relation "measure (\<lambda>(project, st). weight project st)")
    (auto simp: step_iff_next_state [symmetric] dest: step_weight)

declare run.simps [simp del]

lemma run_finished_state [simp]: "finished st \<Longrightarrow> run project st = st"
  using next_state_None_iff [of project st] by (simp add: run.simps [of project st])

lemma run_step: "step project st st' \<Longrightarrow> run project st = run project st'"
  by (subst run.simps) (simp add: step_iff_next_state)

lemma finished_run: "finished (run project st)"
proof (induction project st rule: run.induct)
  case (1 project st)
  show ?case
  proof (cases "next_state project st")
    case None
    then have "finished st" by (simp add: next_state_None_iff)
    then show ?thesis by simp
  next
    case (Some st')
    with "1.IH" show ?thesis by (simp add: run.simps [of project st])
  qed
qed

lemma reachable_run: "reachable project source t st \<Longrightarrow> reachable project source t (run project st)"
proof (induction project st rule: run.induct)
  case (1 project st)
  show ?case
  proof (cases "next_state project st")
    case None
    with 1 show ?thesis by (simp add: run.simps [of project st])
  next
    case (Some st')
    then have "step project st st'" by (simp add: step_iff_next_state)
    with "1.prems" have "reachable project source t st'" by (rule reachable.Stepped)
    with Some "1.IH" show ?thesis by (simp add: run.simps [of project st])
  qed
qed

lemma reachable_advance:
  "reachable project source t st \<Longrightarrow> reachable project source t (advance project n st)"
proof (induction n arbitrary: st)
  case 0
  then show ?case by simp
next
  case (Suc n)
  show ?case
  proof (cases "next_state project st")
    case None
    with Suc.prems show ?thesis by simp
  next
    case (Some st')
    then have "step project st st'" by (simp add: step_iff_next_state)
    with Suc.prems have "reachable project source t st'" by (rule reachable.Stepped)
    with Some Suc.IH show ?thesis by simp
  qed
qed

text \<open>The weight of a state is fuel enough to finish.\<close>

lemma advance_weight: "weight project st \<le> n \<Longrightarrow> advance project n st = run project st"
proof (induction n arbitrary: st)
  case 0
  then have "finished st"
    by (cases "pending st") (simp_all add: weight_def finished_def)
  then show ?case by simp
next
  case (Suc n)
  show ?case
  proof (cases "next_state project st")
    case None
    then show ?thesis by (simp add: run.simps [of project st])
  next
    case (Some st')
    then have "step project st st'" by (simp add: step_iff_next_state)
    then have "weight project st' < weight project st" by (rule step_weight)
    with Suc.prems have "weight project st' \<le> n" by simp
    with Some Suc.IH show ?thesis by (simp add: run.simps [of project st])
  qed
qed

section \<open>What the subscriber is handed\<close>

lemma observed_subscribe [simp]:
  "observed project (subscribe source t) = switch_trace project (source t)"
  by (simp add: observed_def subscribe_def until_switch_def split: list.split)

lemma observed_finished: "finished st \<Longrightarrow> observed project st = handed st"
  by (simp add: observed_def finished_def)

lemma step_observed:
  assumes "step project st st'"
  shows "observed project st' = observed project st"
  using assms
proof cases
  case (Deliver e rest)
  then show ?thesis
    by (cases "pending st") (simp_all add: observed_def due_Cons)
next
  case (Switch t x es)
  then show ?thesis
    by (cases "active st") (simp_all add: observed_def due_Cons)
qed

lemma reachable_observed:
  "reachable project source t st \<Longrightarrow> observed project st = switch_trace project (source t)"
  by (induction rule: reachable.induct) (simp_all add: step_observed)

lemma reachable_handed_prefix:
  "reachable project source t st \<Longrightarrow> prefix (handed st) (switch_trace project (source t))"
  unfolding reachable_observed [symmetric] by (simp add: observed_def)

lemma reachable_finished:
  "reachable project source t st \<Longrightarrow> finished st \<Longrightarrow> handed st = switchMap project source t"
  by (simp add: reachable_observed [symmetric] observed_finished)

lemma run_observed: "observed project (run project st) = observed project st"
proof (induction project st rule: run.induct)
  case (1 project st)
  show ?case
  proof (cases "next_state project st")
    case None
    then show ?thesis by (simp add: run.simps [of project st])
  next
    case (Some st')
    then have "step project st st'" by (simp add: step_iff_next_state)
    then have "observed project st' = observed project st" by (rule step_observed)
    with Some "1.IH" show ?thesis by (simp add: run.simps [of project st])
  qed
qed

lemma handed_run: "handed (run project st) = observed project st"
  using run_observed [of project st] by (simp add: observed_finished finished_run)

lemma run_subscribe: "handed (run project (subscribe source t)) = switchMap project source t"
  by (simp add: handed_run)

section \<open>The frames of a run\<close>

text \<open>
  For well-formed observables the machine handles its emissions in the order of time:
  what it has handed over is sorted, nothing it has handed over is later than what the
  inner observable has left, and the inner observable has nothing from before its
  subscription.
\<close>

definition in_order :: "('a, 'b) Subscriber \<Rightarrow> bool" where
  "in_order st \<longleftrightarrow>
     wf_trace (since st) (active st) \<and> wf_trace (since st) (pending st) \<and>
     sorted (map fst (handed st)) \<and>
     (\<forall>h \<in> set (handed st).
        (\<forall>a \<in> set (active st). fst h \<le> fst a) \<and> (\<forall>p \<in> set (pending st). fst h \<le> fst p))"

lemma in_order_subscribe: "wf_Observable source \<Longrightarrow> in_order (subscribe source t)"
  by (simp add: in_order_def subscribe_def wf_ObservableD)

lemma step_in_order:
  assumes "step project st st'" and "in_order st" and "\<And>x. wf_Observable (project x)"
  shows "in_order st'"
  using assms(1)
proof cases
  case (Deliver e rest)
  with assms(2) show ?thesis
    by (cases "pending st")
      (auto simp: in_order_def wf_trace_def sorted_append due_Cons delivered_def)
next
  case (Switch t x es)
  from assms(3) have "wf_trace t (project x t)" by (rule wf_ObservableD)
  with Switch assms(2) show ?thesis
    by (fastforce simp: in_order_def wf_trace_def)
qed

lemma reachable_in_order:
  assumes "wf_Observable source" and "\<And>x. wf_Observable (project x)"
  shows "reachable project source t st \<Longrightarrow> in_order st"
  by (induction rule: reachable.induct) (auto intro: in_order_subscribe step_in_order assms)

section \<open>Leaving a subscription\<close>

text \<open>
  The run of a subscriber who leaves in frame \<open>T\<close>: the notifications of the frames
  before \<open>T\<close> are handled, the others never. It ends for the reason \<open>run\<close> does.
\<close>

function run_until ::
  "('a \<Rightarrow> 'b Observable) \<Rightarrow> time \<Rightarrow> ('a, 'b) Subscriber \<Rightarrow> ('a, 'b) Subscriber" where
  "run_until project T st =
     (case upcoming st of
        None \<Rightarrow> st
      | Some u \<Rightarrow>
          if u < T
          then (case next_state project st of None \<Rightarrow> st | Some st' \<Rightarrow> run_until project T st')
          else st)"
  by pat_completeness auto
termination
  by (relation "measure (\<lambda>(project, T, st). weight project st)")
    (auto simp: step_iff_next_state [symmetric] dest: step_weight)

declare run_until.simps [simp del]

lemma observed_remaining: "observed project st = handed st @ remaining project st"
  by (simp add: observed_def remaining_def)

lemma upcoming_None_iff: "upcoming st = None \<longleftrightarrow> finished st"
  by (cases "active st"; cases "pending st") (auto simp: upcoming_def finished_def)

lemma step_Deliver_remaining:
  assumes "step project st st'" and "due st"
  shows "handed st' = handed st @ [hd (active st)]"
    and "remaining project st = hd (active st) # remaining project st'"
proof -
  from assms show h: "handed st' = handed st @ [hd (active st)]"
    by (auto elim!: stepE)
  from step_observed [OF assms(1)] h show "remaining project st = hd (active st) # remaining project st'"
    by (simp add: observed_remaining)
qed

lemma step_Switch_remaining:
  assumes "step project st st'" and "\<not> due st"
  shows "handed st' = handed st" and "remaining project st = remaining project st'"
proof -
  from assms show h: "handed st' = handed st"
    by (auto elim!: stepE)
  from step_observed [OF assms(1)] h show "remaining project st = remaining project st'"
    by (simp add: observed_remaining)
qed

lemma wf_remaining_Switch:
  assumes "\<And>x. wf_Observable (project x)" and "in_order st" and "\<not> due st"
    and "pending st = e # es"
  shows "wf_trace (fst e) (remaining project st)"
proof -
  from assms(3,4) have "until_switch (since st) (pending st) (active st) = []"
    by (cases "active st") (simp_all add: due_Cons)
  moreover from assms(2,4) have "wf_trace (fst e) (e # es)"
    by (auto simp: in_order_def wf_trace_def)
  then have "wf_trace (fst e) (switch_trace project (e # es))"
    using wf_switch_trace [of project "fst e" "e # es"] assms(1) by (simp add: wf_ObservableD)
  ultimately show ?thesis using assms(4) by (simp add: remaining_def)
qed

lemma upcoming_due: "due st \<Longrightarrow> upcoming st = Some (fst (hd (active st)))"
  by (simp add: upcoming_def)

lemma upcoming_Switch: "\<not> due st \<Longrightarrow> pending st = e # es \<Longrightarrow> upcoming st = Some (fst e)"
  by (simp add: upcoming_def)

lemma run_until_finished [simp]: "finished st \<Longrightarrow> run_until project T st = st"
  using upcoming_None_iff [of st] by (simp add: run_until.simps [of project T st])

lemma run_until_late: "upcoming st = Some u \<Longrightarrow> T \<le> u \<Longrightarrow> run_until project T st = st"
  by (simp add: run_until.simps [of project T st])

lemma run_until_step:
  "upcoming st = Some u \<Longrightarrow> u < T \<Longrightarrow> step project st st' \<Longrightarrow>
   run_until project T st = run_until project T st'"
  by (simp add: run_until.simps [of project T st] step_iff_next_state)

lemma step_earlier_remaining:
  assumes "step project st st'" and "upcoming st = Some u" and "u < T"
  shows "handed st' @ earlier T (remaining project st') = handed st @ earlier T (remaining project st)"
proof (cases "due st")
  case True
  with assms(2,3) have "fst (hd (active st)) < T" by (simp add: upcoming_due)
  with step_Deliver_remaining [OF assms(1) True] show ?thesis by simp
next
  case False
  with step_Switch_remaining [OF assms(1)] show ?thesis by simp
qed

lemma earlier_remaining_late:
  assumes "\<And>x. wf_Observable (project x)" and "in_order st"
    and "upcoming st = Some u" and "T \<le> u"
  shows "earlier T (remaining project st) = []"
proof (cases "due st")
  case True
  then obtain e rest where "active st = e # rest" "fst e = u"
    using assms(3) by (cases "active st") (auto simp: due_def upcoming_def)
  with True assms(4) show ?thesis
    by (cases "pending st") (simp_all add: remaining_def due_Cons)
next
  case False
  with assms(3) obtain e es where pending: "pending st = e # es" and "fst e = u"
    by (cases "pending st") (auto simp: upcoming_def)
  with earlier_late [OF wf_remaining_Switch [OF assms(1,2) False pending], of T] assms(4)
  show ?thesis by simp
qed

lemma run_until_handed:
  "(\<And>x. wf_Observable (project x)) \<Longrightarrow> in_order st \<Longrightarrow>
   handed (run_until project T st) = handed st @ earlier T (remaining project st)"
proof (induction project T st rule: run_until.induct)
  case (1 project T st)
  show ?case
  proof (cases "upcoming st")
    case None
    then show ?thesis by (simp add: upcoming_None_iff remaining_def finished_def)
  next
    case (Some u)
    show ?thesis
    proof (cases "u < T")
      case True
      from Some obtain st' where st: "step project st st'"
        using step_progress [of st project] by (auto simp: upcoming_None_iff [symmetric])
      with "1.prems" have "in_order st'" by (auto intro: step_in_order)
      with "1.IH" [OF Some True _ "1.prems"(1)] st
      have "handed (run_until project T st') = handed st' @ earlier T (remaining project st')"
        by (simp add: step_iff_next_state)
      with run_until_step [OF Some True st] step_earlier_remaining [OF st Some True]
      show ?thesis by simp
    next
      case False
      with run_until_late [OF Some, of T project]
        earlier_remaining_late [OF "1.prems" Some, of T]
      show ?thesis by simp
    qed
  qed
qed

lemma unsubscribe_sel [simp]:
  "handed (unsubscribe st) = handed st" "finished (unsubscribe st)"
  "unsubscribe (unsubscribe st) = unsubscribe st"
  by (simp_all add: unsubscribe_def finished_def)

lemma unsubscribe_finished: "finished st \<Longrightarrow> unsubscribe st = st"
  by (simp add: unsubscribe_def finished_def)

lemma remaining_subscribe [simp]:
  "remaining project (subscribe source t) = switch_trace project (source t)"
  using observed_subscribe [of project source t] by (simp add: observed_remaining subscribe_def)

lemma handed_subscribe [simp]: "handed (subscribe source t) = []"
  by (simp add: subscribe_def)

lemma run_until_subscribe:
  assumes "wf_Observable source" and "\<And>x. wf_Observable (project x)"
  shows "handed (run_until project T (subscribe source t))
    = earlier T (switchMap project source t)"
proof -
  from assms(1) have "in_order (subscribe source t :: ('a, 'b) Subscriber)"
    by (rule in_order_subscribe)
  with assms(2) show ?thesis by (simp add: run_until_handed)
qed

lemma unsubscribe_at:
  assumes "wf_Observable source" and "\<And>x. wf_Observable (project x)"
  shows "handed (unsubscribe (run_until project T (subscribe source t)))
    = earlier T (switchMap project source t)"
  using assms by (simp add: run_until_subscribe)

lemma reachable_run_until:
  "reachable project source t st \<Longrightarrow> reachable project source t (run_until project T st)"
proof (induction project T st rule: run_until.induct)
  case (1 project T st)
  show ?case
  proof (cases "upcoming st")
    case None
    with 1 show ?thesis by (simp add: upcoming_None_iff)
  next
    case (Some u)
    show ?thesis
    proof (cases "u < T \<and> next_state project st \<noteq> None")
      case True
      then obtain st' where next_st: "next_state project st = Some st'" by auto
      then have "step project st st'" by (simp add: step_iff_next_state)
      with "1.prems" have "reachable project source t st'" by (rule reachable.Stepped)
      with "1.IH" [OF Some _ next_st] True Some next_st show ?thesis
        by (simp add: run_until.simps [of project T st])
    next
      case False
      with Some "1.prems" show ?thesis
        by (auto simp: run_until.simps [of project T st])
    qed
  qed
qed

end
