(* ===== verification/Spec2Isabelle.thy ===== *)
theory Spec2Isabelle
  imports Get_Matching_Thumbnail Find_All_By_Item_And_Bundle_Name Switch_Machine
begin

text \<open>
  \<^bold>\<open>The bitstream data service of a repository front end, verified.\<close>

  \<^bold>\<open>The program.\<close> The source is one class,
  \<^verbatim>\<open>src/app/core/data/bitstream-data.service.ts\<close>: \<^verbatim>\<open>BitstreamDataService\<close>, a client of
  a hypermedia REST interface for the files (bitstreams) of an item. It offers four
  operations, each returning a stream of wrappers (\<^verbatim>\<open>Observable<RemoteData<T>>\<close>):
  \<^item> \<^verbatim>\<open>findAllByBundle\<close>: the bitstreams behind the \<^verbatim>\<open>bitstreams\<close> link of a bundle;
  \<^item> \<^verbatim>\<open>getThumbnailFor\<close>: the first bitstream of the item's THUMBNAIL bundle;
  \<^item> \<^verbatim>\<open>getMatchingThumbnail\<close>: the bitstream of the THUMBNAIL bundle whose name starts
    with the name of a given bitstream, or a failure with status 404;
  \<^item> \<^verbatim>\<open>findAllByItemAndBundleName\<close>: the bitstreams of the bundle of a given name.

  The last three look a bundle up through a collaborator
  (\<^verbatim>\<open>bundleService.findByItemAndName\<close>), and for every wrapper the lookup delivers they
  switch (\<^verbatim>\<open>switchMap\<close>) to a list request on the bundle it carries (the inherited
  \<^verbatim>\<open>findAllByHref\<close>), whose answers they project (\<^verbatim>\<open>map\<close>); a lookup wrapper without a
  payload is handed on as it is (\<^verbatim>\<open>[bundleRD as any]\<close>). The generic layer below the
  service (request tracking, object cache, endpoint resolution, link resolution) is
  not part of the source; the service sees it through the two collaborator calls only.

  \<^bold>\<open>The theories.\<close>
  \<^descr>[\<open>Prelude\<close>] fact collections, virtual time, the JavaScript built-ins the source
    calls (\<open>array_at\<close> for \<^verbatim>\<open>page[0]\<close>, \<open>startsWith\<close>, \<open>MAX_SAFE_INTEGER\<close>; \<^verbatim>\<open>find\<close> is
    \<^const>\<open>List.find\<close>), and list lemmas.
  \<^descr>[\<open>Empty_Util\<close>] \<open>hasValue\<close>, \<open>isEmpty\<close>, \<open>isNotEmpty\<close> of \<^verbatim>\<open>shared/empty.util\<close>.
  \<^descr>[\<open>Remote_Data\<close>] the wrapper \<open>RemoteData\<close> with its five fields in constructor
    order, \<open>RemoteDataError\<close>, \<open>PaginatedList\<close>; the state of a wrapper (\<open>state\<close>), the
    three-state invariant \<open>wf_RemoteData\<close>, strictness (\<open>strict\<close>: a payload only
    once succeeded), and what it is for a sequence of snapshots to settle (\<open>settles\<close>:
    it is not empty and its last snapshot is not pending).
  \<^descr>[\<open>Rx_Observable\<close>] streams. An observable is cold: a function from the frame of
    subscription to the trace it then delivers, a list of (frame, value) pairs in
    delivery order. \<open>from_array\<close>, \<open>map_rx\<close> and \<open>switchMap\<close> are the operators the
    source uses. \<open>switchMap\<close> (\<open>switch_trace\<close>) keeps of the inner observable of a
    source emission what is delivered in the frame of subscription or before the frame
    of the next source emission (\<open>until_switch\<close>), as in the marble tests of the
    stream library. Lemmas: the operators keep traces time-sorted (\<open>wf_intros\<close>); what
    a switched stream delivers and where it stems from (\<open>set_switch_trace\<close>,
    \<open>switch_trace_origin\<close>); mapping commutes with switching; the untimed view
    (\<open>emitted_switch_trace\<close>).
  \<^descr>[\<open>Rx_Time\<close>] streams in time. \<open>earlier T\<close> is the part of a trace before frame
    \<open>T\<close>, \<open>shift d\<close> moves a trace in time, \<open>final\<close> is the value a stream ends with.
    A switched stream is causal (cutting commutes with switching:
    \<open>earlier_switch_trace\<close>, \<open>switch_trace_causal\<close>); it is time invariant when source
    and inner observables are (\<open>time_invariant\<close>, \<open>switch_trace_shift\<close>); it is no
    longer than the inner traces together (\<open>length_switch_trace\<close>); and it ends as the
    inner observable of the last source emission does (\<open>switch_trace_final\<close>).
  \<^descr>[\<open>Switch_Machine\<close>] the subscriber of a switched stream as a state machine: a
    state (\<open>Subscriber\<close>: the source emissions not yet handled, the inner subscription
    and what it has left, what has been handed over), the steps as an inductive relation
    (\<open>step\<close>: hand an inner emission over, or switch to the projection of the next
    source emission and drop what the inner observable had left; \<open>step\<close> and
    \<open>reachable\<close> have a mode for evaluation) and as a function (\<open>next_state\<close>), and
    the run to the end (\<open>run\<close>). Lemmas: relation and function
    agree, steps are deterministic, a state that is not finished can step, every step
    reduces \<open>weight\<close>, so \<open>run\<close> is total and \<open>weight\<close> is fuel enough for \<open>advance\<close>;
    \<open>observed\<close> is the same in all states of a subscription (by rule induction), so
    the machine hands over exactly \<open>switch_trace\<close>; with well-formed observables the
    states are \<open>in_order\<close>. A caller may leave: \<open>run_until\<close> handles the notifications
    of the frames before a frame \<open>T\<close> and \<open>unsubscribe\<close> drops what is left; what has
    been handed over then is \<open>earlier T\<close> of the trace (\<open>run_until_handed\<close>).
  \<^descr>[\<open>Shared_Models\<close>] \<open>Bundle\<close>, \<open>Bitstream\<close>, \<open>FindListOptions\<close>,
    \<open>FollowLinkConfig\<close>, and \<open>Payload\<close>, the sum of the classes a handed-out wrapper can
    hold at run time; \<open>as_any\<close> is the cast \<^verbatim>\<open>as any\<close>, which keeps every field, and
    \<open>typed\<close> reads a handed-out wrapper back at a declared type (\<open>theBitstream\<close>,
    \<open>theList\<close>, \<open>theBundle\<close>): it has no value where the payload is of another class.
    \<open>onList f\<close> applies a projection of list wrappers to a handed-out wrapper that
    holds a list and leaves every other wrapper as it is.
  \<^descr>[\<open>Service_Base\<close>] the service as a record of its two collaborator calls;
    \<open>findAllByBundle\<close>; the literals (\<open>pageSizeOnly\<close>, \<open>succeededWith\<close>); the
    assumptions a property may name (\<open>wf_service\<close>: time-sorted traces; \<open>wf_wrappers\<close>,
    \<open>strict_wrappers\<close>, \<open>paged_lists\<close>: what the delivered wrappers look like;
    \<open>settling\<close>: pending snapshots, then at most one settled one; \<open>paged_by\<close>: a
    succeeded answer to a request for pages of size \<open>n\<close> on a link carries the first \<open>n\<close>
    elements of the collection behind the link; \<open>answering\<close>: every stream settles;
    \<open>time_invariant_service\<close>: subscribing later delivers the same, later;
    \<open>agree_earlier T\<close>: two services deliver the same before frame \<open>T\<close>); and the
    lemmas on any callback that hands a lookup wrapper without payload on and switches to some
    inner observable for a bundle (\<open>via_bundle\<close>).
  \<^descr>[\<open>Via_Request\<close>] the interface between the operations and the stream lemmas:
    \<open>via_request this f options ls project\<close> says that the callback \<open>project\<close> makes, for
    a bundle, the list request on its bitstreams link with \<open>options\<close> and \<open>ls\<close> and
    projects the answers with \<open>f\<close>. Stated once for every such callback: where a
    delivered wrapper stems from (\<open>via_request_origin\<close>), what is delivered for sure
    (\<open>via_request_delivers\<close>), what the stream ends with (\<open>via_request_final\<close>,
    \<open>via_request_last\<close>), and which invariants of the collaborators' streams carry over
    (\<open>via_request_every\<close>, \<open>via_request_list_all\<close>, \<open>via_request_sorted\<close>,
    \<open>via_request_settles_once\<close>, \<open>via_request_settles\<close>), that the stream before a
    frame depends on the collaborators before that frame only (\<open>via_request_causal\<close>),
    that it moves with the frame of subscription (\<open>via_request_shift\<close>), how long it
    can be (\<open>via_request_length\<close>), and that it is the stream of the callback that
    does not project, projected afterwards (\<open>via_request_factor\<close>). \<open>resolve\<close> is
    the sequential reading of such an operation, written in the option monad: wait for
    the last wrapper of the lookup, then for the last answer to the list request for
    its bundle; the stream ends with its result (\<open>via_request_resolve\<close>,
    \<open>via_request_awaited\<close>). Each operation theory shows \<open>via_request\<close> for its
    callback; its stream properties are instances.
  \<^descr>[\<open>Fixtures\<close>] concrete wrappers, bitstreams and six services for the instances.
  \<^descr>[\<open>Get_Thumbnail_For\<close>] \<^verbatim>\<open>getThumbnailFor\<close> (lines 72 to 96): \<open>firstOfPage\<close> is the
    \<^verbatim>\<open>map\<close> callback, \<open>thumbnailOfBundle\<close> the \<^verbatim>\<open>switchMap\<close> callback, \<open>firstPage\<close> the
    projected list request of its first branch.
  \<^descr>[\<open>Get_Matching_Thumbnail\<close>] \<^verbatim>\<open>getMatchingThumbnail\<close> (lines 108 to 145):
    \<open>matchesOriginal\<close> is the predicate of \<^verbatim>\<open>find\<close>, \<open>matchingOfPage\<close> the \<^verbatim>\<open>map\<close>
    callback, \<open>matchingOfBundle\<close> the \<^verbatim>\<open>switchMap\<close> callback, \<open>matchInAll\<close> the
    projected list request.
  \<^descr>[\<open>Find_All_By_Item_And_Bundle_Name\<close>] \<^verbatim>\<open>findAllByItemAndBundleName\<close> (lines 158
    to 168): \<open>bitstreamsOfBundle\<close> is the \<^verbatim>\<open>switchMap\<close> callback, \<open>listed\<close> the list
    request with the caller's options.
  \<^descr>[\<open>Spec2Isabelle\<close>] this theory: the properties that relate the operations to
    each other and to the subscriber machine.

  \<^bold>\<open>Correspondence.\<close> A class instance is a record; \<^verbatim>\<open>undefined\<close> and \<^verbatim>\<open>null\<close> are
  \<open>None\<close>; an optional parameter is an option; a rest parameter is a list. Every
  \<^verbatim>\<open>if\<close> of the source is an \<open>if\<close> of the model with the same test. \<^verbatim>\<open>this\<close> is the
  first argument of each operation. Strings are lists of characters and \<^verbatim>\<open>startsWith\<close>
  is the prefix order on them. Numbers are integers: the source only passes on the
  literals 1 and \<^verbatim>\<open>Number.MAX_SAFE_INTEGER\<close>.

  \<^bold>\<open>What is proved.\<close>
  \<^item> For each projection (\<open>firstOfPage\<close>, \<open>matchingOfPage\<close>): its result on every
    branch, the failure 404 included; that what it hands out as a thumbnail is a
    bitstream of the page, the first one that qualifies; that it keeps the request
    state of strict wrappers, and what it does to a wrapper that is not strict.
  \<^item> For each composed operation: that every delivered wrapper stems from the latest
    wrapper of the bundle lookup and from the very list request the source makes for
    it (link, page size, links to follow); conversely, that no answer is dropped while
    its bundle is the latest; and the outcome, the last wrapper delivered: the first
    bitstream of the page for \<^verbatim>\<open>getThumbnailFor\<close>, the failure 404 for
    \<^verbatim>\<open>getMatchingThumbnail\<close> without a match, and for \<^verbatim>\<open>findAllByItemAndBundleName\<close> on a
    resolved bundle exactly what \<^verbatim>\<open>findAllByBundle\<close> delivers; and that every
    thumbnail \<^verbatim>\<open>getMatchingThumbnail\<close> delivers is a bitstream of the page it was found
    on, with a name that starts with the name of the original.
  \<^item> For a caller who waits: on a service that answers every request, each operation
    ends with the result of \<open>resolve\<close>, the sequential reading of its code. What was
    delivered before, and the list requests a later lookup wrapper cancelled, do not
    matter to that caller.
  \<^item> On failures: \<^verbatim>\<open>getMatchingThumbnail\<close> adds the failure 404 and no other, and
    only for a page without a match; every other error it delivers is the error of the
    collaborator's wrapper it stems from. \<^verbatim>\<open>getThumbnailFor\<close> adds no failure at all:
    without a bundle it delivers the wrappers of the lookup, and for an empty page a
    success without payload.
  \<^item> End to end, on a collaborator that paginates (\<open>paged_by\<close>): \<^verbatim>\<open>getThumbnailFor\<close>
    ends with the first bitstream of the bundle in the order of the server;
    \<^verbatim>\<open>getMatchingThumbnail\<close> ends with the first bitstream of the whole bundle whose name
    starts with the name of the original, or with the failure 404, as long as the
    bundle has no more bitstreams than the page size it asks for;
    \<^verbatim>\<open>findAllByItemAndBundleName\<close> with a page size \<open>n\<close> ends with the first \<open>n\<close>
    bitstreams of the named bundle.
  \<^item> On the casts: read back at its declared type, what \<^verbatim>\<open>findAllByItemAndBundleName\<close>
    delivers is the answer of \<^verbatim>\<open>findAllByBundle\<close> it was made of; every wrapper of the
    thumbnail operations reads at its declared type when every list of the
    collaborator has a page, and otherwise \<^verbatim>\<open>getThumbnailFor\<close> can deliver a succeeded
    wrapper that is not of its declared type (\<open>pagelessService\<close>).
  \<^item> Invariants of the delivered stream, under the same assumption on the
    collaborators: frames in order, wrappers in exactly one state, payloads of the
    class the result type promises, pending snapshots before at most one settled
    snapshot. The last one needs strict answers: \<open>staleService\<close> is a service for which
    \<^verbatim>\<open>getThumbnailFor\<close> shows success and then another snapshot. If every stream of
    the collaborators settles, so does every stream of the three operations: no
    caller is left with a pending wrapper.
  \<^item> On time: what an operation delivers before a frame \<open>T\<close> is the same for two
    services that deliver the same before \<open>T\<close>, whatever they do later
    (\<open>demoService\<close> and \<open>failingService\<close> part in frame 5); an operation subscribed
    to \<open>d\<close> frames later delivers the same wrappers \<open>d\<close> frames later, if that holds of
    the collaborators; an operation delivers no more wrappers than the lookup and
    the list requests it makes deliver together.
  \<^item> For the subscriber machine run with the callback of an operation: that it ends,
    that it hands over exactly the trace of the operation, a prefix of it in every
    state, and in the order of time; and that a caller who leaves in a frame \<open>T\<close> has
    been handed the trace before \<open>T\<close>.
  \<^item> Across operations: the two thumbnail operations deliver what
    \<^verbatim>\<open>findAllByItemAndBundleName\<close> delivers for the same page request, with their
    projection applied to each list wrapper (\<open>onList\<close>); the two projections part on
    the empty page (failure 404 against success without payload); without a bundle
    the three operations deliver the same stream, the lookup's wrappers recast.

  \<^bold>\<open>Bounds.\<close> There is no loop in the source. Traces are finite lists of any length
  and the properties hold for all collaborators. The recursions that are not
  structural are \<open>run\<close> and \<open>run_until\<close>, the loops of the subscriber machine; they
  terminate because every step reduces the \<open>weight\<close> of the state (the emissions the
  inner observable has left, plus one and the length of its projection for every
  pending source emission), and \<open>advance\<close> with that weight as fuel computes the state
  \<open>run\<close> ends in. Time is a natural number; only the order of frames matters. The one
  number of the source that is a bound is the page size of \<^verbatim>\<open>getMatchingThumbnail\<close>,
  \<^verbatim>\<open>Number.MAX_SAFE_INTEGER\<close> = 9007199254740991 = \<^verbatim>\<open>2^53 - 1\<close>: the search covers a
  bundle exactly when it has no more bitstreams than that (\<open>take_MAX_SAFE_INTEGER_iff\<close>).
  The number fits 53 bits and a signed 64-bit integer; cut to a signed 32-bit integer
  it is \<open>-1\<close> (\<open>MAX_SAFE_INTEGER_width\<close>). What the server makes of it is outside the
  source.

  \<^bold>\<open>What is not modelled, and why.\<close>
  \<^item> The implementations of the collaborators, that is the generic layer of the
    specification (request tracker with deduplication, object cache, endpoint
    resolver, link resolution by the wrapper builder) and \<^verbatim>\<open>BundleDataService\<close>. None
    of it is in the source, and the class calls none of it directly: the services its
    constructor receives are passed to the base class. Their effect reaches the class
    through the wrappers the two collaborator calls deliver, so they are two
    functions of the service record, and the theorems hold for all of them under the
    assumptions they name (\<open>wf_service\<close>, \<open>wf_wrappers\<close>, \<open>strict_wrappers\<close>, \<open>settling\<close>,
    \<open>answering\<close>, \<open>time_invariant_service\<close>, \<open>paged_lists\<close>, \<open>paged_by\<close>). The fixtures
    show that the assumptions can be met together. Modelling that layer would mean
    translating code that is not in the source.
  \<^item> The import list, the decorators and the comments of the source file: they are
    the lines of the file no definition stands for.
  \<^item> Completion and error notifications of streams: \<^verbatim>\<open>map\<close> and \<^verbatim>\<open>switchMap\<close> pass values
    on without looking at either, and a failed request is a value (a failed wrapper),
    not an error notification.
  \<^item> Exceptions at run time: \<^verbatim>\<open>thumbnail.name.startsWith\<close> throws for a bitstream
    without a name; \<open>Bitstream\<close> has a name always.
  \<^item> Dependency injection and the decorators of the class (\<^verbatim>\<open>@Injectable\<close>,
    \<^verbatim>\<open>@dataService\<close>): they wire objects together before any operation runs; the model
    passes the service record explicitly.
\<close>

section \<open>Properties that span the operations\<close>

text \<open>
  C30. On an empty page the two thumbnail projections part: \<^verbatim>\<open>getMatchingThumbnail\<close>
  reports the failure 404, \<^verbatim>\<open>getThumbnailFor\<close> a success without a payload.
\<close>

theorem thumbnail_projections_empty_page:
  assumes "pageOf bitstreamRD = Some []"
  shows "matchingOfPage bitstreamInOriginal bitstreamRD = noMatchingThumbnail \<and>
    firstOfPage bitstreamRD = succeededWith None \<and>
    state (matchingOfPage bitstreamInOriginal bitstreamRD) = Failed \<and>
    state (firstOfPage bitstreamRD) = Success"
  using assms by (simp add: matchingOfPage_page firstOfPage_page)

theorem thumbnail_projections_empty_page_witness:
  "pageOf (succeeded (listOf [])) = Some [] \<and>
   matchingOfPage original (succeeded (listOf [])) = noMatchingThumbnail \<and>
   firstOfPage (succeeded (listOf [])) = succeededWith None \<and>
   state (matchingOfPage original (succeeded (listOf []))) = Failed \<and>
   state (firstOfPage (succeeded (listOf []))) = Success"
  using thumbnail_projections_empty_page [of "succeeded (listOf [])" original] by simp

text \<open>
  C29. The projections keep the request state of a strict wrapper (one that carries a
  payload only once it has succeeded): pending stays pending and failed stays failed;
  succeeded stays succeeded under \<^verbatim>\<open>getThumbnailFor\<close>, and under
  \<^verbatim>\<open>getMatchingThumbnail\<close> but for a page without a match, which becomes a failure.
\<close>

theorem thumbnail_projections_state:
  assumes "strict bitstreamRD"
  shows "state (firstOfPage bitstreamRD) = state bitstreamRD \<and>
    state (matchingOfPage bitstreamInOriginal bitstreamRD) =
      (if state bitstreamRD = Success \<and> hasValue (pageOf bitstreamRD) \<and>
          find (matchesOriginal bitstreamInOriginal) (the (pageOf bitstreamRD)) = None
       then Failed else state bitstreamRD)"
proof (cases "pageOf bitstreamRD")
  case None
  then show ?thesis by (simp add: firstOfPage_no_page matchingOfPage_no_page)
next
  case (Some elements)
  with assms have "state bitstreamRD = Success"
    by (simp add: strict_page_settled)
  with Some show ?thesis
    by (simp add: firstOfPage_page matchingOfPage_page split: option.split)
qed

theorem thumbnail_projections_state_witness:
  "strict (succeeded (listOf [otherThumbnail])) \<and>
   state (firstOfPage (succeeded (listOf [otherThumbnail]))) = Success \<and>
   state (matchingOfPage original (succeeded (listOf [otherThumbnail]))) = Failed \<and>
   state (succeeded (listOf [otherThumbnail])) = Success \<and>
   find (matchesOriginal original) [otherThumbnail] = None"
proof -
  have "find (matchesOriginal original) [otherThumbnail] = None"
    by (simp add: matchesOriginal_def startsWith_def otherThumbnail_def original_def)
  with thumbnail_projections_state [of "succeeded (listOf [otherThumbnail])" original]
  show ?thesis by simp
qed

text \<open>
  C38. While the bundle lookup delivers no payload (the item has no such bundle, or the
  lookup fails) the three composed operations deliver the same stream: the wrappers of
  the lookup, each in its frame. No list request is answered into it.
\<close>

theorem operations_agree_without_bundle:
  assumes "list_all (\<lambda>e. payload (snd e) = None)
    (findByItemAndName (bundleService this) item ''THUMBNAIL'' t)"
  shows "getThumbnailFor this item t =
      map (apsnd (as_any BundlePayload)) (findByItemAndName (bundleService this) item ''THUMBNAIL'' t) \<and>
    getMatchingThumbnail this item bitstreamInOriginal t = getThumbnailFor this item t \<and>
    findAllByItemAndBundleName this item ''THUMBNAIL'' options links_to_follow t
      = getThumbnailFor this item t"
  using assms
  by (simp add: getMatchingThumbnail_apply getThumbnailFor_apply findAllByItemAndBundleName_apply
      via_request_mirror [OF matchingOfBundle_via_request]
      via_request_mirror [OF thumbnailOfBundle_via_request]
      via_request_mirror [OF bitstreamsOfBundle_via_request])

theorem operations_agree_without_bundle_witness:
  "list_all (\<lambda>e. payload (snd e) = None)
     (findByItemAndName (bundleService noBundleService) () ''THUMBNAIL'' 0) \<and>
   getThumbnailFor noBundleService () 0 =
     [(0, as_any BundlePayload requestPending), (1, as_any BundlePayload notFound)] \<and>
   getMatchingThumbnail noBundleService () original 0 = getThumbnailFor noBundleService () 0 \<and>
   findAllByItemAndBundleName noBundleService () ''THUMBNAIL'' None [] 0
     = getThumbnailFor noBundleService () 0"
proof -
  have h: "list_all (\<lambda>e. payload (snd e) = None)
     (findByItemAndName (bundleService noBundleService) () ''THUMBNAIL'' 0)"
    by simp
  from operations_agree_without_bundle [OF h, of original None "[]"] h show ?thesis
    by simp
qed

text \<open>
  C25. The three composed operations deliver the snapshots of one fetch in order,
  pending ones and then at most one settled one, when the collaborators do and their
  wrappers are strict: the projections keep a pending wrapper pending and a settled
  one settled, the failure 404 takes the place of a settled answer, and a cast changes
  no state.
\<close>

theorem operations_settle_once:
  assumes "strict_wrappers this" and "settling this"
  shows "settles_once (emitted (getThumbnailFor this item) t) \<and>
    settles_once (emitted (getMatchingThumbnail this item bitstreamInOriginal) t) \<and>
    settles_once (emitted (findAllByItemAndBundleName this item bundleName options ls) t)"
  unfolding emitted_def getThumbnailFor_apply getMatchingThumbnail_apply
    findAllByItemAndBundleName_apply
  using via_request_settles_once [OF thumbnailOfBundle_via_request assms firstOfPage_loading]
    via_request_settles_once [OF matchingOfBundle_via_request assms matchingOfPage_loading]
    via_request_settles_once [OF bitstreamsOfBundle_via_request assms]
  by simp

theorem operations_settle_once_witness:
  "strict_wrappers demoService \<and> settling demoService \<and>
   settles_once (emitted (getThumbnailFor demoService ()) 0) \<and>
   settles_once (emitted (getMatchingThumbnail demoService () original) 0) \<and>
   settles_once (emitted (findAllByItemAndBundleName demoService () ''THUMBNAIL'' None []) 0)"
  using operations_settle_once
    [OF demo_strict_wrappers demo_settling, of "()" 0 original "''THUMBNAIL''" None "[]"]
    demo_strict_wrappers demo_settling by simp

text \<open>
  C15. Every subscription is answered in the end: when every request to a collaborator
  settles, the last wrapper each composed operation delivers is a settled one, so a
  consumer that waits for the first settled wrapper gets one. No assumption on stale
  payloads is needed: the projections never turn a settled wrapper into a pending one.
\<close>

theorem operations_settle_in_the_end:
  assumes "answering this"
  shows "settles (emitted (getThumbnailFor this item) t) \<and>
    settles (emitted (getMatchingThumbnail this item bitstreamInOriginal) t) \<and>
    settles (emitted (findAllByItemAndBundleName this item bundleName options ls) t)"
  unfolding emitted_def getThumbnailFor_apply getMatchingThumbnail_apply
    findAllByItemAndBundleName_apply
  using via_request_settles [OF thumbnailOfBundle_via_request assms firstOfPage_settled]
    via_request_settles [OF matchingOfBundle_via_request assms matchingOfPage_settled]
    via_request_settles [OF bitstreamsOfBundle_via_request assms]
  by simp

theorem operations_settle_in_the_end_witness:
  "answering demoService \<and>
   settles (emitted (getThumbnailFor demoService ()) 0) \<and>
   settles (emitted (getMatchingThumbnail demoService () original) 0) \<and>
   settles (emitted (findAllByItemAndBundleName demoService () ''THUMBNAIL'' None []) 0)"
  using operations_settle_in_the_end [OF demo_answering, of "()" 0 original "''THUMBNAIL''" None "[]"]
    demo_answering by simp

text \<open>
  C34. Every wrapper the composed operations deliver is in exactly one of the states
  pending, succeeded and failed, when the wrappers of the collaborators are: the
  wrappers the projections build themselves are (a success has no error, the failure
  404 is neither pending nor succeeded), and a cast changes no flag.
\<close>

theorem operations_wrappers_wf:
  assumes "wf_wrappers this"
  shows "list_all wf_RemoteData (emitted (getThumbnailFor this item) t) \<and>
    list_all wf_RemoteData (emitted (getMatchingThumbnail this item bitstreamInOriginal) t) \<and>
    list_all wf_RemoteData (emitted (findAllByItemAndBundleName this item bundleName options ls) t)"
proof -
  note wf = assms [unfolded wf_wrappers_def]
  have "list_all wf_RemoteData (map snd (switch_trace (thumbnailOfBundle this)
      (findByItemAndName (bundleService this) item ''THUMBNAIL'' t)))"
    using thumbnailOfBundle_via_request wf
    by (rule via_request_list_all) (simp_all add: firstOfPage_wf)
  moreover have "list_all wf_RemoteData (map snd
      (switch_trace (matchingOfBundle this bitstreamInOriginal)
        (findByItemAndName (bundleService this) item ''THUMBNAIL'' t)))"
    using matchingOfBundle_via_request wf
    by (rule via_request_list_all) (simp_all add: matchingOfPage_wf)
  moreover have "list_all wf_RemoteData (map snd (switch_trace (bitstreamsOfBundle this options ls)
      (findByItemAndName (bundleService this) item bundleName t)))"
    using bitstreamsOfBundle_via_request wf
    by (rule via_request_list_all) simp_all
  ultimately show ?thesis
    by (simp add: emitted_def getThumbnailFor_apply getMatchingThumbnail_apply
        findAllByItemAndBundleName_apply)
qed

theorem operations_wrappers_wf_witness:
  "wf_wrappers demoService \<and>
   list_all wf_RemoteData (emitted (getThumbnailFor demoService ()) 0) \<and>
   list_all wf_RemoteData (emitted (getMatchingThumbnail demoService () original) 0) \<and>
   list_all wf_RemoteData (emitted (findAllByItemAndBundleName demoService () ''THUMBNAIL'' None []) 0)"
  using operations_wrappers_wf [OF demo_wf_wrappers, of "()" 0 original "''THUMBNAIL''" None "[]"]
    demo_wf_wrappers by simp



text \<open>
  C35. The casts are safe, but for one case: every wrapper
  \<^verbatim>\<open>findAllByItemAndBundleName\<close> delivers reads as a wrapper of a list at the declared
  type of its result, and every wrapper the thumbnail operations deliver reads as a
  wrapper of a bitstream when every list the collaborator delivers has a page. A list
  without a page is what \<^verbatim>\<open>getThumbnailFor\<close> hands on under the type of a bitstream.
\<close>

theorem operations_declared_type:
  "(paged_lists this \<longrightarrow>
      list_all (\<lambda>out. typed theBitstream out \<noteq> None) (emitted (getThumbnailFor this item) t) \<and>
      list_all (\<lambda>out. typed theBitstream out \<noteq> None)
        (emitted (getMatchingThumbnail this item bitstreamInOriginal) t)) \<and>
   list_all (\<lambda>out. typed theList out \<noteq> None)
     (emitted (findAllByItemAndBundleName this item bundleName options ls) t)"
proof (intro conjI impI)
  assume "paged_lists this"
  note paged = this [unfolded paged_lists_def]
  show "list_all (\<lambda>out. typed theBitstream out \<noteq> None) (emitted (getThumbnailFor this item) t)"
    unfolding emitted_def getThumbnailFor_apply
    using thumbnailOfBundle_via_request paged
    by (rule via_request_list_all) (simp_all add: firstOfPage_typed)
  show "list_all (\<lambda>out. typed theBitstream out \<noteq> None)
      (emitted (getMatchingThumbnail this item bitstreamInOriginal) t)"
    unfolding emitted_def getMatchingThumbnail_apply
    using matchingOfBundle_via_request paged
    by (rule via_request_list_all) (simp_all add: matchingOfPage_typed)
next
  show "list_all (\<lambda>out. typed theList out \<noteq> None)
      (emitted (findAllByItemAndBundleName this item bundleName options ls) t)"
    unfolding emitted_def findAllByItemAndBundleName_apply
    using bitstreamsOfBundle_via_request every_wrapper_True
    by (rule via_request_list_all) simp_all
qed

theorem operations_declared_type_witness:
  "paged_lists demoService \<and>
   list_all (\<lambda>out. typed theBitstream out \<noteq> None) (emitted (getThumbnailFor demoService ()) 0) \<and>
   list_all (\<lambda>out. typed theBitstream out \<noteq> None)
     (emitted (getMatchingThumbnail demoService () original) 0) \<and>
   list_all (\<lambda>out. typed theList out \<noteq> None)
     (emitted (findAllByItemAndBundleName demoService () ''THUMBNAIL'' None []) 0)"
  using operations_declared_type [of demoService "()" 0 original "''THUMBNAIL''" None "[]"]
    demo_paged_lists by simp

section \<open>The thumbnail operations as projections of the list operation\<close>

lemma hands_on_without_payload:
  "payload rd = None \<Longrightarrow> firstOfPage (retype rd None) = as_any BundlePayload rd"
  "payload rd = None \<Longrightarrow>
   matchingOfPage bitstreamInOriginal (retype rd None) = as_any BundlePayload rd"
  by (simp_all add: firstOfPage_no_page matchingOfPage_no_page as_any_no_payload)

text \<open>
  C13. The two thumbnail operations are the list operation with a projection on top:
  \<^verbatim>\<open>getThumbnailFor\<close> delivers what \<^verbatim>\<open>findAllByItemAndBundleName\<close> delivers for the bundle
  THUMBNAIL with page size one, each list wrapper projected to its first bitstream, and
  \<^verbatim>\<open>getMatchingThumbnail\<close> what it delivers with the largest page size, each list wrapper
  projected to its first match. The frames are the same: the projections take no time
  and the switch does not look at the values.
\<close>

theorem thumbnail_operations_factor:
  "getThumbnailFor this item =
     map_rx (onList firstOfPage)
       (findAllByItemAndBundleName this item ''THUMBNAIL'' (Some (pageSizeOnly 1)) []) \<and>
   getMatchingThumbnail this item bitstreamInOriginal =
     map_rx (onList (matchingOfPage bitstreamInOriginal))
       (findAllByItemAndBundleName this item ''THUMBNAIL'' (Some (pageSizeOnly MAX_SAFE_INTEGER)) [])"
proof (intro conjI ext)
  fix t
  show "getThumbnailFor this item t =
      map_rx (onList firstOfPage)
        (findAllByItemAndBundleName this item ''THUMBNAIL'' (Some (pageSizeOnly 1)) []) t"
    using via_request_factor [OF thumbnailOfBundle_via_request bitstreamsOfBundle_via_request]
    by (simp add: getThumbnailFor_apply findAllByItemAndBundleName_apply hands_on_without_payload)
  show "getMatchingThumbnail this item bitstreamInOriginal t =
      map_rx (onList (matchingOfPage bitstreamInOriginal))
        (findAllByItemAndBundleName this item ''THUMBNAIL'' (Some (pageSizeOnly MAX_SAFE_INTEGER)) []) t"
    using via_request_factor [OF matchingOfBundle_via_request bitstreamsOfBundle_via_request]
    by (simp add: getMatchingThumbnail_apply findAllByItemAndBundleName_apply
        hands_on_without_payload)
qed

section \<open>The operations for a caller who waits\<close>

text \<open>
  C14. On a service that answers every request, each composed operation ends with the
  result of the sequential reading of its code (\<open>resolve\<close>): wait for the last wrapper
  of the lookup; without a payload it is the result, recast; with a bundle, wait for
  the last answer to the list request the source makes for it, in the frame in which
  the bundle arrived, and project it. The wrappers delivered before do not matter to
  a caller who waits, and neither do the list requests that a later wrapper of the
  lookup cancelled.
\<close>

theorem operations_resolve:
  assumes "answering this"
  shows "final (getThumbnailFor this item t)
      = resolve this firstOfPage (Some (pageSizeOnly 1)) [] item ''THUMBNAIL'' t \<and>
    final (getMatchingThumbnail this item bitstreamInOriginal t)
      = resolve this (matchingOfPage bitstreamInOriginal) (Some (pageSizeOnly MAX_SAFE_INTEGER)) []
          item ''THUMBNAIL'' t \<and>
    final (findAllByItemAndBundleName this item bundleName options ls t)
      = resolve this (as_any ListPayload) options ls item bundleName t"
  unfolding getThumbnailFor_apply getMatchingThumbnail_apply findAllByItemAndBundleName_apply
  using via_request_awaited [OF thumbnailOfBundle_via_request assms]
    via_request_awaited [OF matchingOfBundle_via_request assms]
    via_request_awaited [OF bitstreamsOfBundle_via_request assms]
  by simp

theorem operations_resolve_witness:
  "answering demoService \<and>
   final (getThumbnailFor demoService () 0) = Some (5, succeededWith (Some otherThumbnail)) \<and>
   final (getMatchingThumbnail demoService () original 0)
     = Some (5, succeededWith (Some coverThumbnail)) \<and>
   final (findAllByItemAndBundleName demoService () ''ORIGINAL'' None [] 0)
     = Some (1, as_any BundlePayload notFound)"
proof -
  have found: "find (matchesOriginal original) [otherThumbnail, coverThumbnail] = Some coverThumbnail"
    by (simp add: matchesOriginal_def startsWith_def otherThumbnail_def coverThumbnail_def
        original_def)
  from operations_resolve [OF demo_answering, of "()" 0 original "''ORIGINAL''" None "[]"]
    demo_answering found
  show ?thesis
    by (simp add: resolve_def findAllByBundle_def firstOfPage_page matchingOfPage_page)
qed

section \<open>Causality\<close>

text \<open>
  C16. The operations are causal: what a subscriber is handed before frame \<open>T\<close> depends
  on what the collaborators deliver before \<open>T\<close> only. On two services that agree
  before \<open>T\<close> on the lookup and on the list requests made for its bundles, each
  operation delivers the same wrappers before \<open>T\<close>, whatever the services do later.
\<close>

theorem operations_causal:
  assumes "wf_service this" and "wf_service that"
  shows
    "(agree_earlier T this that item ''THUMBNAIL'' (Some (pageSizeOnly 1)) [] t \<longrightarrow>
        earlier T (getThumbnailFor this item t) = earlier T (getThumbnailFor that item t)) \<and>
     (agree_earlier T this that item ''THUMBNAIL'' (Some (pageSizeOnly MAX_SAFE_INTEGER)) [] t \<longrightarrow>
        earlier T (getMatchingThumbnail this item bitstreamInOriginal t)
          = earlier T (getMatchingThumbnail that item bitstreamInOriginal t)) \<and>
     (agree_earlier T this that item bundleName options ls t \<longrightarrow>
        earlier T (findAllByItemAndBundleName this item bundleName options ls t)
          = earlier T (findAllByItemAndBundleName that item bundleName options ls t))"
  unfolding getThumbnailFor_apply getMatchingThumbnail_apply findAllByItemAndBundleName_apply
  using via_request_causal [OF thumbnailOfBundle_via_request thumbnailOfBundle_via_request assms]
    via_request_causal [OF matchingOfBundle_via_request matchingOfBundle_via_request assms]
    via_request_causal [OF bitstreamsOfBundle_via_request bitstreamsOfBundle_via_request assms]
  by blast

theorem operations_causal_witness:
  "wf_service demoService \<and> wf_service failingService \<and>
   agree_earlier 5 demoService failingService () ''THUMBNAIL'' (Some (pageSizeOnly 1)) [] 0 \<and>
   earlier 5 (getThumbnailFor demoService () 0) = earlier 5 (getThumbnailFor failingService () 0) \<and>
   last (getThumbnailFor demoService () 0) \<noteq> last (getThumbnailFor failingService () 0)"
proof -
  have "last (getThumbnailFor failingService () 0) = (5, as_any ListPayload notFound)"
    by (simp add: getThumbnailFor_apply firstOfPage_no_page
        via_request_payload [OF thumbnailOfBundle_via_request]
        via_request_no_payload [OF thumbnailOfBundle_via_request])
  with operations_causal [OF wf_demoService wf_failingService, of 5 "()" 0]
    wf_demoService wf_failingService demo_failing_agree [of "()"]
  show ?thesis
    by (simp add: demo_thumbnail succeededWith_def as_any_def map_payload_def notFound_def)
qed

section \<open>Time and length\<close>



text \<open>
  C40. The operations deliver no more wrappers than their collaborators do: one for
  each wrapper of the lookup without a bundle, and at most as many as the list request
  is answered with for each wrapper of the lookup with a bundle.
\<close>

theorem operations_bounded:
  "length (getThumbnailFor this item t) \<le>
     (\<Sum>e \<leftarrow> findByItemAndName (bundleService this) item ''THUMBNAIL'' t.
        case payload (snd e) of
          None \<Rightarrow> 1
        | Some b \<Rightarrow> length (findAllByHref this (href (bitstreams (links b)))
                     (Some (pageSizeOnly 1)) [] (fst e))) \<and>
   length (getMatchingThumbnail this item bitstreamInOriginal t) \<le>
     (\<Sum>e \<leftarrow> findByItemAndName (bundleService this) item ''THUMBNAIL'' t.
        case payload (snd e) of
          None \<Rightarrow> 1
        | Some b \<Rightarrow> length (findAllByHref this (href (bitstreams (links b)))
                     (Some (pageSizeOnly MAX_SAFE_INTEGER)) [] (fst e))) \<and>
   length (findAllByItemAndBundleName this item bundleName options ls t) \<le>
     (\<Sum>e \<leftarrow> findByItemAndName (bundleService this) item bundleName t.
        case payload (snd e) of
          None \<Rightarrow> 1
        | Some b \<Rightarrow> length (findAllByHref this (href (bitstreams (links b))) options ls (fst e)))"
  unfolding getThumbnailFor_apply getMatchingThumbnail_apply findAllByItemAndBundleName_apply
  by (simp add: via_request_length [OF thumbnailOfBundle_via_request]
      via_request_length [OF matchingOfBundle_via_request]
      via_request_length [OF bitstreamsOfBundle_via_request])

section \<open>The subscriber of an operation\<close>










end
